(* ===== verification/Prelude.thy ===== *)
theory Prelude
  imports Complex_Main
begin

text \<open>
  Shared material of the development: the named collections of facts that the
  component theories fill and use, and generic lemmas on lists that several
  components need (removing the k-th element of a list of pending tasks, folding
  a state transformer over a list, properties that hold for every element of a
  list). Nothing here models code of the repository.
\<close>

section \<open>Collections of facts\<close>

named_theorems handler_defs
  "definitions of the event handlers of a component, unfolded to compute one step"
named_theorems guard_defs
  "definitions of the conditions under which a control is rendered"
named_theorems inv_defs
  "definitions of the invariants and of the predicates they are built from"
named_theorems frame_simps
  "which fields an operation leaves unchanged"

section \<open>Removing the k-th element\<close>

definition remove_nth :: "nat \<Rightarrow> 'a list \<Rightarrow> 'a list" where
  "remove_nth k xs = take k xs @ drop (Suc k) xs"

lemma remove_nth_Nil [simp]: "remove_nth k [] = []"
  by (simp add: remove_nth_def)

lemma remove_nth_0 [simp]: "remove_nth 0 (x # xs) = xs"
  by (simp add: remove_nth_def)

lemma remove_nth_Suc [simp]: "remove_nth (Suc k) (x # xs) = x # remove_nth k xs"
  by (simp add: remove_nth_def)

lemma remove_nth_beyond: "length xs \<le> k \<Longrightarrow> remove_nth k xs = xs"
  by (simp add: remove_nth_def)

lemma length_remove_nth [simp]:
  "k < length xs \<Longrightarrow> length (remove_nth k xs) = length xs - 1"
  by (simp add: remove_nth_def)

lemma set_remove_nth_subset: "set (remove_nth k xs) \<subseteq> set xs"
proof -
  have "set (take k xs) \<subseteq> set xs" and "set (drop (Suc k) xs) \<subseteq> set xs"
    by (auto dest: in_set_takeD in_set_dropD)
  then show ?thesis by (simp add: remove_nth_def)
qed

lemma in_set_remove_nthD: "x \<in> set (remove_nth k xs) \<Longrightarrow> x \<in> set xs"
  by (rule subsetD [OF set_remove_nth_subset])

lemma list_all_remove_nth [intro]: "list_all P xs \<Longrightarrow> list_all P (remove_nth k xs)"
  by (auto simp: list_all_iff dest: in_set_remove_nthD)

lemma sum_list_remove_nth:
  fixes f :: "'a \<Rightarrow> nat"
  shows "k < length xs \<Longrightarrow> sum_list (map f (remove_nth k xs)) + f (xs ! k) = sum_list (map f xs)"
proof (induction xs arbitrary: k)
  case Nil
  then show ?case by simp
next
  case (Cons x xs)
  then show ?case by (cases k) simp_all
qed

lemma remove_nth_append_single [simp]: "remove_nth (length xs) (xs @ [x]) = xs"
  by (simp add: remove_nth_def)

lemma nth_append_single [simp]: "(xs @ [x]) ! length xs = x"
  by simp

section \<open>Properties of every element\<close>

lemma list_all_snoc [simp]: "list_all P (xs @ [x]) \<longleftrightarrow> list_all P xs \<and> P x"
  by (simp add: list_all_iff conj_commute)

lemma list_all_nth: "list_all P xs \<Longrightarrow> k < length xs \<Longrightarrow> P (xs ! k)"
  by (simp add: list_all_length)

lemma list_all_mono: "list_all P xs \<Longrightarrow> (\<And>x. P x \<Longrightarrow> Q x) \<Longrightarrow> list_all Q xs"
  by (simp add: list_all_iff)

section \<open>Prefixes that only grow\<close>

text \<open>
  A log is a list that operations only append to. \<open>extends xs ys\<close> says that
  \<open>ys\<close> is \<open>xs\<close> followed by further entries; it is executable and a preorder.
\<close>

definition extends :: "'a list \<Rightarrow> 'a list \<Rightarrow> bool" where
  "extends xs ys \<longleftrightarrow> length xs \<le> length ys \<and> take (length xs) ys = xs"

lemma extends_refl [simp, intro]: "extends xs xs"
  by (simp add: extends_def)

lemma extends_append [simp, intro]: "extends xs (xs @ zs)"
  by (simp add: extends_def)

lemma extends_iff: "extends xs ys \<longleftrightarrow> (\<exists>zs. ys = xs @ zs)"
proof
  assume "extends xs ys"
  then have "ys = xs @ drop (length xs) ys"
    by (metis append_take_drop_id extends_def)
  then show "\<exists>zs. ys = xs @ zs" ..
next
  assume "\<exists>zs. ys = xs @ zs"
  then show "extends xs ys" by auto
qed

lemma extends_trans [trans]: "extends xs ys \<Longrightarrow> extends ys zs \<Longrightarrow> extends xs zs"
  by (auto simp: extends_iff)

lemma extends_snoc [intro]: "extends xs ys \<Longrightarrow> extends xs (ys @ [y])"
  by (auto simp: extends_iff)

lemma extends_length: "extends xs ys \<Longrightarrow> length xs \<le> length ys"
  by (simp add: extends_def)

lemma sorted_wrt_take_drop:
  "sorted_wrt P xs \<Longrightarrow> x \<in> set (take n xs) \<Longrightarrow> y \<in> set (drop n xs) \<Longrightarrow> P x y"
  using sorted_wrt_append [of P "take n xs" "drop n xs"] by simp

end
