(* ===== verification/Types.thy ===== *)
theory Types
  imports Prelude
begin

text \<open>
  The data model of \<^verbatim>\<open>src/types.ts\<close>: one record per interface, one datatype
  for the enum. \<^verbatim>\<open>CityProcess extends City\<close> is a record extension, so the
  object spread \<^verbatim>\<open>{...city, status: s}\<close> of the sources is the record update
  \<open>city\<lparr>status := s\<rparr>\<close>. JavaScript numbers are modelled by \<open>int\<close> where the
  sources produce integers (a population read by \<^verbatim>\<open>parseInt\<close>), by \<open>nat\<close> where
  they are array lengths and loop indices (the two counters), and by \<open>real\<close>
  where they are measurements (rating, coordinates). \<^verbatim>\<open>string | null\<close> is
  \<open>string option\<close>. The field \<^verbatim>\<open>id\<close> is named \<open>id'\<close>, since \<open>id\<close> is the
  identity function of HOL; \<^verbatim>\<open>ScanCenter.name\<close> is written qualified, the
  short \<open>name\<close> is the city's.
\<close>

section \<open>Interfaces\<close>

record ScanCenter =
  name :: string
  address :: string
  pincode :: string
  contactNumber :: string
  googleRating :: real
  mapLink :: string
  website :: string
  ctAvailable :: bool

record City =
  name :: string
  population :: int

datatype ProcessStatus =
    IDLE
  | SCANNING_PINCODES
  | AWAITING_CONFIRMATION
  | SCANNING_CENTERS
  | COMPLETED
  | STOPPED
  | ERROR

record CityProcess = City +
  id' :: string
  status :: ProcessStatus
  pincodes :: "string list"
  centers :: "ScanCenter list"
  foundPincodesCount :: nat
  scannedPincodesCount :: nat
  errorMessage :: "string option"

record LocationCoords =
  latitude :: real
  longitude :: real

section \<open>The enum's runtime values\<close>

text \<open>
  \<^verbatim>\<open>ProcessStatus\<close> is a string enum: each member is the string the compiled
  code compares. \<open>status_value\<close> gives that string; it is injective, so comparing
  statuses by constructor is the comparison the code performs.
\<close>

fun status_value :: "ProcessStatus \<Rightarrow> string" where
  "status_value IDLE = ''idle''"
| "status_value SCANNING_PINCODES = ''scanning_pincodes''"
| "status_value AWAITING_CONFIRMATION = ''awaiting_confirmation''"
| "status_value SCANNING_CENTERS = ''scanning_centers''"
| "status_value COMPLETED = ''completed''"
| "status_value STOPPED = ''stopped''"
| "status_value ERROR = ''error''"

definition all_statuses :: "ProcessStatus list" where
  "all_statuses =
     [IDLE, SCANNING_PINCODES, AWAITING_CONFIRMATION, SCANNING_CENTERS, COMPLETED, STOPPED, ERROR]"

instantiation ProcessStatus :: enum
begin

definition enum_ProcessStatus :: "ProcessStatus list" where
  "enum_ProcessStatus = all_statuses"

definition enum_all_ProcessStatus :: "(ProcessStatus \<Rightarrow> bool) \<Rightarrow> bool" where
  "enum_all_ProcessStatus P = list_all P all_statuses"

definition enum_ex_ProcessStatus :: "(ProcessStatus \<Rightarrow> bool) \<Rightarrow> bool" where
  "enum_ex_ProcessStatus P = list_ex P all_statuses"

instance
proof
  show univ: "(UNIV :: ProcessStatus set) = set enum_class.enum"
  proof -
    have "s \<in> set enum_class.enum" for s :: ProcessStatus
      by (cases s) (simp_all add: enum_ProcessStatus_def all_statuses_def)
    then show ?thesis by auto
  qed
  show "distinct (enum_class.enum :: ProcessStatus list)"
    by (simp add: enum_ProcessStatus_def all_statuses_def)
  show "enum_class.enum_all P = Ball (UNIV :: ProcessStatus set) P" for P
    by (simp add: enum_all_ProcessStatus_def univ list_all_iff enum_ProcessStatus_def)
  show "enum_class.enum_ex P = Bex (UNIV :: ProcessStatus set) P" for P
    by (simp add: enum_ex_ProcessStatus_def univ list_ex_iff enum_ProcessStatus_def)
qed

end

lemma set_all_statuses [simp]: "set all_statuses = UNIV"
  by (simp add: UNIV_enum enum_ProcessStatus_def)

lemma distinct_all_statuses [simp]: "distinct all_statuses"
  by (simp add: all_statuses_def)

lemma card_ProcessStatus: "card (UNIV :: ProcessStatus set) = 7"
  by (simp add: UNIV_enum enum_ProcessStatus_def all_statuses_def)

lemma distinct_status_values: "distinct (map status_value all_statuses)"
  by (simp add: all_statuses_def)

lemma status_value_inj: "status_value s = status_value s' \<longleftrightarrow> s = s'"
proof -
  have "inj_on status_value (set all_statuses)"
    using distinct_status_values distinct_all_statuses by (simp add: distinct_map)
  then show ?thesis by (auto simp: inj_on_def)
qed

section \<open>Groups of statuses\<close>

text \<open>
  The statuses in which a reset is offered (\<^verbatim>\<open>CityTile.tsx\<close>, line 119) are the
  terminal ones; the statuses with work in flight are those of \<^verbatim>\<open>isProcessing\<close>
  (line 90). They are defined here because several components speak of them.
\<close>

definition terminal :: "ProcessStatus \<Rightarrow> bool" where
  "terminal s \<longleftrightarrow> s = COMPLETED \<or> s = ERROR \<or> s = STOPPED"

definition processing :: "ProcessStatus \<Rightarrow> bool" where
  "processing s \<longleftrightarrow> s = SCANNING_PINCODES \<or> s = SCANNING_CENTERS"

lemmas status_group_defs [guard_defs] = terminal_def processing_def

lemma terminal_cases [simp]:
  "terminal COMPLETED" "terminal ERROR" "terminal STOPPED"
  "\<not> terminal IDLE" "\<not> terminal SCANNING_PINCODES"
  "\<not> terminal AWAITING_CONFIRMATION" "\<not> terminal SCANNING_CENTERS"
  by (simp_all add: terminal_def)

lemma processing_cases [simp]:
  "processing SCANNING_PINCODES" "processing SCANNING_CENTERS"
  "\<not> processing IDLE" "\<not> processing AWAITING_CONFIRMATION"
  "\<not> processing COMPLETED" "\<not> processing STOPPED" "\<not> processing ERROR"
  by (simp_all add: processing_def)

lemma terminal_not_processing: "terminal s \<Longrightarrow> \<not> processing s"
  by (cases s) simp_all

section \<open>Object spread keeps what it does not name\<close>

text \<open>
  Every update the components emit is a spread of a captured \<open>CityProcess\<close> with
  some fields replaced. The city's own fields and the identity are never named
  in such a spread; \<open>same_city\<close> relates two snapshots that agree on them.
\<close>

definition same_city :: "CityProcess \<Rightarrow> CityProcess \<Rightarrow> bool" where
  "same_city c d \<longleftrightarrow> name c = name d \<and> population c = population d \<and> id' c = id' d"

lemma same_city_refl [simp, intro]: "same_city c c"
  by (simp add: same_city_def)

lemma same_city_sym: "same_city c d \<Longrightarrow> same_city d c"
  by (simp add: same_city_def)

lemma same_city_trans [trans]: "same_city c d \<Longrightarrow> same_city d e \<Longrightarrow> same_city c e"
  by (simp add: same_city_def)

lemma same_city_update [simp]:
  "same_city (c\<lparr>status := s\<rparr>) d = same_city c d"
  "same_city (c\<lparr>pincodes := ps\<rparr>) d = same_city c d"
  "same_city (c\<lparr>centers := cs\<rparr>) d = same_city c d"
  "same_city (c\<lparr>foundPincodesCount := n\<rparr>) d = same_city c d"
  "same_city (c\<lparr>scannedPincodesCount := n\<rparr>) d = same_city c d"
  "same_city (c\<lparr>errorMessage := e\<rparr>) d = same_city c d"
  by (simp_all add: same_city_def)

lemma same_city_id: "same_city c d \<Longrightarrow> id' c = id' d"
  by (simp add: same_city_def)

end
