(* ===== verification/Registry.thy ===== *)
theory Registry
  imports Types
begin

text \<open>
  The process registry of \<^verbatim>\<open>src/App.tsx\<close>: the list \<^verbatim>\<open>cities\<close> held by the
  application component and the two functions that write it.
  \<open>handleFileParsed\<close> replaces the list by one fresh process per parsed city;
  \<open>handleCityUpdate\<close> is the callback every tile receives as \<^verbatim>\<open>onUpdate\<close>: it
  replaces each entry that carries the identity of the given snapshot. Both are
  pure functions of the previous list (the sources pass them to \<^verbatim>\<open>setCities\<close>),
  so the model is a function on lists. The lemmas show what the registry
  promises to the tiles: length, order and identities never change, an update
  reaches exactly the entries of its identity, and with distinct identities
  exactly one entry.
\<close>

section \<open>Operations\<close>

definition newProcess :: "City \<Rightarrow> CityProcess" where
  "newProcess city =
     \<lparr>name = name city, population = population city,
      id' = name city,
      status = IDLE,
      pincodes = [],
      centers = [],
      foundPincodesCount = 0,
      scannedPincodesCount = 0,
      errorMessage = None\<rparr>"

definition handleFileParsed :: "City list \<Rightarrow> CityProcess list" where
  "handleFileParsed parsedCities = map newProcess parsedCities"

definition handleCityUpdate :: "CityProcess \<Rightarrow> CityProcess list \<Rightarrow> CityProcess list" where
  "handleCityUpdate updatedCity prevCities =
     map (\<lambda>c. if id' c = id' updatedCity then updatedCity else c) prevCities"

text \<open>The upload form is rendered while the list is empty, the tiles otherwise.\<close>

definition showsUpload :: "CityProcess list \<Rightarrow> bool" where
  "showsUpload cities \<longleftrightarrow> length cities = 0"

text \<open>Several updates in the order they were emitted.\<close>

definition applyUpdates :: "CityProcess list \<Rightarrow> CityProcess list \<Rightarrow> CityProcess list" where
  "applyUpdates us cities = foldl (\<lambda>cs u. handleCityUpdate u cs) cities us"

section \<open>Fresh processes\<close>

definition fresh :: "CityProcess \<Rightarrow> bool" where
  "fresh c \<longleftrightarrow>
     status c = IDLE \<and> pincodes c = [] \<and> centers c = [] \<and>
     foundPincodesCount c = 0 \<and> scannedPincodesCount c = 0 \<and> errorMessage c = None"

lemma newProcess_fields [simp]:
  "name (newProcess city) = name city"
  "population (newProcess city) = population city"
  "id' (newProcess city) = name city"
  "status (newProcess city) = IDLE"
  "pincodes (newProcess city) = []"
  "centers (newProcess city) = []"
  "foundPincodesCount (newProcess city) = 0"
  "scannedPincodesCount (newProcess city) = 0"
  "errorMessage (newProcess city) = None"
  by (simp_all add: newProcess_def)

lemma fresh_newProcess [simp, intro]: "fresh (newProcess city)"
  by (simp add: fresh_def)

lemma newProcess_inj: "newProcess a = newProcess b \<longleftrightarrow> a = b"
proof
  assume "newProcess a = newProcess b"
  then have "name (newProcess a) = name (newProcess b)"
    and "population (newProcess a) = population (newProcess b)"
    by simp_all
  then show "a = b" by simp
qed simp

section \<open>Loading\<close>

lemma length_handleFileParsed [simp]:
  "length (handleFileParsed parsedCities) = length parsedCities"
  by (simp add: handleFileParsed_def)

lemma handleFileParsed_nth:
  "k < length parsedCities \<Longrightarrow> handleFileParsed parsedCities ! k = newProcess (parsedCities ! k)"
  by (simp add: handleFileParsed_def)

lemma handleFileParsed_ids [simp]:
  "map id' (handleFileParsed parsedCities) = map name parsedCities"
  by (simp add: handleFileParsed_def)

lemma handleFileParsed_fresh: "list_all fresh (handleFileParsed parsedCities)"
  by (simp add: handleFileParsed_def list_all_iff)

lemma showsUpload_handleFileParsed [simp]:
  "showsUpload (handleFileParsed parsedCities) \<longleftrightarrow> parsedCities = []"
  by (simp add: showsUpload_def)

section \<open>Updating\<close>

lemma length_handleCityUpdate [simp]: "length (handleCityUpdate u cs) = length cs"
  by (simp add: handleCityUpdate_def)

lemma handleCityUpdate_Nil [simp]: "handleCityUpdate u [] = []"
  by (simp add: handleCityUpdate_def)

lemma handleCityUpdate_Cons [simp]:
  "handleCityUpdate u (c # cs) = (if id' c = id' u then u else c) # handleCityUpdate u cs"
  by (simp add: handleCityUpdate_def)

lemma handleCityUpdate_nth:
  "k < length cs \<Longrightarrow>
     handleCityUpdate u cs ! k = (if id' (cs ! k) = id' u then u else cs ! k)"
  by (simp add: handleCityUpdate_def)

lemma handleCityUpdate_ids [simp]: "map id' (handleCityUpdate u cs) = map id' cs"
  by (induction cs) simp_all

lemma handleCityUpdate_absent: "id' u \<notin> id' ` set cs \<Longrightarrow> handleCityUpdate u cs = cs"
  by (induction cs) auto

lemma handleCityUpdate_idem [simp]:
  "handleCityUpdate u (handleCityUpdate u cs) = handleCityUpdate u cs"
  by (induction cs) simp_all

lemma handleCityUpdate_overwrite:
  "id' u = id' v \<Longrightarrow> handleCityUpdate v (handleCityUpdate u cs) = handleCityUpdate v cs"
  by (induction cs) simp_all

lemma handleCityUpdate_commute:
  "id' u \<noteq> id' v \<Longrightarrow>
     handleCityUpdate u (handleCityUpdate v cs) = handleCityUpdate v (handleCityUpdate u cs)"
  by (induction cs) simp_all

lemma showsUpload_handleCityUpdate [simp]:
  "showsUpload (handleCityUpdate u cs) = showsUpload cs"
  by (simp add: showsUpload_def)

text \<open>With distinct identities an update is the replacement of one element.\<close>

lemma handleCityUpdate_distinct:
  assumes "distinct (map id' cs)" and "k < length cs" and "id' (cs ! k) = id' u"
  shows "handleCityUpdate u cs = cs[k := u]"
proof (rule nth_equalityI)
  show "length (handleCityUpdate u cs) = length (cs[k := u])" by simp
next
  fix j assume j: "j < length (handleCityUpdate u cs)"
  then have jl: "j < length cs" by simp
  show "handleCityUpdate u cs ! j = cs[k := u] ! j"
  proof (cases "j = k")
    case True
    with assms show ?thesis by (simp add: handleCityUpdate_nth)
  next
    case False
    from assms(1) jl assms(2) False have "id' (cs ! j) \<noteq> id' (cs ! k)"
      using nth_eq_iff_index_eq [of "map id' cs" j k] by simp
    with assms(3) have "id' (cs ! j) \<noteq> id' u" by simp
    with jl False show ?thesis by (simp add: handleCityUpdate_nth)
  qed
qed

section \<open>Sequences of updates\<close>

lemma applyUpdates_Nil [simp]: "applyUpdates [] cs = cs"
  by (simp add: applyUpdates_def)

lemma applyUpdates_Cons [simp]:
  "applyUpdates (u # us) cs = applyUpdates us (handleCityUpdate u cs)"
  by (simp add: applyUpdates_def)

lemma applyUpdates_append [simp]:
  "applyUpdates (us @ vs) cs = applyUpdates vs (applyUpdates us cs)"
  by (simp add: applyUpdates_def)

lemma length_applyUpdates [simp]: "length (applyUpdates us cs) = length cs"
  by (induction us arbitrary: cs) simp_all

lemma applyUpdates_ids [simp]: "map id' (applyUpdates us cs) = map id' cs"
  by (induction us arbitrary: cs) simp_all

lemma applyUpdates_other:
  "k < length cs \<Longrightarrow> id' (cs ! k) \<notin> id' ` set us \<Longrightarrow> applyUpdates us cs ! k = cs ! k"
proof (induction us arbitrary: cs)
  case Nil
  then show ?case by simp
next
  case (Cons u us)
  from Cons.prems have ne: "id' (cs ! k) \<noteq> id' u" by auto
  with Cons.prems(1) have same: "handleCityUpdate u cs ! k = cs ! k"
    by (simp add: handleCityUpdate_nth)
  have "applyUpdates us (handleCityUpdate u cs) ! k = handleCityUpdate u cs ! k"
    using Cons.prems same by (intro Cons.IH) auto
  with same show ?case by simp
qed

lemma applyUpdates_own:
  assumes "k < length cs" and "us \<noteq> []" and "\<forall>u \<in> set us. id' u = id' (cs ! k)"
  shows "applyUpdates us cs ! k = last us"
  using assms
proof (induction us arbitrary: cs rule: rev_induct)
  case Nil
  then show ?case by simp
next
  case (snoc u us)
  have "id' (applyUpdates us cs ! k) = id' (cs ! k)"
    using snoc.prems(1) by (metis applyUpdates_ids length_applyUpdates length_map nth_map)
  with snoc.prems show ?case by (simp add: handleCityUpdate_nth)
qed

end
