(* ===== verification/CityTile.thy ===== *)
theory CityTile
  imports Registry
begin

text \<open>
  The tile of one city, \<^verbatim>\<open>src/components/CityTile.tsx\<close>: the component that
  drives a city through the discovery process.

  \<^bold>\<open>State.\<close> A mounted tile is a \<open>Tile\<close>: the prop \<open>city\<close> (the registry entry as
  of the last render), the hook state \<open>isExpanded\<close>, the mutable reference
  \<open>isRunning\<close> (\<^verbatim>\<open>isRunningRef.current\<close>), and the asynchronous functions that
  are suspended at an \<^verbatim>\<open>await\<close>, as \<open>tasks\<close>. A suspended function is its closure:
  the \<open>city\<close> it captured when it was called (every update it emits is a spread
  of that captured value, never of the current prop), and for the scan loop the
  local variables \<^verbatim>\<open>allCenters\<close> and \<^verbatim>\<open>i\<close>. Two history fields record what the
  tile did: \<open>emitted\<close>, the arguments of its \<^verbatim>\<open>onUpdate\<close> calls, and \<open>calls\<close>, the
  requests it sent to the service; no operation reads them.

  \<^bold>\<open>Operations.\<close> One definition per handler, taking the captured city as its
  first argument. The two asynchronous handlers are split at their \<^verbatim>\<open>await\<close>:
  the part that runs on the click, and the part that runs when the promise
  settles. \<open>scanLoop\<close> is the head of the \<^verbatim>\<open>for\<close> loop: it is entered on the
  click with \<open>i = 0\<close> and again after every answer.

  \<^bold>\<open>Events.\<close> \<open>fire\<close> is the step function of the tile: a click is enabled when
  its button is rendered (the JSX conditions, as \<open>show\<dots>\<close> predicates), a
  settlement is enabled for a task that is pending. \<open>fire\<close> returns \<open>None\<close> for
  an event that is not enabled. Every event sees the prop that results from all
  earlier updates: the model assumes that the application has rendered between
  two events.
\<close>

section \<open>The service, as the tile sees it\<close>

text \<open>
  \<^verbatim>\<open>findPincodesForCity\<close> resolves to an array of strings or rejects with a thrown
  value; the handler distinguishes an \<^verbatim>\<open>Error\<close> object (it has a message) from
  anything else. \<^verbatim>\<open>findScanCentersInPincode\<close> never rejects, but what it resolves
  to is the unchecked result of \<^verbatim>\<open>JSON.parse\<close>: the spread in the loop throws a
  \<^verbatim>\<open>TypeError\<close> when that value is not iterable.
\<close>

datatype thrown = ErrorObj string | NonError

datatype centersResult = Centers "ScanCenter list" | NotIterable

datatype call =
    FindPincodesForCity string
  | FindScanCentersInPincode string string "LocationCoords option"

section \<open>State\<close>

datatype task =
    StartTask CityProcess
  | ContinueTask CityProcess "LocationCoords option" "ScanCenter list" nat

record Tile =
  city :: CityProcess
  isExpanded :: bool
  isRunning :: bool
  tasks :: "task list"
  emitted :: "CityProcess list"
  calls :: "call list"

definition mountTile :: "CityProcess \<Rightarrow> Tile" where
  "mountTile c =
     \<lparr>city = c, isExpanded = False, isRunning = False, tasks = [], emitted = [], calls = []\<rparr>"

section \<open>Handlers\<close>

definition onUpdate :: "CityProcess \<Rightarrow> Tile \<Rightarrow> Tile" where
  "onUpdate updatedCity t = t\<lparr>city := updatedCity, emitted := emitted t @ [updatedCity]\<rparr>"

definition await :: "task \<Rightarrow> call \<Rightarrow> Tile \<Rightarrow> Tile" where
  "await k rq t = t\<lparr>tasks := tasks t @ [k], calls := calls t @ [rq]\<rparr>"

definition startProcess :: "CityProcess \<Rightarrow> Tile \<Rightarrow> Tile" where
  "startProcess c t =
     await (StartTask c) (FindPincodesForCity (name c))
       (onUpdate (c\<lparr>status := SCANNING_PINCODES, errorMessage := None, centers := [],
                    scannedPincodesCount := 0\<rparr>)
          (t\<lparr>isRunning := True\<rparr>))"

definition startProcess_resolved :: "CityProcess \<Rightarrow> string list \<Rightarrow> Tile \<Rightarrow> Tile" where
  "startProcess_resolved c pins t =
     (if \<not> isRunning t then onUpdate (c\<lparr>status := STOPPED\<rparr>) t
      else if length pins = 0 then
        onUpdate (c\<lparr>status := ERROR,
                    errorMessage := Some ''No pincodes found for this city.''\<rparr>) t
      else
        onUpdate (c\<lparr>status := AWAITING_CONFIRMATION, pincodes := pins,
                    foundPincodesCount := length pins\<rparr>) t)"

definition startProcess_rejected :: "CityProcess \<Rightarrow> thrown \<Rightarrow> Tile \<Rightarrow> Tile" where
  "startProcess_rejected c err t =
     onUpdate (c\<lparr>status := ERROR,
                 errorMessage := Some (case err of ErrorObj message \<Rightarrow> message
                                        | NonError \<Rightarrow> ''Failed to get pincodes'')\<rparr>) t"

definition scanLoop ::
    "CityProcess \<Rightarrow> LocationCoords option \<Rightarrow> ScanCenter list \<Rightarrow> nat \<Rightarrow> Tile \<Rightarrow> Tile" where
  "scanLoop c location allCenters i t =
     (if i < length (pincodes c) then
        (if \<not> isRunning t then
           onUpdate (c\<lparr>status := STOPPED, centers := allCenters,
                       scannedPincodesCount := i\<rparr>) t
         else
           await (ContinueTask c location allCenters i)
             (FindScanCentersInPincode (pincodes c ! i) (name c) location) t)
      else
        (onUpdate (c\<lparr>status := COMPLETED, centers := allCenters\<rparr>) t)
          \<lparr>isExpanded := True, isRunning := False\<rparr>)"

definition continueProcess :: "CityProcess \<Rightarrow> LocationCoords option \<Rightarrow> Tile \<Rightarrow> Tile" where
  "continueProcess c location t =
     scanLoop c location [] 0
       (onUpdate (c\<lparr>status := SCANNING_CENTERS\<rparr>) (t\<lparr>isRunning := True\<rparr>))"

definition continueProcess_resolved ::
    "CityProcess \<Rightarrow> LocationCoords option \<Rightarrow> ScanCenter list \<Rightarrow> nat \<Rightarrow> centersResult \<Rightarrow>
     Tile \<Rightarrow> Tile" where
  "continueProcess_resolved c location allCenters i res t =
     (case res of
        NotIterable \<Rightarrow> t
      | Centers foundCenters \<Rightarrow>
          scanLoop c location (allCenters @ foundCenters) (i + 1)
            (onUpdate (c\<lparr>status := SCANNING_CENTERS, centers := allCenters @ foundCenters,
                         scannedPincodesCount := i + 1\<rparr>) t))"

definition stopProcess :: "CityProcess \<Rightarrow> Tile \<Rightarrow> Tile" where
  "stopProcess c t = onUpdate (c\<lparr>status := STOPPED\<rparr>) (t\<lparr>isRunning := False\<rparr>)"

definition resetProcess :: "CityProcess \<Rightarrow> Tile \<Rightarrow> Tile" where
  "resetProcess c t =
     onUpdate (c\<lparr>status := IDLE, pincodes := [], centers := [], errorMessage := None,
                 foundPincodesCount := 0, scannedPincodesCount := 0\<rparr>)
       (stopProcess c (t\<lparr>isExpanded := False\<rparr>))"

definition cancelConfirmation :: "CityProcess \<Rightarrow> Tile \<Rightarrow> Tile" where
  "cancelConfirmation c t = onUpdate (c\<lparr>status := IDLE\<rparr>) t"

definition toggleExpanded :: "Tile \<Rightarrow> Tile" where
  "toggleExpanded t = t\<lparr>isExpanded := \<not> isExpanded t\<rparr>"

lemmas tile_handler_defs [handler_defs] =
  onUpdate_def await_def startProcess_def startProcess_resolved_def startProcess_rejected_def
  scanLoop_def continueProcess_def continueProcess_resolved_def stopProcess_def
  resetProcess_def cancelConfirmation_def toggleExpanded_def

section \<open>Which controls are rendered\<close>

definition isProcessing :: "CityProcess \<Rightarrow> bool" where
  "isProcessing c \<longleftrightarrow> status c = SCANNING_PINCODES \<or> status c = SCANNING_CENTERS"

definition showStart :: "CityProcess \<Rightarrow> bool" where
  "showStart c \<longleftrightarrow> status c = IDLE"

definition showStop :: "CityProcess \<Rightarrow> bool" where
  "showStop c \<longleftrightarrow> isProcessing c"

definition showConfirm :: "CityProcess \<Rightarrow> bool" where
  "showConfirm c \<longleftrightarrow> status c = AWAITING_CONFIRMATION"

definition showReset :: "CityProcess \<Rightarrow> bool" where
  "showReset c \<longleftrightarrow> status c = COMPLETED \<or> status c = ERROR \<or> status c = STOPPED"

definition showToggle :: "CityProcess \<Rightarrow> bool" where
  "showToggle c \<longleftrightarrow> length (centers c) > 0"

definition showList :: "Tile \<Rightarrow> bool" where
  "showList t \<longleftrightarrow> isExpanded t \<and> length (centers (city t)) > 0"

definition progress :: "CityProcess \<Rightarrow> real" where
  "progress c =
     (if foundPincodesCount c > 0
      then (real (scannedPincodesCount c) / real (foundPincodesCount c)) * 100
      else 0)"

lemmas tile_guard_defs [guard_defs] =
  isProcessing_def showStart_def showStop_def showConfirm_def showReset_def showToggle_def
  showList_def

lemma isProcessing_processing: "isProcessing c = processing (status c)"
  by (simp add: isProcessing_def processing_def)

lemma showReset_terminal: "showReset c = terminal (status c)"
  by (simp add: showReset_def terminal_def)

section \<open>Events and the step function\<close>

datatype event =
    ClickStart
  | ClickStop
  | ClickCancel
  | ClickProceed
  | ClickReset
  | ClickToggle
  | PincodesResolved nat "string list"
  | PincodesRejected nat thrown
  | CentersResolved nat centersResult

definition takeTask :: "nat \<Rightarrow> Tile \<Rightarrow> (task \<times> Tile) option" where
  "takeTask k t =
     (if k < length (tasks t) then Some (tasks t ! k, t\<lparr>tasks := remove_nth k (tasks t)\<rparr>)
      else None)"

fun fire :: "LocationCoords option \<Rightarrow> event \<Rightarrow> Tile \<Rightarrow> Tile option" where
  "fire location ClickStart t =
     (if showStart (city t) then Some (startProcess (city t) t) else None)"
| "fire location ClickStop t =
     (if showStop (city t) then Some (stopProcess (city t) t) else None)"
| "fire location ClickCancel t =
     (if showConfirm (city t) then Some (cancelConfirmation (city t) t) else None)"
| "fire location ClickProceed t =
     (if showConfirm (city t) then Some (continueProcess (city t) location t) else None)"
| "fire location ClickReset t =
     (if showReset (city t) then Some (resetProcess (city t) t) else None)"
| "fire location ClickToggle t =
     (if showToggle (city t) then Some (toggleExpanded t) else None)"
| "fire location (PincodesResolved k pins) t =
     (case takeTask k t of
        Some (StartTask c, t') \<Rightarrow> Some (startProcess_resolved c pins t')
      | _ \<Rightarrow> None)"
| "fire location (PincodesRejected k err) t =
     (case takeTask k t of
        Some (StartTask c, t') \<Rightarrow> Some (startProcess_rejected c err t')
      | _ \<Rightarrow> None)"
| "fire location (CentersResolved k res) t =
     (case takeTask k t of
        Some (ContinueTask c loc allCenters i, t') \<Rightarrow>
          Some (continueProcess_resolved c loc allCenters i res t')
      | _ \<Rightarrow> None)"

fun run :: "LocationCoords option \<Rightarrow> event list \<Rightarrow> Tile \<Rightarrow> Tile option" where
  "run location [] t = Some t"
| "run location (e # es) t =
     (case fire location e t of None \<Rightarrow> None | Some t' \<Rightarrow> run location es t')"

section \<open>Reachable tiles\<close>

text \<open>
  The tiles that can arise for a city of the uploaded file: the tile as mounted
  on the fresh process, and every tile an enabled event leads to, whatever the
  geolocation prop is at that moment.
\<close>

inductive reachable :: "City \<Rightarrow> Tile \<Rightarrow> bool" for c0 where
  mounted: "reachable c0 (mountTile (newProcess c0))"
| fired: "reachable c0 t \<Longrightarrow> fire location e t = Some t' \<Longrightarrow> reachable c0 t'"

section \<open>Characteristic equations\<close>

lemma run_append: "run loc (es @ fs) t = Option.bind (run loc es t) (run loc fs)"
  by (induction es arbitrary: t) (simp_all split: option.splits)

lemma run_single [simp]: "run loc [e] t = fire loc e t"
  by (cases "fire loc e t") simp_all

lemma run_snoc:
  "run loc (es @ [e]) t = Option.bind (run loc es t) (fire loc e)"
  by (cases "run loc es t") (simp_all add: run_append split: option.splits)

lemma reachable_run:
  "reachable c0 t \<Longrightarrow> run loc es t = Some t' \<Longrightarrow> reachable c0 t'"
proof (induction es arbitrary: t)
  case Nil
  then show ?case by simp
next
  case (Cons e es)
  from Cons.prems(2) obtain u where u: "fire loc e t = Some u" and r: "run loc es u = Some t'"
    by (auto split: option.splits)
  from Cons.prems(1) u have "reachable c0 u" by (rule reachable.fired)
  then show ?case using r by (rule Cons.IH)
qed

lemma takeTask_Some:
  "takeTask k t = Some (tk, t') \<longleftrightarrow>
     k < length (tasks t) \<and> tk = tasks t ! k \<and> t' = t\<lparr>tasks := remove_nth k (tasks t)\<rparr>"
  unfolding takeTask_def by (cases "k < length (tasks t)") auto

lemma takeTask_fields:
  assumes "takeTask k t = Some (tk, t')"
  shows "city t' = city t" "isExpanded t' = isExpanded t" "isRunning t' = isRunning t"
    "emitted t' = emitted t" "calls t' = calls t" "tasks t' = remove_nth k (tasks t)"
  using assms by (simp_all add: takeTask_Some)

lemma takeTask_mem: "takeTask k t = Some (tk, t') \<Longrightarrow> tk \<in> set (tasks t)"
  by (simp add: takeTask_Some)

section \<open>What an update is\<close>

lemma onUpdate_fields [simp]:
  "city (onUpdate u t) = u" "emitted (onUpdate u t) = emitted t @ [u]"
  "isExpanded (onUpdate u t) = isExpanded t" "isRunning (onUpdate u t) = isRunning t"
  "tasks (onUpdate u t) = tasks t" "calls (onUpdate u t) = calls t"
  by (simp_all add: onUpdate_def)

lemma await_fields [simp]:
  "city (await k rq t) = city t" "emitted (await k rq t) = emitted t"
  "isExpanded (await k rq t) = isExpanded t" "isRunning (await k rq t) = isRunning t"
  "tasks (await k rq t) = tasks t @ [k]" "calls (await k rq t) = calls t @ [rq]"
  by (simp_all add: await_def)

lemma mountTile_fields [simp]:
  "city (mountTile c) = c" "emitted (mountTile c) = []" "isExpanded (mountTile c) = False"
  "isRunning (mountTile c) = False" "tasks (mountTile c) = []" "calls (mountTile c) = []"
  by (simp_all add: mountTile_def)

end
