(* ===== verification/CityTile_Demo.thy ===== *)
theory CityTile_Demo
  imports CityTile
begin

text \<open>
  A worked run of one tile, on which the closed examples of the development
  are stated: one city scanned from the click on Start to completion, with
  three postal codes of which the second yields no center. \<open>eval_defs\<close> are
  the equations that compute a run of concrete events.
\<close>

section \<open>A worked run\<close>

definition delhi :: City where
  "delhi = \<lparr>name = ''Delhi'', population = 19000000\<rparr>"

definition centerA :: ScanCenter where
  "centerA =
     \<lparr>ScanCenter.name = ''Apex Imaging'', address = ''12 Ring Road'', pincode = ''110001'',
      contactNumber = ''011-5550100'', googleRating = 4.5,
      mapLink = ''https://maps.example/a'', website = ''N/A'', ctAvailable = True\<rparr>"

definition centerB :: ScanCenter where
  "centerB =
     \<lparr>ScanCenter.name = ''City Diagnostics'', address = ''4 Mall Road'', pincode = ''110003'',
      contactNumber = [], googleRating = 0,
      mapLink = ''https://maps.example/b'', website = ''https://city.example'',
      ctAvailable = False\<rparr>"

definition delhi_pins :: "string list" where
  "delhi_pins = [''110001'', ''110002'', ''110003'']"

definition awaiting_delhi :: CityProcess where
  "awaiting_delhi =
     (newProcess delhi)\<lparr>status := AWAITING_CONFIRMATION, pincodes := delhi_pins,
                          foundPincodesCount := 3\<rparr>"

definition demo_events :: "event list" where
  "demo_events =
     [ClickStart, PincodesResolved 0 delhi_pins, ClickProceed,
      CentersResolved 0 (Centers [centerA]), CentersResolved 0 (Centers []),
      CentersResolved 0 (Centers [centerB])]"

definition demo_started :: Tile where
  "demo_started = startProcess (newProcess delhi) (mountTile (newProcess delhi))"

definition demo_tile :: Tile where
  "demo_tile = the (run None demo_events (mountTile (newProcess delhi)))"

lemmas eval_defs =
  handler_defs guard_defs takeTask_def mountTile_def newProcess_def remove_nth_def
  delhi_pins_def awaiting_delhi_def

lemma demo_run: "run None demo_events (mountTile (newProcess delhi)) = Some demo_tile"
  by (simp add: demo_tile_def demo_events_def eval_defs)

lemma demo_reachable: "reachable delhi demo_tile"
  by (rule reachable_run [OF reachable.mounted demo_run])

lemma demo_city:
  "city demo_tile = awaiting_delhi\<lparr>status := COMPLETED, centers := [centerA, centerB]\<rparr>"
  by (simp add: demo_tile_def demo_events_def eval_defs)

lemma demo_emitted:
  "emitted demo_tile =
     [(newProcess delhi)\<lparr>status := SCANNING_PINCODES\<rparr>,
      awaiting_delhi,
      awaiting_delhi\<lparr>status := SCANNING_CENTERS\<rparr>,
      awaiting_delhi\<lparr>status := SCANNING_CENTERS, centers := [centerA],
                       scannedPincodesCount := 1\<rparr>,
      awaiting_delhi\<lparr>status := SCANNING_CENTERS, centers := [centerA],
                       scannedPincodesCount := 2\<rparr>,
      awaiting_delhi\<lparr>status := SCANNING_CENTERS, centers := [centerA, centerB],
                       scannedPincodesCount := 3\<rparr>,
      awaiting_delhi\<lparr>status := COMPLETED, centers := [centerA, centerB]\<rparr>]"
  by (simp add: demo_tile_def demo_events_def eval_defs)

lemma demo_calls:
  "calls demo_tile =
     [FindPincodesForCity ''Delhi'',
      FindScanCentersInPincode ''110001'' ''Delhi'' None,
      FindScanCentersInPincode ''110002'' ''Delhi'' None,
      FindScanCentersInPincode ''110003'' ''Delhi'' None]"
  by (simp add: demo_tile_def demo_events_def eval_defs delhi_def)

lemma demo_rest:
  "tasks demo_tile = []" "isRunning demo_tile = False" "isExpanded demo_tile = True"
  by (simp_all add: demo_tile_def demo_events_def eval_defs)

end
