(* ===== verification/CityTile_Inv.thy ===== *)
theory CityTile_Inv
  imports CityTile_Demo
begin

text \<open>
  The invariant of a tile and the properties of every reachable tile that
  follow from it.

  A snapshot is \<open>counts_ok\<close> when the found counter is the number of stored
  postal codes and the scanned counter does not exceed it; it is \<open>snapshot_ok\<close>
  when, in addition, its fields fit its status (an error message exactly in
  status \<^verbatim>\<open>ERROR\<close>, no centers and no progress before the scan starts, postal
  codes present once they were confirmed). Every update a handler emits is
  \<open>counts_ok\<close>; the update a handler emits last, the one that is rendered, is
  \<open>snapshot_ok\<close>. The difference is real: \<open>resetProcess\<close> first emits the
  stopped copy of an errored city, which still carries the message.

  The invariant \<open>tile_inv\<close> speaks of the prop, of the history and of the
  closures of the pending tasks, since what a task emits when it resumes is
  built from the city it captured. It holds whatever the interleaving of clicks
  and answers is: no lemma here restricts the schedule.
\<close>

section \<open>Snapshots\<close>

definition counts_ok :: "CityProcess \<Rightarrow> bool" where
  "counts_ok c \<longleftrightarrow>
     foundPincodesCount c = length (pincodes c) \<and> scannedPincodesCount c \<le> foundPincodesCount c"

definition cleared :: "CityProcess \<Rightarrow> bool" where
  "cleared c \<longleftrightarrow> centers c = [] \<and> scannedPincodesCount c = 0"

definition snapshot_ok :: "CityProcess \<Rightarrow> bool" where
  "snapshot_ok c \<longleftrightarrow>
     counts_ok c \<and> ((errorMessage c \<noteq> None) = (status c = ERROR)) \<and>
     (case status c of
        IDLE \<Rightarrow> cleared c
      | SCANNING_PINCODES \<Rightarrow> cleared c
      | AWAITING_CONFIRMATION \<Rightarrow> cleared c \<and> pincodes c \<noteq> []
      | SCANNING_CENTERS \<Rightarrow> pincodes c \<noteq> []
      | COMPLETED \<Rightarrow> pincodes c \<noteq> [] \<and> scannedPincodesCount c = 0
      | STOPPED \<Rightarrow> True
      | ERROR \<Rightarrow> cleared c)"

fun task_city :: "task \<Rightarrow> CityProcess" where
  "task_city (StartTask c) = c"
| "task_city (ContinueTask c loc acc i) = c"

fun task_ok :: "task \<Rightarrow> bool" where
  "task_ok (StartTask c) = (status c = IDLE \<and> snapshot_ok c)"
| "task_ok (ContinueTask c loc acc i) =
     (status c = AWAITING_CONFIRMATION \<and> snapshot_ok c \<and> i < length (pincodes c))"

definition committed :: "CityProcess \<Rightarrow> CityProcess list \<Rightarrow> CityProcess" where
  "committed c us = last (c # us)"

definition log_ok :: "City \<Rightarrow> Tile \<Rightarrow> bool" where
  "log_ok c0 t \<longleftrightarrow>
     list_all (\<lambda>u. counts_ok u \<and> same_city u (newProcess c0)) (emitted t) \<and>
     committed (newProcess c0) (emitted t) = city t"

definition tile_inv :: "City \<Rightarrow> Tile \<Rightarrow> bool" where
  "tile_inv c0 t \<longleftrightarrow>
     log_ok c0 t \<and> snapshot_ok (city t) \<and>
     list_all (\<lambda>k. task_ok k \<and> same_city (task_city k) (newProcess c0)) (tasks t)"

lemmas tile_inv_defs [inv_defs] =
  counts_ok_def cleared_def snapshot_ok_def log_ok_def tile_inv_def

lemma committed_Nil [simp]: "committed c [] = c"
  by (simp add: committed_def)

lemma committed_snoc [simp]: "committed c (us @ [u]) = u"
  by (simp add: committed_def)

lemma committed_mem: "committed c us = c \<or> committed c us \<in> set us"
  by (cases us rule: rev_cases) simp_all

lemma snapshot_ok_newProcess: "snapshot_ok (newProcess c0)"
  by (simp add: snapshot_ok_def counts_ok_def cleared_def)

lemma tile_inv_mount: "tile_inv c0 (mountTile (newProcess c0))"
  by (simp add: tile_inv_def log_ok_def snapshot_ok_newProcess)

lemma snapshot_counts: "snapshot_ok c \<Longrightarrow> counts_ok c"
  by (simp add: snapshot_ok_def)

lemma tile_inv_same_city: "tile_inv c0 t \<Longrightarrow> same_city (city t) (newProcess c0)"
  using committed_mem [of "newProcess c0" "emitted t"]
  by (auto simp: tile_inv_def log_ok_def list_all_iff)

lemma log_ok_onUpdate:
  "log_ok c0 t \<Longrightarrow> counts_ok u \<Longrightarrow> same_city u (newProcess c0) \<Longrightarrow> log_ok c0 (onUpdate u t)"
  by (simp add: log_ok_def)

lemma tile_inv_onUpdate:
  "tile_inv c0 t \<Longrightarrow> snapshot_ok u \<Longrightarrow> same_city u (newProcess c0) \<Longrightarrow> tile_inv c0 (onUpdate u t)"
  by (simp add: tile_inv_def log_ok_onUpdate snapshot_counts)


section \<open>Frame: what does not touch the invariant\<close>

lemma tile_inv_frame:
  assumes "tile_inv c0 t"
    and "city t' = city t" and "emitted t' = emitted t" and "tasks t' = tasks t"
  shows "tile_inv c0 t'"
  using assms by (simp add: tile_inv_def log_ok_def)

lemma tile_inv_isRunning [simp]: "tile_inv c0 (t\<lparr>isRunning := b\<rparr>) = tile_inv c0 t"
  by (simp add: tile_inv_def log_ok_def)

lemma tile_inv_isExpanded [simp]: "tile_inv c0 (t\<lparr>isExpanded := b\<rparr>) = tile_inv c0 t"
  by (simp add: tile_inv_def log_ok_def)

lemma tile_inv_await:
  "tile_inv c0 t \<Longrightarrow> task_ok k \<Longrightarrow> same_city (task_city k) (newProcess c0) \<Longrightarrow>
     tile_inv c0 (await k rq t)"
  by (simp add: tile_inv_def log_ok_def)

lemma tile_inv_transient:
  "tile_inv c0 t \<Longrightarrow> counts_ok u \<Longrightarrow> same_city u (newProcess c0) \<Longrightarrow>
     snapshot_ok v \<Longrightarrow> same_city v (newProcess c0) \<Longrightarrow>
     tile_inv c0 (onUpdate v (onUpdate u t))"
  by (simp add: tile_inv_def log_ok_onUpdate snapshot_counts)

lemma tile_inv_takeTask:
  assumes "tile_inv c0 t" and "takeTask k t = Some (tk, t')"
  shows "tile_inv c0 t'" and "task_ok tk" and "same_city (task_city tk) (newProcess c0)"
proof -
  from assms(2) have t': "t' = t\<lparr>tasks := remove_nth k (tasks t)\<rparr>"
    and k: "k < length (tasks t)" and tk: "tk = tasks t ! k"
    by (simp_all add: takeTask_Some)
  from assms(1) have all: "list_all (\<lambda>k. task_ok k \<and> same_city (task_city k) (newProcess c0)) (tasks t)"
    by (simp add: tile_inv_def)
  from all have "list_all (\<lambda>k. task_ok k \<and> same_city (task_city k) (newProcess c0)) (remove_nth k (tasks t))"
    by (rule list_all_remove_nth)
  with assms(1) show "tile_inv c0 t'" by (simp add: t' tile_inv_def log_ok_def)
  from list_all_nth [OF all k] show "task_ok tk" and "same_city (task_city tk) (newProcess c0)"
    by (simp_all add: tk)
qed

section \<open>The snapshots the handlers emit\<close>

lemma ok_scanning_pincodes:
  "snapshot_ok c \<Longrightarrow> status c = IDLE \<Longrightarrow>
     snapshot_ok (c\<lparr>status := SCANNING_PINCODES, errorMessage := None, centers := [],
                    scannedPincodesCount := 0\<rparr>)"
  by (simp add: snapshot_ok_def counts_ok_def cleared_def)

lemma ok_stopped:
  "snapshot_ok c \<Longrightarrow> status c \<noteq> ERROR \<Longrightarrow> snapshot_ok (c\<lparr>status := STOPPED\<rparr>)"
  by (simp add: snapshot_ok_def counts_ok_def)

lemma ok_error:
  "snapshot_ok c \<Longrightarrow> status c = IDLE \<Longrightarrow>
     snapshot_ok (c\<lparr>status := ERROR, errorMessage := Some m\<rparr>)"
  by (simp add: snapshot_ok_def counts_ok_def cleared_def)

lemma ok_awaiting:
  "snapshot_ok c \<Longrightarrow> status c = IDLE \<Longrightarrow> pins \<noteq> [] \<Longrightarrow>
     snapshot_ok (c\<lparr>status := AWAITING_CONFIRMATION, pincodes := pins,
                    foundPincodesCount := length pins\<rparr>)"
  by (simp add: snapshot_ok_def counts_ok_def cleared_def)

lemma ok_scanning_centers:
  "snapshot_ok c \<Longrightarrow> status c = AWAITING_CONFIRMATION \<Longrightarrow>
     snapshot_ok (c\<lparr>status := SCANNING_CENTERS\<rparr>)"
  by (simp add: snapshot_ok_def counts_ok_def cleared_def)

lemma ok_progress:
  "snapshot_ok c \<Longrightarrow> status c = AWAITING_CONFIRMATION \<Longrightarrow> i < length (pincodes c) \<Longrightarrow>
     snapshot_ok (c\<lparr>status := SCANNING_CENTERS, centers := acc,
                    scannedPincodesCount := Suc i\<rparr>)"
  by (simp add: snapshot_ok_def counts_ok_def cleared_def)

lemma ok_stopped_at:
  "snapshot_ok c \<Longrightarrow> status c = AWAITING_CONFIRMATION \<Longrightarrow> i < length (pincodes c) \<Longrightarrow>
     snapshot_ok (c\<lparr>status := STOPPED, centers := acc, scannedPincodesCount := i\<rparr>)"
  by (simp add: snapshot_ok_def counts_ok_def cleared_def)

lemma ok_completed:
  "snapshot_ok c \<Longrightarrow> status c = AWAITING_CONFIRMATION \<Longrightarrow>
     snapshot_ok (c\<lparr>status := COMPLETED, centers := acc\<rparr>)"
  by (simp add: snapshot_ok_def counts_ok_def cleared_def)

lemma ok_idle_cancel:
  "snapshot_ok c \<Longrightarrow> status c = AWAITING_CONFIRMATION \<Longrightarrow> snapshot_ok (c\<lparr>status := IDLE\<rparr>)"
  by (simp add: snapshot_ok_def counts_ok_def cleared_def)

lemma ok_idle_reset:
  "snapshot_ok (c\<lparr>status := IDLE, pincodes := [], centers := [], errorMessage := None,
                  foundPincodesCount := 0, scannedPincodesCount := 0\<rparr>)"
  by (simp add: snapshot_ok_def counts_ok_def cleared_def)

lemma counts_ok_status [simp]: "counts_ok (c\<lparr>status := s\<rparr>) = counts_ok c"
  by (simp add: counts_ok_def)

lemmas emitted_ok =
  ok_scanning_pincodes ok_stopped ok_error ok_awaiting ok_scanning_centers ok_progress
  ok_stopped_at ok_completed ok_idle_cancel ok_idle_reset

section \<open>Every handler keeps the invariant\<close>

lemma tile_inv_startProcess:
  assumes "tile_inv c0 t" and "snapshot_ok c" and "status c = IDLE"
    and "same_city c (newProcess c0)"
  shows "tile_inv c0 (startProcess c t)"
  unfolding startProcess_def using assms
  by (intro tile_inv_await tile_inv_onUpdate) (simp_all add: ok_scanning_pincodes)

lemma tile_inv_startProcess_resolved:
  assumes "tile_inv c0 t" and "task_ok (StartTask c)" and "same_city c (newProcess c0)"
  shows "tile_inv c0 (startProcess_resolved c pins t)"
  unfolding startProcess_resolved_def using assms
  by (auto intro!: tile_inv_onUpdate ok_stopped ok_error ok_awaiting)

lemma tile_inv_startProcess_rejected:
  assumes "tile_inv c0 t" and "task_ok (StartTask c)" and "same_city c (newProcess c0)"
  shows "tile_inv c0 (startProcess_rejected c err t)"
  unfolding startProcess_rejected_def using assms
  by (auto intro!: tile_inv_onUpdate ok_error)

lemma tile_inv_scanLoop:
  assumes "tile_inv c0 t" and "snapshot_ok c" and "status c = AWAITING_CONFIRMATION"
    and "same_city c (newProcess c0)"
  shows "tile_inv c0 (scanLoop c loc acc i t)"
  unfolding scanLoop_def using assms
  by (auto intro!: tile_inv_onUpdate tile_inv_await ok_stopped_at ok_completed)

lemma tile_inv_continueProcess:
  assumes "tile_inv c0 t" and "snapshot_ok c" and "status c = AWAITING_CONFIRMATION"
    and "same_city c (newProcess c0)"
  shows "tile_inv c0 (continueProcess c loc t)"
  unfolding continueProcess_def using assms
  by (intro tile_inv_scanLoop tile_inv_onUpdate) (simp_all add: ok_scanning_centers)

lemma tile_inv_continueProcess_resolved:
  assumes "tile_inv c0 t" and "task_ok (ContinueTask c loc acc i)"
    and "same_city c (newProcess c0)"
  shows "tile_inv c0 (continueProcess_resolved c loc acc i res t)"
proof (cases res)
  case NotIterable
  with assms(1) show ?thesis by (simp add: continueProcess_resolved_def)
next
  case (Centers found)
  from assms have "tile_inv c0 (scanLoop c loc (acc @ found) (i + 1)
      (onUpdate (c\<lparr>status := SCANNING_CENTERS, centers := acc @ found,
                   scannedPincodesCount := i + 1\<rparr>) t))"
    by (intro tile_inv_scanLoop tile_inv_onUpdate) (simp_all add: ok_progress)
  with Centers show ?thesis by (simp add: continueProcess_resolved_def)
qed

lemma tile_inv_stopProcess:
  assumes "tile_inv c0 t" and "snapshot_ok c" and "status c \<noteq> ERROR"
    and "same_city c (newProcess c0)"
  shows "tile_inv c0 (stopProcess c t)"
  unfolding stopProcess_def using assms
  by (intro tile_inv_onUpdate) (simp_all add: ok_stopped)

lemma tile_inv_resetProcess:
  assumes "tile_inv c0 t" and "snapshot_ok c" and "same_city c (newProcess c0)"
  shows "tile_inv c0 (resetProcess c t)"
  unfolding resetProcess_def stopProcess_def using assms
  by (intro tile_inv_transient) (simp_all add: ok_idle_reset snapshot_counts)

lemma tile_inv_cancelConfirmation:
  assumes "tile_inv c0 t" and "snapshot_ok c" and "status c = AWAITING_CONFIRMATION"
    and "same_city c (newProcess c0)"
  shows "tile_inv c0 (cancelConfirmation c t)"
  unfolding cancelConfirmation_def using assms
  by (intro tile_inv_onUpdate) (simp_all add: ok_idle_cancel)

lemma tile_inv_toggleExpanded: "tile_inv c0 t \<Longrightarrow> tile_inv c0 (toggleExpanded t)"
  by (simp add: toggleExpanded_def)

lemmas handlers_keep_inv =
  tile_inv_startProcess tile_inv_startProcess_resolved tile_inv_startProcess_rejected
  tile_inv_continueProcess tile_inv_continueProcess_resolved tile_inv_stopProcess
  tile_inv_resetProcess tile_inv_cancelConfirmation tile_inv_toggleExpanded

section \<open>Every event keeps the invariant\<close>

lemma tile_inv_snapshot: "tile_inv c0 t \<Longrightarrow> snapshot_ok (city t)"
  by (simp add: tile_inv_def)

lemma fire_task_cases:
  assumes "fire loc e t = Some t'"
  obtains (click) "e \<in> {ClickStart, ClickStop, ClickCancel, ClickProceed, ClickReset, ClickToggle}"
  | (resolved) k pins c t1 where "e = PincodesResolved k pins"
      "takeTask k t = Some (StartTask c, t1)" "t' = startProcess_resolved c pins t1"
  | (rejected) k err c t1 where "e = PincodesRejected k err"
      "takeTask k t = Some (StartTask c, t1)" "t' = startProcess_rejected c err t1"
  | (centers) k res c l acc i t1 where "e = CentersResolved k res"
      "takeTask k t = Some (ContinueTask c l acc i, t1)"
      "t' = continueProcess_resolved c l acc i res t1"
  using assms by (cases e) (auto split: option.splits task.splits prod.splits)

lemma fire_keeps_inv:
  assumes inv: "tile_inv c0 t" and fire: "fire loc e t = Some t'"
  shows "tile_inv c0 t'"
proof -
  note ok = tile_inv_snapshot [OF inv] and sc = tile_inv_same_city [OF inv]
  from fire show ?thesis
  proof (cases rule: fire_task_cases)
    case click
    with fire inv ok sc show ?thesis
      by (auto simp: guard_defs split: if_splits intro!: handlers_keep_inv)
  next
    case (resolved k pins c t1)
    with tile_inv_takeTask [OF inv resolved(2)] show ?thesis
      by (auto intro: tile_inv_startProcess_resolved)
  next
    case (rejected k err c t1)
    with tile_inv_takeTask [OF inv rejected(2)] show ?thesis
      by (auto intro: tile_inv_startProcess_rejected)
  next
    case (centers k res c l acc i t1)
    with tile_inv_takeTask [OF inv centers(2)] show ?thesis
      by (auto intro: tile_inv_continueProcess_resolved)
  qed
qed

lemma reachable_tile_inv: "reachable c0 t \<Longrightarrow> tile_inv c0 t"
  by (induction rule: reachable.induct) (auto intro: tile_inv_mount fire_keeps_inv)

section \<open>Properties of every reachable tile\<close>

text \<open>
  Claim C1. Every update that a tile ever emits, in any interleaving of clicks
  and service answers, has a scanned counter that does not exceed the found
  counter, and a found counter equal to the number of postal codes it stores.
\<close>

theorem emitted_counts_bounded:
  assumes "reachable c0 t" and "u \<in> set (emitted t)"
  shows "scannedPincodesCount u \<le> foundPincodesCount u \<and>
         foundPincodesCount u = length (pincodes u)"
proof -
  from assms(1) have "log_ok c0 t"
    by (simp add: reachable_tile_inv [unfolded tile_inv_def])
  with assms(2) have "counts_ok u"
    by (auto simp: log_ok_def list_all_iff)
  then show ?thesis by (simp add: counts_ok_def)
qed

theorem emitted_counts_bounded_witness:
  "reachable delhi demo_tile \<and> emitted demo_tile ! 5 \<in> set (emitted demo_tile) \<and>
   scannedPincodesCount (emitted demo_tile ! 5) = 3 \<and>
   scannedPincodesCount (emitted demo_tile ! 5) \<le> foundPincodesCount (emitted demo_tile ! 5) \<and>
   foundPincodesCount (emitted demo_tile ! 5) = length (pincodes (emitted demo_tile ! 5))"
proof -
  have mem: "emitted demo_tile ! 5 \<in> set (emitted demo_tile)"
    by (simp add: demo_emitted)
  have "scannedPincodesCount (emitted demo_tile ! 5) = 3"
    by (simp add: demo_emitted)
  with emitted_counts_bounded [OF demo_reachable mem] demo_reachable mem
  show ?thesis by simp
qed

text \<open>
  The rendered snapshot of a reachable tile carries an error message
  exactly when its status is \<^verbatim>\<open>ERROR\<close>.
\<close>

theorem error_message_iff_error:
  assumes "reachable c0 t"
  shows "(errorMessage (city t) \<noteq> None) = (status (city t) = ERROR)"
  using reachable_tile_inv [OF assms] by (simp add: tile_inv_def snapshot_ok_def)

theorem error_message_iff_error_witness:
  "reachable delhi demo_tile \<and>
   ((errorMessage (city demo_tile) \<noteq> None) = (status (city demo_tile) = ERROR)) \<and>
   errorMessage (city demo_tile) = None"
  using error_message_iff_error [OF demo_reachable] demo_reachable
  by (simp add: demo_city eval_defs)

text \<open>
  Claim C19. A tile never changes the identity, the name or the population of
  its city: the rendered snapshot and every emitted update carry those of the
  city the tile was created for, and the identity is the city's name.
\<close>

theorem identity_stable:
  assumes "reachable c0 t" and "u \<in> set (city t # emitted t)"
  shows "id' u = name c0 \<and> name u = name c0 \<and> population u = population c0"
proof -
  note inv = reachable_tile_inv [OF assms(1)]
  from inv have "list_all (\<lambda>u. same_city u (newProcess c0)) (emitted t)"
    by (simp add: tile_inv_def log_ok_def list_all_iff)
  with assms(2) tile_inv_same_city [OF inv] have "same_city u (newProcess c0)"
    by (auto simp: list_all_iff)
  then show ?thesis by (simp add: same_city_def)
qed

theorem identity_stable_witness:
  "reachable delhi demo_tile \<and> city demo_tile \<in> set (city demo_tile # emitted demo_tile) \<and>
   id' (city demo_tile) = ''Delhi'' \<and> name (city demo_tile) = ''Delhi'' \<and>
   population (city demo_tile) = 19000000"
  using identity_stable [OF demo_reachable, of "city demo_tile"] demo_reachable
  by (simp add: delhi_def)

text \<open>
  Claim C20. The progress shown for a reachable tile, and for every update it
  emitted, is a percentage between 0 and 100.
\<close>

theorem progress_bounds:
  assumes "reachable c0 t" and "u \<in> set (city t # emitted t)"
  shows "0 \<le> progress u \<and> progress u \<le> 100"
proof -
  note inv = reachable_tile_inv [OF assms(1)]
  from inv have "list_all counts_ok (emitted t)"
    by (simp add: tile_inv_def log_ok_def list_all_iff)
  with assms(2) snapshot_counts [OF tile_inv_snapshot [OF inv]] have "counts_ok u"
    by (auto simp: list_all_iff)
  then have "scannedPincodesCount u \<le> foundPincodesCount u"
    by (simp add: counts_ok_def)
  then show ?thesis
    by (simp add: progress_def divide_le_eq)
qed

theorem progress_bounds_witness:
  "reachable delhi demo_tile \<and>
   emitted demo_tile ! 4 \<in> set (city demo_tile # emitted demo_tile) \<and>
   0 \<le> progress (emitted demo_tile ! 4) \<and> progress (emitted demo_tile ! 4) \<le> 100 \<and>
   progress (emitted demo_tile ! 4) = 200 / 3"
proof -
  have mem: "emitted demo_tile ! 4 \<in> set (city demo_tile # emitted demo_tile)"
    by (simp add: demo_emitted)
  have "progress (emitted demo_tile ! 4) = 200 / 3"
    by (simp add: demo_emitted progress_def eval_defs)
  with progress_bounds [OF demo_reachable mem] mem demo_reachable
  show ?thesis by simp
qed

text \<open>
  Claim C17. Whenever the reset control is rendered on a reachable tile, the
  click on it leaves the city exactly as it was created: status \<^verbatim>\<open>IDLE\<close>, no
  postal codes, no centers, both counters zero, no message, and the tile
  collapsed and not running.
\<close>

theorem reset_restores_fresh:
  assumes "reachable c0 t" and "fire loc ClickReset t = Some t'"
  shows "city t' = newProcess c0 \<and> \<not> isExpanded t' \<and> \<not> isRunning t'"
proof -
  from assms(2) have t': "t' = resetProcess (city t) t"
    by (simp split: if_splits)
  have "same_city (city t) (newProcess c0)"
    by (rule tile_inv_same_city [OF reachable_tile_inv [OF assms(1)]])
  then have "(city t)\<lparr>status := IDLE, pincodes := [], centers := [], errorMessage := None,
      foundPincodesCount := 0, scannedPincodesCount := 0\<rparr> = newProcess c0"
    by (cases "city t") (simp add: same_city_def newProcess_def)
  then show ?thesis
    by (simp add: t' resetProcess_def stopProcess_def)
qed

theorem reset_restores_fresh_witness:
  "reachable delhi demo_tile \<and>
   fire None ClickReset demo_tile = Some (resetProcess (city demo_tile) demo_tile) \<and>
   city (resetProcess (city demo_tile) demo_tile) = newProcess delhi \<and>
   \<not> isExpanded (resetProcess (city demo_tile) demo_tile) \<and>
   \<not> isRunning (resetProcess (city demo_tile) demo_tile)"
proof -
  have f: "fire None ClickReset demo_tile = Some (resetProcess (city demo_tile) demo_tile)"
    by (simp add: demo_city showReset_def)
  from reset_restores_fresh [OF demo_reachable f] demo_reachable f show ?thesis by simp
qed

text \<open>
  Claim C40. A completed city shows a scanned counter of zero: the final update
  of the scan is a spread of the snapshot captured at the confirmation, whose
  counter was never advanced. (The specification expects the number of scanned
  postal codes here.)
\<close>

theorem completed_scanned_is_zero:
  assumes "reachable c0 t" and "status (city t) = COMPLETED"
  shows "scannedPincodesCount (city t) = 0 \<and> pincodes (city t) \<noteq> []"
  using reachable_tile_inv [OF assms(1)] assms(2)
  by (simp add: tile_inv_def snapshot_ok_def)

theorem completed_scanned_is_zero_witness:
  "reachable delhi demo_tile \<and> status (city demo_tile) = COMPLETED \<and>
   scannedPincodesCount (city demo_tile) = 0 \<and> length (pincodes (city demo_tile)) = 3"
proof -
  have c: "status (city demo_tile) = COMPLETED"
    by (simp add: demo_city)
  from completed_scanned_is_zero [OF demo_reachable c] demo_reachable c
  show ?thesis by (simp add: demo_city eval_defs)
qed

end
