(* ===== verification/CityTile_Run.thy ===== *)
theory CityTile_Run
  imports CityTile_Inv
begin

text \<open>
  What the phases of the discovery process compute, as runs of the step
  function of \<open>CityTile\<close> over explicit schedules of clicks and answers.

  \<open>answers rs\<close> is the schedule in which the service answers the pending
  lookup with the lists \<open>rs\<close>, one after the other; \<open>scan_updates\<close> are the
  progress updates the specification asks for (one per postal code, centers
  appended, counter incremented); \<open>requests\<close> are the lookups in the order of
  the postal codes. \<open>scan_from\<close> is the loop invariant of the scan: from any
  iteration, the remaining answers lead to completion with exactly these
  updates and requests. The theorems of the second half state the outcome of
  each phase, the effect of Stop at each point where the code lets it take
  effect and where it does not, and a bound on the answers a tile can consume
  without a click (\<open>work\<close>), which is the termination of the pipeline.
\<close>

section \<open>Schedules\<close>

definition answers :: "ScanCenter list list \<Rightarrow> event list" where
  "answers rs = map (\<lambda>r. CentersResolved 0 (Centers r)) rs"

fun scan_updates ::
    "CityProcess \<Rightarrow> ScanCenter list \<Rightarrow> nat \<Rightarrow> ScanCenter list list \<Rightarrow> CityProcess list" where
  "scan_updates c acc i [] = []"
| "scan_updates c acc i (r # rs) =
     c\<lparr>status := SCANNING_CENTERS, centers := acc @ r, scannedPincodesCount := Suc i\<rparr>
       # scan_updates c (acc @ r) (Suc i) rs"

definition requests :: "CityProcess \<Rightarrow> LocationCoords option \<Rightarrow> string list \<Rightarrow> call list" where
  "requests c loc ps = map (\<lambda>p. FindScanCentersInPincode p (name c) loc) ps"

lemma answers_simps [simp]:
  "answers [] = []" "answers (r # rs) = CentersResolved 0 (Centers r) # answers rs"
  by (simp_all add: answers_def)

lemma requests_simps [simp]:
  "requests c loc [] = []"
  "requests c loc (p # ps) = FindScanCentersInPincode p (name c) loc # requests c loc ps"
  by (simp_all add: requests_def)

lemma length_scan_updates [simp]: "length (scan_updates c acc i rs) = length rs"
  by (induction rs arbitrary: acc i) simp_all

section \<open>One answer\<close>

lemma fire_answer:
  assumes "tasks t = [ContinueTask c loc acc i]"
  shows "fire loc' (CentersResolved 0 (Centers r)) t =
     Some (scanLoop c loc (acc @ r) (Suc i)
        (onUpdate (c\<lparr>status := SCANNING_CENTERS, centers := acc @ r,
                     scannedPincodesCount := Suc i\<rparr>) (t\<lparr>tasks := []\<rparr>)))"
  using assms by (simp add: takeTask_def continueProcess_resolved_def)

lemma scanLoop_next:
  assumes "i < length (pincodes c)" and "isRunning t"
  shows "scanLoop c loc acc i t =
     t\<lparr>tasks := tasks t @ [ContinueTask c loc acc i],
        calls := calls t @ [FindScanCentersInPincode (pincodes c ! i) (name c) loc]\<rparr>"
  using assms by (simp add: scanLoop_def await_def)

lemma scanLoop_stopped:
  assumes "i < length (pincodes c)" and "\<not> isRunning t"
  shows "scanLoop c loc acc i t =
     onUpdate (c\<lparr>status := STOPPED, centers := acc, scannedPincodesCount := i\<rparr>) t"
  using assms by (simp add: scanLoop_def)

lemma scanLoop_done:
  assumes "length (pincodes c) \<le> i"
  shows "scanLoop c loc acc i t =
     (onUpdate (c\<lparr>status := COMPLETED, centers := acc\<rparr>) t)\<lparr>isExpanded := True, isRunning := False\<rparr>"
  using assms by (simp add: scanLoop_def)

section \<open>The loop, answer by answer\<close>

definition scanned ::
    "CityProcess \<Rightarrow> LocationCoords option \<Rightarrow> ScanCenter list \<Rightarrow> nat \<Rightarrow>
     ScanCenter list list \<Rightarrow> Tile \<Rightarrow> Tile" where
  "scanned c loc acc i rs t =
     t\<lparr>city := c\<lparr>status := COMPLETED, centers := acc @ concat rs\<rparr>,
       isExpanded := True, isRunning := False, tasks := [],
       emitted := emitted t @ scan_updates c acc i rs
                    @ [c\<lparr>status := COMPLETED, centers := acc @ concat rs\<rparr>],
       calls := calls t @ requests c loc (drop (Suc i) (pincodes c))\<rparr>"

lemma scan_from:
  assumes "tasks t = [ContinueTask c loc acc i]" and "isRunning t"
    and "i < length (pincodes c)" and "length rs = length (pincodes c) - i"
  shows "run loc' (answers rs) t = Some (scanned c loc acc i rs t)"
  using assms
proof (induction rs arbitrary: t acc i)
  case Nil
  then show ?case by simp
next
  case (Cons r rs)
  let ?u = "c\<lparr>status := SCANNING_CENTERS, centers := acc @ r, scannedPincodesCount := Suc i\<rparr>"
  let ?t1 = "onUpdate ?u (t\<lparr>tasks := []\<rparr>)"
  let ?t2 = "scanLoop c loc (acc @ r) (Suc i) ?t1"
  have "fire loc' (CentersResolved 0 (Centers r)) t = Some ?t2"
    by (rule fire_answer [OF Cons.prems(1)])
  then have step: "run loc' (answers (r # rs)) t = run loc' (answers rs) ?t2"
    by (simp only: answers_simps run.simps option.case)
  show ?case
  proof (cases "Suc i < length (pincodes c)")
    case True
    from True Cons.prems(2) have t2: "?t2 =
        ?t1\<lparr>tasks := tasks ?t1 @ [ContinueTask c loc (acc @ r) (Suc i)],
            calls := calls ?t1 @ [FindScanCentersInPincode (pincodes c ! Suc i) (name c) loc]\<rparr>"
      by (intro scanLoop_next) simp_all
    have "run loc' (answers rs) ?t2 = Some (scanned c loc (acc @ r) (Suc i) rs ?t2)"
      using True Cons.prems by (intro Cons.IH) (simp_all add: t2)
    moreover from True
    have d: "drop (Suc i) (pincodes c) = pincodes c ! Suc i # drop (Suc (Suc i)) (pincodes c)"
      by (simp add: Cons_nth_drop_Suc)
    have "scanned c loc (acc @ r) (Suc i) rs ?t2 = scanned c loc acc i (r # rs) t"
      unfolding t2 using d by (simp add: scanned_def onUpdate_def)
    ultimately show ?thesis by (simp only: step)
  next
    case False
    have "Suc (length rs) = length (pincodes c) - i"
      using Cons.prems(4) by simp
    with False Cons.prems(3) have "length rs = 0" by arith
    then have rs: "rs = []" by simp
    from False have "?t2 =
        (onUpdate (c\<lparr>status := COMPLETED, centers := acc @ r\<rparr>) ?t1)\<lparr>isExpanded := True, isRunning := False\<rparr>"
      by (intro scanLoop_done) simp
    moreover have "(onUpdate (c\<lparr>status := COMPLETED, centers := acc @ r\<rparr>) ?t1)\<lparr>isExpanded := True, isRunning := False\<rparr>
        = scanned c loc acc i (r # rs) t"
      using False by (simp add: scanned_def rs onUpdate_def)
    ultimately have "?t2 = scanned c loc acc i (r # rs) t" by (rule trans)
    moreover have "run loc' (answers rs) ?t2 = Some ?t2" by (simp add: rs)
    ultimately show ?thesis by (simp only: step)
  qed
qed

section \<open>The clicks that begin and interrupt a phase\<close>

lemma fire_start:
  assumes "status (city t) = IDLE"
  shows "fire loc ClickStart t =
     Some (t\<lparr>isRunning := True,
             city := (city t)\<lparr>status := SCANNING_PINCODES, errorMessage := None, centers := [],
                              scannedPincodesCount := 0\<rparr>,
             emitted := emitted t @ [(city t)\<lparr>status := SCANNING_PINCODES, errorMessage := None,
                              centers := [], scannedPincodesCount := 0\<rparr>],
             tasks := tasks t @ [StartTask (city t)],
             calls := calls t @ [FindPincodesForCity (name (city t))]\<rparr>)"
  using assms by (simp add: showStart_def startProcess_def await_def onUpdate_def)

lemma fire_stop:
  assumes "isProcessing (city t)"
  shows "fire loc ClickStop t =
     Some (t\<lparr>isRunning := False, city := (city t)\<lparr>status := STOPPED\<rparr>,
             emitted := emitted t @ [(city t)\<lparr>status := STOPPED\<rparr>]\<rparr>)"
  using assms by (simp add: showStop_def stopProcess_def onUpdate_def)

lemma fire_proceed:
  assumes "status (city t) = AWAITING_CONFIRMATION"
  shows "fire loc ClickProceed t =
     Some (scanLoop (city t) loc [] 0
        (t\<lparr>isRunning := True, city := (city t)\<lparr>status := SCANNING_CENTERS\<rparr>,
           emitted := emitted t @ [(city t)\<lparr>status := SCANNING_CENTERS\<rparr>]\<rparr>))"
  using assms by (simp add: showConfirm_def continueProcess_def onUpdate_def)

lemma fire_pincodes:
  assumes "tasks t = [StartTask c]"
  shows "fire loc (PincodesResolved 0 pins) t = Some (startProcess_resolved c pins (t\<lparr>tasks := []\<rparr>))"
    and "fire loc (PincodesRejected 0 err) t = Some (startProcess_rejected c err (t\<lparr>tasks := []\<rparr>))"
  using assms by (simp_all add: takeTask_def)

section \<open>A scan that is not interrupted\<close>

lemma full_scan_run:
  assumes "tasks t = []" and "status (city t) = AWAITING_CONFIRMATION"
    and "length rs = length (pincodes (city t))"
  shows "run loc (ClickProceed # answers rs) t =
     Some (t\<lparr>city := (city t)\<lparr>status := COMPLETED, centers := concat rs\<rparr>,
             isExpanded := True, isRunning := False, tasks := [],
             emitted := emitted t @ (city t)\<lparr>status := SCANNING_CENTERS\<rparr>
                          # scan_updates (city t) [] 0 rs
                          @ [(city t)\<lparr>status := COMPLETED, centers := concat rs\<rparr>],
             calls := calls t @ requests (city t) loc (pincodes (city t))\<rparr>)"
proof -
  let ?c = "city t"
  let ?t1 = "t\<lparr>isRunning := True, city := ?c\<lparr>status := SCANNING_CENTERS\<rparr>,
               emitted := emitted t @ [?c\<lparr>status := SCANNING_CENTERS\<rparr>]\<rparr>"
  have step: "run loc (ClickProceed # answers rs) t = run loc (answers rs) (scanLoop ?c loc [] 0 ?t1)"
    by (simp only: run.simps fire_proceed [OF assms(2)] option.case)
  show ?thesis
  proof (cases "pincodes ?c")
    case Nil
    with assms(3) have rs: "rs = []" by simp
    have "scanLoop ?c loc [] 0 ?t1 =
        t\<lparr>city := ?c\<lparr>status := COMPLETED, centers := concat rs\<rparr>,
          isExpanded := True, isRunning := False, tasks := [],
          emitted := emitted t @ ?c\<lparr>status := SCANNING_CENTERS\<rparr> # scan_updates ?c [] 0 rs
                       @ [?c\<lparr>status := COMPLETED, centers := concat rs\<rparr>],
          calls := calls t @ requests ?c loc (pincodes ?c)\<rparr>"
      using Nil assms(1) by (intro Tile.equality) (simp_all add: scanLoop_def rs)
    then show ?thesis
      unfolding step by (simp add: rs)
  next
    case (Cons p ps)
    let ?t2 = "?t1\<lparr>tasks := tasks ?t1 @ [ContinueTask ?c loc [] 0],
                   calls := calls ?t1 @ [FindScanCentersInPincode (pincodes ?c ! 0) (name ?c) loc]\<rparr>"
    from Cons have t2: "scanLoop ?c loc [] 0 ?t1 = ?t2"
      by (intro scanLoop_next) simp_all
    have "run loc (answers rs) ?t2 = Some (scanned ?c loc [] 0 rs ?t2)"
      using assms Cons by (intro scan_from) simp_all
    then show ?thesis
      unfolding step t2 using Cons by (simp add: scanned_def)
  qed
qed

section \<open>Stopping while an answer is in flight\<close>

lemma stop_then_answer_run:
  assumes "tasks t = [ContinueTask c l acc i]" and "isProcessing (city t)"
  shows "run loc [ClickStop, CentersResolved 0 (Centers r)] t =
     Some (scanLoop c l (acc @ r) (Suc i)
       (t\<lparr>isRunning := False, tasks := [],
          city := c\<lparr>status := SCANNING_CENTERS, centers := acc @ r, scannedPincodesCount := Suc i\<rparr>,
          emitted := emitted t @ [(city t)\<lparr>status := STOPPED\<rparr>,
             c\<lparr>status := SCANNING_CENTERS, centers := acc @ r, scannedPincodesCount := Suc i\<rparr>]\<rparr>))"
proof -
  let ?t1 = "t\<lparr>isRunning := False, city := (city t)\<lparr>status := STOPPED\<rparr>,
               emitted := emitted t @ [(city t)\<lparr>status := STOPPED\<rparr>]\<rparr>"
  have "tasks ?t1 = [ContinueTask c l acc i]" using assms(1) by simp
  from fire_answer [OF this, of loc r]
  show ?thesis
    by (simp only: run.simps fire_stop [OF assms(2)] option.case) (simp add: onUpdate_def)
qed

section \<open>The postal-code phase\<close>

lemma start_run:
  assumes "tasks t = []" and "status (city t) = IDLE"
  shows "run loc [ClickStart, PincodesResolved 0 pins] t =
           Some (startProcess_resolved (city t) pins ((startProcess (city t) t)\<lparr>tasks := []\<rparr>))"
    and "run loc [ClickStart, PincodesRejected 0 err] t =
           Some (startProcess_rejected (city t) err ((startProcess (city t) t)\<lparr>tasks := []\<rparr>))"
    and "run loc [ClickStart, ClickStop, PincodesResolved 0 pins] t =
           Some (startProcess_resolved (city t) pins
                   ((stopProcess (city (startProcess (city t) t)) (startProcess (city t) t))\<lparr>tasks := []\<rparr>))"
    and "run loc [ClickStart, ClickStop, PincodesRejected 0 err] t =
           Some (startProcess_rejected (city t) err
                   ((stopProcess (city (startProcess (city t) t)) (startProcess (city t) t))\<lparr>tasks := []\<rparr>))"
  using assms
  by (simp_all add: showStart_def showStop_def isProcessing_def takeTask_def
      startProcess_def stopProcess_def)

section \<open>Tiles of the worked run\<close>

definition demo_awaiting :: Tile where
  "demo_awaiting =
     the (run None [ClickStart, PincodesResolved 0 delhi_pins] (mountTile (newProcess delhi)))"

definition demo_scanning :: Tile where
  "demo_scanning =
     the (run None [ClickProceed, CentersResolved 0 (Centers [centerA])] demo_awaiting)"

definition demo_last :: Tile where
  "demo_last = the (run None [CentersResolved 0 (Centers [])] demo_scanning)"

lemma demo_awaiting_run:
  "run None [ClickStart, PincodesResolved 0 delhi_pins] (mountTile (newProcess delhi))
     = Some demo_awaiting"
  by (simp add: demo_awaiting_def eval_defs)

lemma demo_scanning_run:
  "run None [ClickProceed, CentersResolved 0 (Centers [centerA])] demo_awaiting
     = Some demo_scanning"
  by (simp add: demo_scanning_def demo_awaiting_def eval_defs)

lemma demo_last_run:
  "run None [CentersResolved 0 (Centers [])] demo_scanning = Some demo_last"
  by (simp add: demo_last_def demo_scanning_def demo_awaiting_def eval_defs)

lemma demo_scanning_reachable: "reachable delhi demo_scanning"
  by (rule reachable_run [OF reachable_run [OF reachable.mounted demo_awaiting_run]
        demo_scanning_run])

lemma demo_awaiting_fields:
  "city demo_awaiting = awaiting_delhi" "tasks demo_awaiting = []" "isRunning demo_awaiting"
  "calls demo_awaiting = [FindPincodesForCity ''Delhi'']"
  by (simp_all add: demo_awaiting_def eval_defs delhi_def)

lemma demo_scanning_fields:
  "city demo_scanning =
     awaiting_delhi\<lparr>status := SCANNING_CENTERS, centers := [centerA], scannedPincodesCount := 1\<rparr>"
  "tasks demo_scanning = [ContinueTask awaiting_delhi None [centerA] 1]"
  "isRunning demo_scanning"
  by (simp_all add: demo_scanning_def demo_awaiting_def eval_defs)

lemma demo_last_fields:
  "city demo_last =
     awaiting_delhi\<lparr>status := SCANNING_CENTERS, centers := [centerA], scannedPincodesCount := 2\<rparr>"
  "tasks demo_last = [ContinueTask awaiting_delhi None [centerA] 2]"
  by (simp_all add: demo_last_def demo_scanning_def demo_awaiting_def eval_defs)

section \<open>What a phase of the process does\<close>

text \<open>
  Claim C2. A confirmed scan that is not interrupted completes: after the
  click on Proceed and one answer per postal code, the city is \<^verbatim>\<open>COMPLETED\<close>
  with the centers of all answers in the order of the postal codes, one request
  was sent per postal code in that order, one progress update was emitted per
  answer, no call is pending and the result list is expanded. An answer
  without centers (which is also what a failed lookup yields) contributes
  nothing and stops nothing.
\<close>

theorem full_scan_completes:
  assumes "tasks t = []" and "status (city t) = AWAITING_CONFIRMATION"
    and "length rs = length (pincodes (city t))"
  shows "\<exists>t'. run loc (ClickProceed # answers rs) t = Some t' \<and>
           city t' = (city t)\<lparr>status := COMPLETED, centers := concat rs\<rparr> \<and>
           emitted t' = emitted t @ (city t)\<lparr>status := SCANNING_CENTERS\<rparr>
                          # scan_updates (city t) [] 0 rs
                          @ [(city t)\<lparr>status := COMPLETED, centers := concat rs\<rparr>] \<and>
           calls t' = calls t @ requests (city t) loc (pincodes (city t)) \<and>
           tasks t' = [] \<and> \<not> isRunning t' \<and> isExpanded t'"
  unfolding full_scan_run [OF assms] by simp

theorem full_scan_completes_witness:
  "tasks demo_awaiting = [] \<and> status (city demo_awaiting) = AWAITING_CONFIRMATION \<and>
   length [[centerA], [], [centerB]] = length (pincodes (city demo_awaiting)) \<and>
   (\<exists>t'. run None (ClickProceed # answers [[centerA], [], [centerB]]) demo_awaiting = Some t' \<and>
      status (city t') = COMPLETED \<and> centers (city t') = [centerA, centerB] \<and>
      length (emitted t') = length (emitted demo_awaiting) + 5 \<and>
      calls t' = [FindPincodesForCity ''Delhi''] @ requests awaiting_delhi None delhi_pins \<and>
      tasks t' = [] \<and> \<not> isRunning t' \<and> isExpanded t')"
proof -
  have h: "tasks demo_awaiting = []" "status (city demo_awaiting) = AWAITING_CONFIRMATION"
    "length [[centerA], [], [centerB]] = length (pincodes (city demo_awaiting))"
    by (simp_all add: demo_awaiting_fields eval_defs)
  from full_scan_completes [OF h, of None] obtain t' where
    "run None (ClickProceed # answers [[centerA], [], [centerB]]) demo_awaiting = Some t'"
    "city t' = (city demo_awaiting)\<lparr>status := COMPLETED, centers := concat [[centerA], [], [centerB]]\<rparr>"
    "emitted t' = emitted demo_awaiting @ (city demo_awaiting)\<lparr>status := SCANNING_CENTERS\<rparr>
        # scan_updates (city demo_awaiting) [] 0 [[centerA], [], [centerB]]
        @ [(city demo_awaiting)\<lparr>status := COMPLETED, centers := concat [[centerA], [], [centerB]]\<rparr>]"
    "calls t' = calls demo_awaiting @ requests (city demo_awaiting) None (pincodes (city demo_awaiting))"
    "tasks t' = []" "\<not> isRunning t'" "isExpanded t'"
    by blast
  with h show ?thesis
    by (intro conjI exI [of _ t']) (simp_all add: demo_awaiting_fields eval_defs)
qed

text \<open>
  Claim C3. Stopping a scan keeps every center found so far: when Stop is
  clicked while the lookup of a postal code other than the last is in flight,
  the answer of that lookup is still appended, the city then is \<^verbatim>\<open>STOPPED\<close> with
  the centers accumulated before the click followed by those of the answer, the
  scanned counter counts the answered lookups, and no further request is sent.
\<close>

theorem stop_preserves_centers:
  assumes "tasks t = [ContinueTask c l acc i]" and "isProcessing (city t)"
    and "Suc i < length (pincodes c)"
  shows "\<exists>t'. run loc [ClickStop, CentersResolved 0 (Centers r)] t = Some t' \<and>
           city t' = c\<lparr>status := STOPPED, centers := acc @ r, scannedPincodesCount := Suc i\<rparr> \<and>
           tasks t' = [] \<and> \<not> isRunning t' \<and> calls t' = calls t"
  unfolding stop_then_answer_run [OF assms(1,2)] using assms(3)
  by (simp add: scanLoop_stopped)

theorem stop_preserves_centers_witness:
  "tasks demo_scanning = [ContinueTask awaiting_delhi None [centerA] 1] \<and>
   isProcessing (city demo_scanning) \<and> Suc 1 < length (pincodes awaiting_delhi) \<and>
   (\<exists>t'. run None [ClickStop, CentersResolved 0 (Centers [centerB])] demo_scanning = Some t' \<and>
      city t' = awaiting_delhi\<lparr>status := STOPPED, centers := [centerA] @ [centerB],
                                 scannedPincodesCount := Suc 1\<rparr> \<and>
      tasks t' = [] \<and> \<not> isRunning t' \<and> calls t' = calls demo_scanning)"
proof -
  have h: "tasks demo_scanning = [ContinueTask awaiting_delhi None [centerA] 1]"
    "isProcessing (city demo_scanning)" "Suc 1 < length (pincodes awaiting_delhi)"
    by (simp_all add: demo_scanning_fields eval_defs)
  from stop_preserves_centers [OF h, of None "[centerB]"] h show ?thesis by simp
qed

text \<open>
  Claim C32. Stop clicked while the lookup of the last postal code is in flight
  does not stop the scan: the cancellation flag is read only at the head of the
  loop, so when the answer arrives the city becomes \<^verbatim>\<open>COMPLETED\<close> although the
  user saw it \<^verbatim>\<open>STOPPED\<close> in between.
\<close>

theorem stop_on_last_completes:
  assumes "tasks t = [ContinueTask c l acc i]" and "isProcessing (city t)"
    and "Suc i = length (pincodes c)"
  shows "\<exists>t'. run loc [ClickStop, CentersResolved 0 (Centers r)] t = Some t' \<and>
           city t' = c\<lparr>status := COMPLETED, centers := acc @ r\<rparr> \<and>
           take 2 (drop (length (emitted t)) (map status (emitted t'))) = [STOPPED, SCANNING_CENTERS] \<and>
           tasks t' = [] \<and> isExpanded t'"
  unfolding stop_then_answer_run [OF assms(1,2)] using assms(3)
  by (simp add: scanLoop_done)

theorem stop_on_last_completes_witness:
  "tasks demo_last = [ContinueTask awaiting_delhi None [centerA] 2] \<and>
   isProcessing (city demo_last) \<and> Suc 2 = length (pincodes awaiting_delhi) \<and>
   (\<exists>t'. run None [ClickStop, CentersResolved 0 (Centers [centerB])] demo_last = Some t' \<and>
      city t' = awaiting_delhi\<lparr>status := COMPLETED, centers := [centerA] @ [centerB]\<rparr> \<and>
      take 2 (drop (length (emitted demo_last)) (map status (emitted t')))
        = [STOPPED, SCANNING_CENTERS] \<and>
      tasks t' = [] \<and> isExpanded t')"
proof -
  have h: "tasks demo_last = [ContinueTask awaiting_delhi None [centerA] 2]"
    "isProcessing (city demo_last)" "Suc 2 = length (pincodes awaiting_delhi)"
    by (simp_all add: demo_last_fields eval_defs)
  from stop_on_last_completes [OF h, of None "[centerB]"] h show ?thesis by simp
qed

text \<open>
  Claim C4. When the service answers a started city with an empty list of
  postal codes, the city becomes \<^verbatim>\<open>ERROR\<close> with exactly the message
  \<^verbatim>\<open>No pincodes found for this city.\<close>; with a non-empty list it becomes
  \<^verbatim>\<open>AWAITING_CONFIRMATION\<close>, stores the list as it arrived and sets the found
  counter to its length. In both cases nothing is pending afterwards.
\<close>

theorem pincodes_answer:
  assumes "tasks t = []" and "status (city t) = IDLE"
  shows "\<exists>t'. run loc [ClickStart, PincodesResolved 0 pins] t = Some t' \<and>
           city t' =
             (if pins = [] then
                (city t)\<lparr>status := ERROR,
                          errorMessage := Some ''No pincodes found for this city.''\<rparr>
              else
                (city t)\<lparr>status := AWAITING_CONFIRMATION, pincodes := pins,
                          foundPincodesCount := length pins\<rparr>) \<and>
           tasks t' = [] \<and> calls t' = calls t @ [FindPincodesForCity (name (city t))]"
  unfolding start_run [OF assms]
  by (simp add: startProcess_resolved_def startProcess_def)

theorem pincodes_answer_witness:
  "tasks (mountTile (newProcess delhi)) = [] \<and> status (city (mountTile (newProcess delhi))) = IDLE \<and>
   (\<exists>t'. run None [ClickStart, PincodesResolved 0 []] (mountTile (newProcess delhi)) = Some t' \<and>
      status (city t') = ERROR \<and>
      errorMessage (city t') = Some ''No pincodes found for this city.'' \<and> tasks t' = []) \<and>
   (\<exists>t'. run None [ClickStart, PincodesResolved 0 delhi_pins] (mountTile (newProcess delhi)) = Some t' \<and>
      city t' = awaiting_delhi \<and> tasks t' = [])"
proof -
  have h: "tasks (mountTile (newProcess delhi)) = []"
    "status (city (mountTile (newProcess delhi))) = IDLE"
    by simp_all
  from pincodes_answer [OF h, of None "[]"] pincodes_answer [OF h, of None delhi_pins] h
  show ?thesis by (auto simp: eval_defs)
qed

text \<open>
  Claim C31. When the lookup of postal codes fails, the city becomes \<^verbatim>\<open>ERROR\<close>
  with the message of the thrown error, or with \<^verbatim>\<open>Failed to get pincodes\<close> when
  what was thrown is no error object; this holds also when Stop was clicked
  while the lookup was in flight, because the handler of the failure does not
  read the cancellation flag.
\<close>

theorem pincodes_failure:
  assumes "tasks t = []" and "status (city t) = IDLE"
    and "es = [ClickStart, PincodesRejected 0 err] \<or>
         es = [ClickStart, ClickStop, PincodesRejected 0 err]"
  shows "\<exists>t'. run loc es t = Some t' \<and>
           city t' = (city t)\<lparr>status := ERROR,
                       errorMessage := Some (case err of ErrorObj message \<Rightarrow> message
                                              | NonError \<Rightarrow> ''Failed to get pincodes'')\<rparr> \<and>
           tasks t' = []"
  using assms(3)
proof
  assume es: "es = [ClickStart, PincodesRejected 0 err]"
  show ?thesis
    unfolding es start_run [OF assms(1,2)] by (simp add: startProcess_rejected_def)
next
  assume es: "es = [ClickStart, ClickStop, PincodesRejected 0 err]"
  show ?thesis
    unfolding es start_run [OF assms(1,2)] by (simp add: startProcess_rejected_def)
qed

theorem pincodes_failure_witness:
  "tasks (mountTile (newProcess delhi)) = [] \<and> status (city (mountTile (newProcess delhi))) = IDLE \<and>
   (\<exists>t'. run None [ClickStart, ClickStop,
                    PincodesRejected 0 (ErrorObj ''Failed to fetch pincodes from Gemini API.'')]
            (mountTile (newProcess delhi)) = Some t' \<and>
      status (city t') = ERROR \<and>
      errorMessage (city t') = Some ''Failed to fetch pincodes from Gemini API.'' \<and>
      tasks t' = [])"
proof -
  have h: "tasks (mountTile (newProcess delhi)) = []"
    "status (city (mountTile (newProcess delhi))) = IDLE"
    by simp_all
  let ?err = "ErrorObj ''Failed to fetch pincodes from Gemini API.''"
  let ?es = "[ClickStart, ClickStop, PincodesRejected 0 ?err]"
  have e: "?es = [ClickStart, PincodesRejected 0 ?err] \<or>
           ?es = [ClickStart, ClickStop, PincodesRejected 0 ?err]"
    by simp
  from pincodes_failure [OF h e, of None] obtain t' where
    "run None ?es (mountTile (newProcess delhi)) = Some t'"
    "city t' = (city (mountTile (newProcess delhi)))\<lparr>status := ERROR,
        errorMessage := Some (case ?err of ErrorObj message \<Rightarrow> message
                              | NonError \<Rightarrow> ''Failed to get pincodes'')\<rparr>"
    "tasks t' = []"
    by blast
  with h show ?thesis
    by (intro conjI exI [of _ t']) simp_all
qed

text \<open>
  Stop clicked while the postal codes are looked up takes effect:
  when the answer arrives the list is discarded and the city stays \<^verbatim>\<open>STOPPED\<close>,
  as a copy of the city as it was before the start.
\<close>

theorem stop_discards_pincodes:
  assumes "tasks t = []" and "status (city t) = IDLE"
  shows "\<exists>t'. run loc [ClickStart, ClickStop, PincodesResolved 0 pins] t = Some t' \<and>
           city t' = (city t)\<lparr>status := STOPPED\<rparr> \<and> tasks t' = [] \<and> \<not> isRunning t'"
  unfolding start_run [OF assms]
  by (simp add: startProcess_resolved_def stopProcess_def)

theorem stop_discards_pincodes_witness:
  "tasks (mountTile (newProcess delhi)) = [] \<and> status (city (mountTile (newProcess delhi))) = IDLE \<and>
   (\<exists>t'. run None [ClickStart, ClickStop, PincodesResolved 0 delhi_pins]
            (mountTile (newProcess delhi)) = Some t' \<and>
      city t' = (newProcess delhi)\<lparr>status := STOPPED\<rparr> \<and> tasks t' = [] \<and> \<not> isRunning t')"
proof -
  have h: "tasks (mountTile (newProcess delhi)) = []"
    "status (city (mountTile (newProcess delhi))) = IDLE"
    by simp_all
  from stop_discards_pincodes [OF h, of None delhi_pins] h show ?thesis by simp
qed

section \<open>Work that is pending\<close>

text \<open>
  The number of answers a pending call can still consume: one for the lookup
  of postal codes, and for the scan loop the number of postal codes from the
  one in flight onwards.
\<close>

fun task_work :: "task \<Rightarrow> nat" where
  "task_work (StartTask c) = 1"
| "task_work (ContinueTask c l acc i) = length (pincodes c) - i"

definition work :: "Tile \<Rightarrow> nat" where
  "work t = sum_list (map task_work (tasks t))"

fun settles :: "event \<Rightarrow> bool" where
  "settles (PincodesResolved k pins) = True"
| "settles (PincodesRejected k err) = True"
| "settles (CentersResolved k res) = True"
| "settles e = False"

lemma work_takeTask:
  assumes "takeTask k t = Some (tk, t1)"
  shows "work t1 + task_work tk = work t"
  using assms sum_list_remove_nth [of k "tasks t" task_work]
  by (simp add: takeTask_Some work_def)

lemma work_onUpdate [simp]: "work (onUpdate u t) = work t"
  by (simp add: work_def)

lemma work_scanLoop:
  "work (scanLoop c l acc i t) =
     (if i < length (pincodes c) \<and> isRunning t then work t + (length (pincodes c) - i) else work t)"
  by (simp add: work_def scanLoop_def)

lemma settle_decreases:
  assumes "tile_inv c0 t" and "settles e" and "fire loc e t = Some t'"
  shows "work t' < work t"
  using assms(3)
proof (cases rule: fire_task_cases)
  case click
  with assms(2) show ?thesis by auto
next
  case (resolved k pins c t1)
  with work_takeTask [OF resolved(2)] show ?thesis
    by (simp add: startProcess_resolved_def)
next
  case (rejected k err c t1)
  with work_takeTask [OF rejected(2)] show ?thesis
    by (simp add: startProcess_rejected_def)
next
  case (centers k res c l acc i t1)
  from tile_inv_takeTask(2) [OF assms(1) centers(2)] have i: "i < length (pincodes c)"
    by simp
  with centers(3) work_takeTask [OF centers(2)] show ?thesis
    by (cases res) (auto simp: continueProcess_resolved_def work_scanLoop)
qed

text \<open>
  Claim C21. The asynchronous pipeline of a tile cannot run on its own for
  ever: every answer of the service strictly decreases the pending work, so
  from any reachable tile at most \<open>work t\<close> answers are consumed until a click
  is needed, whatever the answers are.
\<close>

theorem answers_terminate:
  assumes "reachable c0 t" and "list_all settles es" and "run loc es t = Some t'"
  shows "length es + work t' \<le> work t"
  using assms
proof (induction es arbitrary: t)
  case Nil
  then show ?case by simp
next
  case (Cons e es)
  from Cons.prems(3) obtain u where u: "fire loc e t = Some u" and r: "run loc es u = Some t'"
    by (auto split: option.splits)
  from Cons.prems(1) u have ru: "reachable c0 u" by (rule reachable.fired)
  from Cons.prems(2) have "settles e" and "list_all settles es" by simp_all
  with settle_decreases [OF reachable_tile_inv [OF Cons.prems(1)] _ u] Cons.IH [OF ru _ r]
  show ?case by simp
qed

theorem answers_terminate_witness:
  "reachable delhi demo_scanning \<and>
   list_all settles (answers [[], [centerB]]) \<and>
   (\<exists>t'. run None (answers [[], [centerB]]) demo_scanning = Some t' \<and>
      length (answers [[], [centerB]]) + work t' \<le> work demo_scanning \<and>
      work demo_scanning = 2 \<and> work t' = 0)"
proof -
  note r = demo_scanning_reachable
  have s: "list_all settles (answers [[], [centerB]])" by simp
  obtain t' where t': "run None (answers [[], [centerB]]) demo_scanning = Some t'"
    and w: "work t' = 0"
    by (simp add: demo_scanning_def demo_awaiting_def eval_defs work_def)
  have "work demo_scanning = 2"
    by (simp add: work_def demo_scanning_fields eval_defs)
  with answers_terminate [OF r s t'] r s t' w show ?thesis by simp
qed

text \<open>
  Claim C33. Reset does not cancel a lookup that is in flight. When Stop and
  then Reset are clicked during a scan, the city is fresh for a moment; the
  answer that arrives afterwards overwrites it: the city is \<^verbatim>\<open>STOPPED\<close> again,
  with the postal codes and centers of the abandoned scan.
\<close>

theorem reset_undone_by_pending_answer:
  assumes "tasks t = [ContinueTask c l acc i]" and "isProcessing (city t)"
    and "Suc i < length (pincodes c)"
  shows "\<exists>t1 t'. run loc [ClickStop, ClickReset] t = Some t1 \<and>
           status (city t1) = IDLE \<and> centers (city t1) = [] \<and> pincodes (city t1) = [] \<and>
           fire loc (CentersResolved 0 (Centers r)) t1 = Some t' \<and>
           city t' = c\<lparr>status := STOPPED, centers := acc @ r, scannedPincodesCount := Suc i\<rparr>"
proof -
  let ?t0 = "stopProcess (city t) t"
  let ?t1 = "resetProcess (city ?t0) ?t0"
  have 1: "run loc [ClickStop, ClickReset] t = Some ?t1"
    using assms(2) by (simp add: showStop_def showReset_def stopProcess_def)
  have tk: "tasks ?t1 = [ContinueTask c l acc i]" and nr: "\<not> isRunning ?t1"
    using assms(1) by (simp_all add: resetProcess_def stopProcess_def)
  let ?t2 = "onUpdate (c\<lparr>status := STOPPED, centers := acc @ r, scannedPincodesCount := Suc i\<rparr>)
        (onUpdate (c\<lparr>status := SCANNING_CENTERS, centers := acc @ r,
                     scannedPincodesCount := Suc i\<rparr>) (?t1\<lparr>tasks := []\<rparr>))"
  from fire_answer [OF tk, of loc r] assms(3) nr
  have 2: "fire loc (CentersResolved 0 (Centers r)) ?t1 = Some ?t2"
    by (simp add: scanLoop_stopped)
  show ?thesis
  proof (intro exI conjI)
    show "run loc [ClickStop, ClickReset] t = Some ?t1" by (rule 1)
    show "fire loc (CentersResolved 0 (Centers r)) ?t1 = Some ?t2" by (rule 2)
  qed (simp_all add: resetProcess_def)
qed

theorem reset_undone_by_pending_answer_witness:
  "tasks demo_scanning = [ContinueTask awaiting_delhi None [centerA] 1] \<and>
   isProcessing (city demo_scanning) \<and> Suc 1 < length (pincodes awaiting_delhi) \<and>
   (\<exists>t1 t'. run None [ClickStop, ClickReset] demo_scanning = Some t1 \<and>
      status (city t1) = IDLE \<and> centers (city t1) = [] \<and> pincodes (city t1) = [] \<and>
      fire None (CentersResolved 0 (Centers [centerB])) t1 = Some t' \<and>
      city t' = awaiting_delhi\<lparr>status := STOPPED, centers := [centerA] @ [centerB],
                                 scannedPincodesCount := Suc 1\<rparr>)"
proof -
  have h: "tasks demo_scanning = [ContinueTask awaiting_delhi None [centerA] 1]"
    "isProcessing (city demo_scanning)" "Suc 1 < length (pincodes awaiting_delhi)"
    by (simp_all add: demo_scanning_fields eval_defs)
  from reset_undone_by_pending_answer [OF h, of None "[centerB]"] h show ?thesis by simp
qed

text \<open>
  Claim C34. An answer that is not iterable ends the scan loop without any
  update: the spread throws, the city stays \<^verbatim>\<open>SCANNING_CENTERS\<close> with nothing
  pending, and the only controls left are Stop and the expansion toggle.
\<close>

theorem not_iterable_stalls:
  assumes "tasks t = [ContinueTask c l acc i]" and "status (city t) = SCANNING_CENTERS"
  shows "fire loc (CentersResolved 0 NotIterable) t = Some (t\<lparr>tasks := []\<rparr>) \<and>
         (\<forall>e. fire loc e (t\<lparr>tasks := []\<rparr>) \<noteq> None \<longrightarrow> e = ClickStop \<or> e = ClickToggle)"
proof
  show "fire loc (CentersResolved 0 NotIterable) t = Some (t\<lparr>tasks := []\<rparr>)"
    using assms(1) by (simp add: takeTask_def continueProcess_resolved_def)
  show "\<forall>e. fire loc e (t\<lparr>tasks := []\<rparr>) \<noteq> None \<longrightarrow> e = ClickStop \<or> e = ClickToggle"
  proof (intro allI impI)
    fix e assume "fire loc e (t\<lparr>tasks := []\<rparr>) \<noteq> None"
    with assms(2) show "e = ClickStop \<or> e = ClickToggle"
      by (cases e) (simp_all add: guard_defs takeTask_def)
  qed
qed

theorem not_iterable_stalls_witness:
  "tasks demo_scanning = [ContinueTask awaiting_delhi None [centerA] 1] \<and>
   status (city demo_scanning) = SCANNING_CENTERS \<and>
   fire None (CentersResolved 0 NotIterable) demo_scanning = Some (demo_scanning\<lparr>tasks := []\<rparr>) \<and>
   fire None ClickReset (demo_scanning\<lparr>tasks := []\<rparr>) = None \<and>
   fire None ClickStop (demo_scanning\<lparr>tasks := []\<rparr>) \<noteq> None"
proof -
  have h: "tasks demo_scanning = [ContinueTask awaiting_delhi None [centerA] 1]"
    "status (city demo_scanning) = SCANNING_CENTERS"
    by (simp_all add: demo_scanning_fields)
  from not_iterable_stalls [OF h, of None] h show ?thesis
    by (auto simp: guard_defs demo_scanning_fields)
qed

end
