(* ===== verification/Discovery_Spec.thy ===== *)
theory Discovery_Spec
  imports CityTile_Inv
begin

text \<open>
  The state machine the specification prescribes for a city, and how far the
  tile implements it.

  \<open>table\<close> is the transition table of the specification as a relation on
  statuses, \<open>specTrigger\<close> its rows that a control of the user triggers. \<open>calm\<close> are the tiles reachable by schedules that never click Reset
  while a call is in flight; for them \<open>in_phase\<close> holds: at most one call is
  outstanding, and the status together with the cancellation flag tells which.
  The refinement theorem says that every step of a calm tile is a transition
  of the table or leaves the status alone, with two exceptions that it names;
  the last section shows that without the restriction on Reset the bound on
  outstanding calls fails.
\<close>

section \<open>The table of the specification\<close>

inductive table :: "ProcessStatus \<Rightarrow> ProcessStatus \<Rightarrow> bool" where
  start: "table IDLE SCANNING_PINCODES"
| codes: "table SCANNING_PINCODES AWAITING_CONFIRMATION"
| no_codes: "table SCANNING_PINCODES ERROR"
| cancel_pincodes: "table SCANNING_PINCODES STOPPED"
| reject: "table AWAITING_CONFIRMATION IDLE"
| confirm: "table AWAITING_CONFIRMATION SCANNING_CENTERS"
| progress: "table SCANNING_CENTERS SCANNING_CENTERS"
| cancel_centers: "table SCANNING_CENTERS STOPPED"
| finish: "table SCANNING_CENTERS COMPLETED"
| reset_completed: "table COMPLETED IDLE"
| reset_error: "table ERROR IDLE"
| reset_stopped: "table STOPPED IDLE"

code_pred table .

inductive_simps table_simps [simp]:
  "table IDLE s" "table SCANNING_PINCODES s" "table AWAITING_CONFIRMATION s"
  "table SCANNING_CENTERS s" "table COMPLETED s" "table STOPPED s" "table ERROR s"

text \<open>
  The rows of the table whose trigger is a control of the user, as a
  function: the status a control leads to, in the statuses in which the
  specification has it. The toggle of the result list is not a trigger of the
  table.
\<close>

fun specTrigger :: "event \<Rightarrow> ProcessStatus \<Rightarrow> ProcessStatus option" where
  "specTrigger ClickStart IDLE = Some SCANNING_PINCODES"
| "specTrigger ClickStop SCANNING_PINCODES = Some STOPPED"
| "specTrigger ClickStop SCANNING_CENTERS = Some STOPPED"
| "specTrigger ClickCancel AWAITING_CONFIRMATION = Some IDLE"
| "specTrigger ClickProceed AWAITING_CONFIRMATION = Some SCANNING_CENTERS"
| "specTrigger ClickReset COMPLETED = Some IDLE"
| "specTrigger ClickReset ERROR = Some IDLE"
| "specTrigger ClickReset STOPPED = Some IDLE"
| "specTrigger e s = None"

lemma specTrigger_table: "specTrigger e s = Some s' \<Longrightarrow> table s s'"
  by (cases "(e, s)" rule: specTrigger.cases) auto

section \<open>Schedules that reset only settled tiles\<close>

inductive calm :: "City \<Rightarrow> Tile \<Rightarrow> bool" for c0 where
  mounted: "calm c0 (mountTile (newProcess c0))"
| fired: "calm c0 t \<Longrightarrow> fire location e t = Some t' \<Longrightarrow> (e = ClickReset \<longrightarrow> tasks t = [])
    \<Longrightarrow> calm c0 t'"

definition in_phase :: "Tile \<Rightarrow> bool" where
  "in_phase t \<longleftrightarrow> (case tasks t of
       [] \<Rightarrow> True
     | [StartTask c] \<Rightarrow> status (city t) = (if isRunning t then SCANNING_PINCODES else STOPPED)
     | [ContinueTask c l acc i] \<Rightarrow> status (city t) = (if isRunning t then SCANNING_CENTERS else STOPPED)
     | _ \<Rightarrow> False)"

lemma calm_reachable: "calm c0 t \<Longrightarrow> reachable c0 t"
  by (induction rule: calm.induct) (auto intro: reachable.intros)

lemma in_phase_cases:
  assumes "in_phase t"
  obtains (settled) "tasks t = []"
  | (resolving) c where "tasks t = [StartTask c]"
      "status (city t) = (if isRunning t then SCANNING_PINCODES else STOPPED)"
  | (finding) c l acc i where "tasks t = [ContinueTask c l acc i]"
      "status (city t) = (if isRunning t then SCANNING_CENTERS else STOPPED)"
  using assms unfolding in_phase_def by (auto split: list.splits task.splits)

lemma in_phase_settled [simp]: "tasks t = [] \<Longrightarrow> in_phase t"
  by (simp add: in_phase_def)

lemma takeTask_single:
  "tasks t = [x] \<Longrightarrow> takeTask k t = (if k = 0 then Some (x, t\<lparr>tasks := []\<rparr>) else None)"
  by (simp add: takeTask_def)


section \<open>One step of a calm tile\<close>

definition deviation :: "event \<Rightarrow> ProcessStatus \<Rightarrow> ProcessStatus \<Rightarrow> bool" where
  "deviation e s s' \<longleftrightarrow> s = STOPPED \<and>
     (case e of CentersResolved k r \<Rightarrow> s' = COMPLETED | PincodesRejected k err \<Rightarrow> s' = ERROR
      | _ \<Rightarrow> False)"

definition quiet :: "event \<Rightarrow> bool" where
  "quiet e \<longleftrightarrow> (case e of ClickToggle \<Rightarrow> True | CentersResolved k NotIterable \<Rightarrow> True | _ \<Rightarrow> False)"

definition conforms :: "event \<Rightarrow> Tile \<Rightarrow> Tile \<Rightarrow> bool" where
  "conforms e t t' \<longleftrightarrow>
     (if quiet e then status (city t') = status (city t)
      else table (status (city t)) (status (city t'))
        \<or> (status (city t) = STOPPED
            \<and> (status (city t') = STOPPED \<or> deviation e (status (city t)) (status (city t')))))"

lemma click_step:
  assumes "in_phase t" and "snapshot_ok (city t)" and "fire loc e t = Some t'"
    and "e \<in> {ClickStart, ClickStop, ClickCancel, ClickProceed, ClickToggle}
       \<or> (e = ClickReset \<and> tasks t = [])"
  shows "in_phase t' \<and> conforms e t t'"
  using assms(1)
proof (cases rule: in_phase_cases)
  case settled
  with assms(2-4) show ?thesis
    by (auto simp: in_phase_def conforms_def quiet_def handler_defs guard_defs snapshot_ok_def
        split: if_splits)
next
  case (resolving c)
  with assms(2-4) show ?thesis
    by (auto simp: in_phase_def conforms_def quiet_def handler_defs guard_defs split: if_splits)
next
  case (finding c l acc i)
  with assms(2-4) show ?thesis
    by (auto simp: in_phase_def conforms_def quiet_def handler_defs guard_defs split: if_splits)
qed

lemma pincodes_step:
  assumes "in_phase t" and "fire loc e t = Some t'"
    and "e = PincodesResolved k pins \<or> e = PincodesRejected k err"
  shows "in_phase t' \<and> conforms e t t'"
  using assms(1)
proof (cases rule: in_phase_cases)
  case (resolving c)
  with assms(2,3) show ?thesis
    by (auto simp: conforms_def quiet_def deviation_def handler_defs takeTask_single split: if_splits)
qed (use assms(2,3) in \<open>auto simp: takeTask_def takeTask_single split: if_splits\<close>)

lemma centers_step:
  assumes "in_phase t" and "fire loc (CentersResolved k res) t = Some t'"
  shows "in_phase t' \<and> conforms (CentersResolved k res) t t'"
  using assms(1)
proof (cases rule: in_phase_cases)
  case (finding c l acc i)
  with assms(2) show ?thesis
    by (cases res)
      (auto simp: in_phase_def conforms_def quiet_def deviation_def handler_defs takeTask_single
        split: if_splits)
qed (use assms(2) in \<open>auto simp: takeTask_def takeTask_single split: if_splits\<close>)

lemma calm_step:
  assumes "in_phase t" and "snapshot_ok (city t)" and "fire loc e t = Some t'"
    and "e = ClickReset \<longrightarrow> tasks t = []"
  shows "in_phase t' \<and> conforms e t t'"
proof (cases e)
  case (PincodesResolved k pins)
  then show ?thesis using pincodes_step [OF assms(1,3)] by simp
next
  case (PincodesRejected k err)
  then show ?thesis using pincodes_step [OF assms(1,3)] by simp
next
  case (CentersResolved k res)
  then show ?thesis using centers_step [OF assms(1)] assms(3) by simp
qed (use click_step [OF assms(1-3)] assms(4) in simp_all)

lemma calm_in_phase: "calm c0 t \<Longrightarrow> in_phase t"
proof (induction rule: calm.induct)
  case (fired t location e t')
  then show ?case
    using calm_step [of t location e t'] tile_inv_snapshot [OF reachable_tile_inv [OF calm_reachable]]
    by blast
qed (simp add: mountTile_def)

lemma calm_run:
  "calm c0 t \<Longrightarrow> run loc es t = Some t' \<Longrightarrow> ClickReset \<notin> set es \<Longrightarrow> calm c0 t'"
proof (induction es arbitrary: t)
  case (Cons e es)
  then obtain t1 where "fire loc e t = Some t1" and "run loc es t1 = Some t'"
    by (auto split: option.splits)
  with Cons show ?case by (auto intro: calm.fired)
qed simp

lemma demo_calm: "calm delhi demo_tile"
  by (rule calm_run [OF calm.mounted demo_run]) (simp add: demo_events_def)

section \<open>Refinement of the table\<close>

text \<open>
  Claim C5. Every step of a tile that is reset only when no call is in
  flight follows the transition table of the specification: an event other
  than the expansion toggle and a non-iterable answer takes a transition of
  the table, unless the tile had been stopped, where an answer that was in
  flight leaves it stopped or, in two cases, moves it on: the answer for the
  last postal code completes the scan, and a rejected lookup gives an error.
\<close>
theorem follows_table:
  assumes "calm c0 t" and "fire loc e t = Some t'" and "e = ClickReset \<longrightarrow> tasks t = []"
  shows "conforms e t t'"
  using calm_step [OF calm_in_phase [OF assms(1)] _ assms(2,3)]
    tile_inv_snapshot [OF reachable_tile_inv [OF calm_reachable [OF assms(1)]]]
  by simp

theorem follows_table_witness:
  "fire None ClickReset demo_tile = Some (resetProcess (city demo_tile) demo_tile)
   \<and> table (status (city demo_tile)) (status (city (resetProcess (city demo_tile) demo_tile)))"
proof -
  have f: "fire None ClickReset demo_tile = Some (resetProcess (city demo_tile) demo_tile)"
    by (simp add: demo_city guard_defs)
  have "tasks demo_tile = []" by (simp add: demo_rest)
  with follows_table [OF demo_calm f] f show ?thesis
    by (simp add: conforms_def quiet_def deviation_def demo_city)
qed

text \<open>
  Claim C22. A tile that is reset only when no call is in flight has at most
  one call outstanding, and while one is outstanding the tile is scanning or
  stopped. Without that restriction the bound fails: Start, Stop, Reset and
  Start again leave two lookups in flight for the same city.
\<close>
theorem one_call_in_flight:
  assumes "calm c0 t"
  shows "length (tasks t) \<le> 1 \<and> (tasks t \<noteq> [] \<longrightarrow> isProcessing (city t) \<or> status (city t) = STOPPED)
       \<and> (\<exists>u. run loc [ClickStart, ClickStop, ClickReset, ClickStart] (mountTile (newProcess c0)) = Some u
             \<and> length (tasks u) = 2)"
proof -
  have "length (tasks t) \<le> 1 \<and> (tasks t \<noteq> [] \<longrightarrow> isProcessing (city t) \<or> status (city t) = STOPPED)"
    using calm_in_phase [OF assms]
    by (cases rule: in_phase_cases) (auto simp: isProcessing_def)
  moreover have "\<exists>u. run loc [ClickStart, ClickStop, ClickReset, ClickStart] (mountTile (newProcess c0)) = Some u
      \<and> length (tasks u) = 2"
    by (simp add: handler_defs guard_defs mountTile_def)
  ultimately show ?thesis by simp
qed

theorem one_call_in_flight_witness:
  "length (tasks demo_tile) \<le> 1
   \<and> length (tasks (the (run None [ClickStart, ClickStop, ClickReset, ClickStart]
        (mountTile (newProcess delhi))))) = 2"
  using one_call_in_flight [OF demo_calm, of None]
  by (simp add: handler_defs guard_defs mountTile_def)

end
