(* ===== verification/JS_String.thy ===== *)
theory JS_String
  imports Prelude "HOL-Library.Sublist"
begin

text \<open>
  The built-in operations of the language that the parsers of the program
  call, on strings of 8-bit characters: \<^verbatim>\<open>trim\<close>, \<^verbatim>\<open>split\<close>,
  \<^verbatim>\<open>toLowerCase\<close>, \<^verbatim>\<open>indexOf\<close>, \<^verbatim>\<open>parseInt\<close> with radix 10, the
  regular expressions the sources use (\<^verbatim>\<open>\s\<close>, \<^verbatim>\<open>\d{6}\<close>), and the
  insertion order of \<^verbatim>\<open>Set\<close>. They are modelled from the language standard,
  each with the facts the parsers rely on.
\<close>

section \<open>Characters\<close>

definition isSpace :: "char \<Rightarrow> bool" where
  "isSpace c \<longleftrightarrow> c \<in> set [CHR 0x09, CHR 0x0A, CHR 0x0B, CHR 0x0C, CHR 0x0D, CHR 0x20, CHR 0xA0]"

definition isDigit :: "char \<Rightarrow> bool" where
  "isDigit c \<longleftrightarrow> 48 \<le> (of_char c :: nat) \<and> (of_char c :: nat) \<le> 57"

definition digitVal :: "char \<Rightarrow> nat" where
  "digitVal c = of_char c - 48"

definition lowerChar :: "char \<Rightarrow> char" where
  "lowerChar c = (case map_of (zip ''ABCDEFGHIJKLMNOPQRSTUVWXYZ'' ''abcdefghijklmnopqrstuvwxyz'') c of
       Some l \<Rightarrow> l
     | None \<Rightarrow> (let n = (of_char c :: nat) in
         if 192 \<le> n \<and> n \<le> 222 \<and> n \<noteq> 215 then char_of (n + 32) else c))"

definition toLowerCase :: "string \<Rightarrow> string" where
  "toLowerCase s = map lowerChar s"

section \<open>Trimming and prefixes\<close>

definition trimStart :: "string \<Rightarrow> string" where
  "trimStart s = dropWhile isSpace s"

definition trimEnd :: "string \<Rightarrow> string" where
  "trimEnd s = rev (dropWhile isSpace (rev s))"

definition trim :: "string \<Rightarrow> string" where
  "trim s = trimEnd (trimStart s)"

definition startsWith :: "string \<Rightarrow> string \<Rightarrow> bool" where
  "startsWith s p \<longleftrightarrow> prefix p s"

definition endsWith :: "string \<Rightarrow> string \<Rightarrow> bool" where
  "endsWith s p \<longleftrightarrow> suffix p s"

section \<open>Splitting\<close>

fun splitOn :: "'a \<Rightarrow> 'a list \<Rightarrow> 'a list list" where
  "splitOn d [] = [[]]"
| "splitOn d (c # cs) = (if c = d then [] # splitOn d cs
     else (case splitOn d cs of [] \<Rightarrow> [[c]] | p # ps \<Rightarrow> (c # p) # ps))"

fun splitLines :: "string \<Rightarrow> string list" where
  "splitLines [] = [[]]"
| "splitLines (c # cs) = (if c = CHR 0x0A then [] # splitLines cs
     else if c = CHR 0x0D \<and> cs \<noteq> [] \<and> hd cs = CHR 0x0A then [] # splitLines (tl cs)
     else (case splitLines cs of [] \<Rightarrow> [[c]] | p # ps \<Rightarrow> (c # p) # ps))"

fun indexOf :: "'a list \<Rightarrow> 'a \<Rightarrow> nat option" where
  "indexOf [] x = None"
| "indexOf (y # ys) x = (if y = x then Some 0 else map_option Suc (indexOf ys x))"

definition elemAt :: "'a list \<Rightarrow> nat \<Rightarrow> 'a option" where
  "elemAt xs i = (if i < length xs then Some (xs ! i) else None)"

section \<open>Numbers\<close>

definition digitsVal :: "string \<Rightarrow> nat" where
  "digitsVal ds = foldl (\<lambda>n c. 10 * n + digitVal c) 0 ds"

definition parseInt :: "string \<Rightarrow> int option" where
  "parseInt s = (let t = trimStart s;
       neg = (t \<noteq> [] \<and> hd t = CHR ''-'');
       u = (if t \<noteq> [] \<and> (hd t = CHR ''-'' \<or> hd t = CHR ''+'') then tl t else t);
       ds = takeWhile isDigit u
     in if ds = [] then None else Some (if neg then - int (digitsVal ds) else int (digitsVal ds)))"

section \<open>Sets and matches\<close>

definition setAdd :: "'a list \<Rightarrow> 'a \<Rightarrow> 'a list" where
  "setAdd acc x = (if x \<in> set acc then acc else acc @ [x])"

definition dedupe :: "'a list \<Rightarrow> 'a list" where
  "dedupe xs = foldl setAdd [] xs"

definition isPincode :: "string \<Rightarrow> bool" where
  "isPincode p \<longleftrightarrow> length p = 6 \<and> list_all isDigit p"

fun matchPincodes :: "string \<Rightarrow> string list" where
  "matchPincodes [] = []"
| "matchPincodes (c # cs) = (if isPincode (take 6 (c # cs))
     then take 6 (c # cs) # matchPincodes (drop 5 cs) else matchPincodes cs)"

section \<open>Facts\<close>

lemmas js_defs = isSpace_def isDigit_def digitVal_def lowerChar_def toLowerCase_def trimStart_def
  trimEnd_def trim_def startsWith_def endsWith_def elemAt_def digitsVal_def parseInt_def setAdd_def
  dedupe_def isPincode_def


lemma isDigit_not_isSpace: "isDigit c \<Longrightarrow> \<not> isSpace c"
  by (auto simp: isDigit_def isSpace_def)

subsection \<open>trim\<close>

lemma trimStart_idem [simp]: "trimStart (trimStart s) = trimStart s"
  by (simp add: trimStart_def)

lemma trimEnd_idem [simp]: "trimEnd (trimEnd s) = trimEnd s"
  by (simp add: trimEnd_def)

lemma trimEnd_Nil [simp]: "trimEnd [] = []"
  by (simp add: trimEnd_def)

lemma trimStart_Nil [simp]: "trimStart [] = []"
  by (simp add: trimStart_def)

lemma trim_Nil [simp]: "trim [] = []"
  by (simp add: trim_def)

lemma trimStart_eq_Nil: "trimStart s = [] \<longleftrightarrow> list_all isSpace s"
  by (simp add: trimStart_def dropWhile_eq_Nil_conv list_all_iff)

lemma trimEnd_eq_Nil: "trimEnd s = [] \<longleftrightarrow> list_all isSpace s"
  by (simp add: trimEnd_def dropWhile_eq_Nil_conv list_all_iff)

lemma trimStart_hd: "trimStart s \<noteq> [] \<Longrightarrow> \<not> isSpace (hd (trimStart s))"
  unfolding trimStart_def by (rule hd_dropWhile)

lemma trimEnd_last: "trimEnd s \<noteq> [] \<Longrightarrow> \<not> isSpace (last (trimEnd s))"
  unfolding trimEnd_def using hd_dropWhile [of isSpace "rev s"] by (simp add: last_rev)

lemma trimEnd_fixed: "s = [] \<or> \<not> isSpace (last s) \<Longrightarrow> trimEnd s = s"
  by (cases s rule: rev_cases) (auto simp: trimEnd_def)

lemma trimStart_fixed: "s = [] \<or> \<not> isSpace (hd s) \<Longrightarrow> trimStart s = s"
  by (cases s) (auto simp: trimStart_def)

lemma trimEnd_append:
  assumes "ds \<noteq> []" and "\<not> isSpace (last ds)"
  shows "trimEnd (ds @ r) = ds @ trimEnd r"
proof -
  have "dropWhile isSpace (rev ds) = rev ds" using assms by (cases ds rule: rev_cases) auto
  then show ?thesis by (simp add: trimEnd_def dropWhile_append)
qed

lemma trimEnd_prefix: "prefix (trimEnd s) s"
proof -
  have "rev s = takeWhile isSpace (rev s) @ dropWhile isSpace (rev s)" by simp
  then have "s = trimEnd s @ rev (takeWhile isSpace (rev s))"
    unfolding trimEnd_def by (metis rev_append rev_rev_ident)
  then show ?thesis by (metis prefixI)
qed

lemma trimStart_suffix: "suffix (trimStart s) s"
  unfolding trimStart_def by (rule suffix_dropWhile)

lemma trimEnd_hd: "trimEnd s \<noteq> [] \<Longrightarrow> hd (trimEnd s) = hd s"
  using trimEnd_prefix [of s] by (metis hd_append2 prefixE)

lemma trim_eq_Nil: "trim s = [] \<longleftrightarrow> list_all isSpace s"
proof -
  have "list_all isSpace (trimStart s) \<longleftrightarrow> trimStart s = []"
    using trimStart_hd [of s] by (cases "trimStart s") auto
  then show ?thesis by (simp add: trim_def trimEnd_eq_Nil trimStart_eq_Nil)
qed

lemma trim_ends:
  assumes "trim s \<noteq> []"
  shows "\<not> isSpace (hd (trim s))" and "\<not> isSpace (last (trim s))"
proof -
  from assms have ne: "trimStart s \<noteq> []" by (auto simp: trim_def)
  show "\<not> isSpace (hd (trim s))"
    using assms trimEnd_hd [of "trimStart s"] trimStart_hd [OF ne] by (simp add: trim_def)
  show "\<not> isSpace (last (trim s))"
    using assms trimEnd_last [of "trimStart s"] by (simp add: trim_def)
qed

lemma trim_fixed: "s = [] \<or> (\<not> isSpace (hd s) \<and> \<not> isSpace (last s)) \<Longrightarrow> trim s = s"
  by (auto simp: trim_def trimStart_fixed trimEnd_fixed)

lemma trim_idem [simp]: "trim (trim s) = trim s"
  using trim_ends [of s] by (cases "trim s = []") (auto intro: trim_fixed)

lemma set_trim: "set (trim s) \<subseteq> set s"
  using set_mono_prefix [OF trimEnd_prefix, of "trimStart s"] set_mono_suffix [OF trimStart_suffix, of s]
  by (auto simp: trim_def)

lemma trim_digits:
  assumes "list_all isDigit s"
  shows "trim s = s"
proof (cases "s = []")
  case False
  then have "isDigit (hd s)" "isDigit (last s)" using assms by (simp_all add: list_all_iff)
  then show ?thesis by (intro trim_fixed) (simp add: isDigit_not_isSpace)
qed simp

subsection \<open>split\<close>

lemma splitOn_nonempty [simp]: "splitOn d s \<noteq> []"
  by (induction s) (auto split: list.splits)

lemma splitLines_nonempty [simp]: "splitLines s \<noteq> []"
  by (induction s rule: splitLines.induct) (auto split: list.splits)

lemma splitOn_free: "p \<in> set (splitOn d s) \<Longrightarrow> d \<notin> set p"
  by (induction s arbitrary: p) (auto split: if_splits list.splits)

lemma splitOn_none: "d \<notin> set s \<Longrightarrow> splitOn d s = [s]"
  by (induction s) auto

lemma splitOn_append:
  "d \<notin> set p \<Longrightarrow> splitOn d (p @ d # s) = p # splitOn d s"
  by (induction p) auto

lemma length_splitOn: "length (splitOn d s) = Suc (count_list s d)"
  by (induction s) (auto split: list.splits)

lemma splitOn_join: "concat (map (\<lambda>p. d # p) (splitOn d s)) = d # s"
  by (induction s) (auto split: list.splits)

lemma hd_neq_absent: "x \<notin> set xs \<Longrightarrow> xs \<noteq> [] \<Longrightarrow> hd xs \<noteq> x"
  by (cases xs) auto

lemma splitLines_free: "p \<in> set (splitLines s) \<Longrightarrow> CHR 0x0A \<notin> set p"
  by (induction s arbitrary: p rule: splitLines.induct) (auto split: if_splits list.splits)

lemma splitLines_none: "CHR 0x0A \<notin> set s \<Longrightarrow> splitLines s = [s]"
  by (induction s rule: splitLines.induct) (auto dest: hd_neq_absent)

lemma splitLines_lf:
  "CHR 0x0A \<notin> set p \<Longrightarrow> p = [] \<or> last p \<noteq> CHR 0x0D \<Longrightarrow> splitLines (p @ CHR 0x0A # s) = p # splitLines s"
  by (induction p) (auto split: if_splits simp: hd_append dest: hd_neq_absent)

lemma splitLines_crlf:
  "CHR 0x0A \<notin> set p \<Longrightarrow> splitLines (p @ CHR 0x0D # CHR 0x0A # s) = p # splitLines s"
  by (induction p) (auto split: if_splits simp: hd_append dest: hd_neq_absent)

subsection \<open>indexOf\<close>

lemma indexOf_None: "indexOf xs x = None \<longleftrightarrow> x \<notin> set xs"
  by (induction xs) auto

lemma indexOf_Some:
  "indexOf xs x = Some i \<longleftrightarrow> i < length xs \<and> xs ! i = x \<and> x \<notin> set (take i xs)"
proof (induction xs arbitrary: i)
  case (Cons y ys)
  then show ?case by (cases i) auto
qed simp

lemma elemAt_Some [simp]: "i < length xs \<Longrightarrow> elemAt xs i = Some (xs ! i)"
  by (simp add: elemAt_def)

lemma elemAt_None [simp]: "length xs \<le> i \<Longrightarrow> elemAt xs i = None"
  by (simp add: elemAt_def)

subsection \<open>parseInt\<close>

lemma digitsVal_snoc [simp]: "digitsVal (ds @ [c]) = 10 * digitsVal ds + digitVal c"
  by (simp add: digitsVal_def)

lemma digitsVal_Nil [simp]: "digitsVal [] = 0"
  by (simp add: digitsVal_def)

lemma digitVal_less: "isDigit c \<Longrightarrow> digitVal c < 10"
  by (auto simp: isDigit_def digitVal_def)

lemma digitsVal_less: "list_all isDigit ds \<Longrightarrow> digitsVal ds < 10 ^ length ds"
proof (induction ds rule: rev_induct)
  case (snoc c ds)
  then have "digitsVal ds < 10 ^ length ds" and "digitVal c < 10" by (simp_all add: digitVal_less)
  then show ?case by simp
qed simp

lemma parseInt_prefix:
  assumes "list_all isDigit ds" and "ds \<noteq> []" and "r = [] \<or> \<not> isDigit (hd r)"
  shows "parseInt (ds @ r) = Some (int (digitsVal ds))"
proof -
  have h: "isDigit (hd ds)" using assms by (cases ds) auto
  then have "trimStart (ds @ r) = ds @ r"
    using assms by (intro trimStart_fixed) (simp add: isDigit_not_isSpace)
  moreover have "hd ds \<noteq> CHR ''-''" "hd ds \<noteq> CHR ''+''" using h by (auto simp: isDigit_def)
  moreover have "takeWhile isDigit (ds @ r) = ds"
    using assms by (cases r) (auto simp: list_all_iff takeWhile_append2)
  ultimately show ?thesis using assms by (simp add: parseInt_def Let_def)
qed

lemma parseInt_digits:
  "list_all isDigit ds \<Longrightarrow> ds \<noteq> [] \<Longrightarrow> parseInt ds = Some (int (digitsVal ds))"
  using parseInt_prefix [of ds "[]"] by simp

lemma parseInt_minus:
  assumes "list_all isDigit ds" and "ds \<noteq> []"
  shows "parseInt (CHR ''-'' # ds) = Some (- int (digitsVal ds))"
proof -
  have tw: "takeWhile isDigit ds = ds" using assms by (simp add: list_all_iff)
  show ?thesis using assms(2) by (simp add: parseInt_def Let_def trimStart_def isSpace_def tw)
qed

lemma parseInt_None:
  "s = [] \<or> (\<not> isDigit (hd s) \<and> \<not> isSpace (hd s) \<and> hd s \<noteq> CHR ''-'' \<and> hd s \<noteq> CHR ''+'')
    \<Longrightarrow> parseInt s = None"
  by (cases s) (auto simp: parseInt_def trimStart_def Let_def)

subsection \<open>Insertion order of a set\<close>

lemma set_foldl_setAdd: "set (foldl setAdd acc xs) = set acc \<union> set xs"
  by (induction xs arbitrary: acc) (auto simp: setAdd_def)

lemma distinct_foldl_setAdd: "distinct acc \<Longrightarrow> distinct (foldl setAdd acc xs)"
  by (induction xs arbitrary: acc) (auto simp: setAdd_def)

lemma setAdd_append:
  "setAdd (acc @ ys) x = (if x \<in> set acc then acc @ ys else acc @ setAdd ys x)"
  by (simp add: setAdd_def)

lemma foldl_setAdd_filter:
  "foldl setAdd acc xs = acc @ foldl setAdd [] (filter (\<lambda>x. x \<notin> set acc) xs)"
proof (induction xs arbitrary: acc rule: rev_induct)
  case (snoc x xs)
  show ?case
    by (simp add: snoc [of acc] setAdd_append)
qed simp

lemma set_dedupe [simp]: "set (dedupe xs) = set xs"
  by (simp add: dedupe_def set_foldl_setAdd)

lemma distinct_dedupe [simp]: "distinct (dedupe xs)"
  by (simp add: dedupe_def distinct_foldl_setAdd)

lemma dedupe_Nil [simp]: "dedupe [] = []"
  by (simp add: dedupe_def)

lemma dedupe_snoc: "dedupe (xs @ [x]) = (if x \<in> set xs then dedupe xs else dedupe xs @ [x])"
  by (simp add: dedupe_def setAdd_def set_foldl_setAdd)

lemma dedupe_Cons: "dedupe (x # xs) = x # dedupe (filter (\<lambda>y. y \<noteq> x) xs)"
  using foldl_setAdd_filter [of "[x]" xs] by (simp add: dedupe_def setAdd_def)

lemma dedupe_distinct: "distinct xs \<Longrightarrow> dedupe xs = xs"
  by (induction xs rule: rev_induct) (auto simp: dedupe_snoc)

lemma dedupe_idem [simp]: "dedupe (dedupe xs) = dedupe xs"
  by (simp add: dedupe_distinct)

lemma dedupe_remdups: "dedupe xs = rev (remdups (rev xs))"
  by (induction xs rule: rev_induct) (auto simp: dedupe_snoc)

lemma length_dedupe: "length (dedupe xs) = card (set xs)"
  using distinct_card [of "dedupe xs"] by simp

lemma dedupe_eq_Nil [simp]: "dedupe xs = [] \<longleftrightarrow> xs = []"
  using set_dedupe [of xs] by (metis set_empty)

lemma Nil_eq_dedupe [simp]: "[] = dedupe xs \<longleftrightarrow> xs = []"
  using dedupe_eq_Nil [of xs] by (metis (full_types))

lemma list_all_dedupe [simp]: "list_all P (dedupe xs) = list_all P xs"
  by (simp add: list_all_iff)

subsection \<open>Six-digit codes\<close>

lemma isPincode_digits: "isPincode p \<Longrightarrow> list_all isDigit p \<and> p \<noteq> []"
  by (auto simp: isPincode_def)

lemma matchPincodes_all: "list_all isPincode (matchPincodes s)"
  by (induction s rule: matchPincodes.induct) auto

lemma matchPincodes_exact: "isPincode p \<Longrightarrow> matchPincodes p = [p]"
  by (cases p) (auto simp: isPincode_def)

lemma matchPincodes_no_digit: "list_all (\<lambda>c. \<not> isDigit c) s \<Longrightarrow> matchPincodes s = []"
  by (induction s rule: matchPincodes.induct) (auto simp: isPincode_def)

lemma matchPincodes_short: "length s < 6 \<Longrightarrow> matchPincodes s = []"
  by (induction s rule: matchPincodes.induct) (auto simp: isPincode_def)

end
