(* ===== verification/GeminiService.thy ===== *)
theory GeminiService
  imports JS_String CityTile_Demo "HOL-Library.Monad_Syntax"
begin

text \<open>
  \<^verbatim>\<open>src/services/geminiService.ts\<close>: the two functions that ask the
  generative service and turn its text into postal codes and scan centers.

  The request is a record (\<open>pincodesRequest\<close>, \<open>centersRequest\<close>); the
  service's behaviour is a \<open>response\<close>: the call is rejected with a thrown
  value, or it yields a response whose text may be undefined. The parser of
  the platform, \<^verbatim>\<open>JSON.parse\<close>, is an argument \<open>parse\<close> of every function
  that calls it (\<open>None\<close> when it throws), so each lemma holds for every
  parser. \<open>findPincodesForCity\<close> returns the list or the message of the error
  it throws; \<open>findScanCentersInPincode\<close> returns the parsed value as it is,
  because the cast of the source checks nothing; \<open>asCenters\<close> is the view the
  caller's spread takes of that value.

  A parsed object is the list of its members in the order of the text;
  \<open>property\<close> reads the last member of a name, as the parser of the platform
  keeps the last of repeated names.
\<close>

section \<open>Values and requests\<close>

datatype json = JNull | JBool bool | JNum real | JStr string | JArr "json list"
  | JObj "(string \<times> json) list"

type_synonym parser = "string \<Rightarrow> json option"

datatype response = Rejected thrown | Response "string option"

datatype tool = GoogleSearch | GoogleMaps

record request =
  model :: string
  contents :: string
  tools :: "tool list"
  temperature :: "real option"
  latLng :: "LocationCoords option"

definition quoted :: "string \<Rightarrow> string" where
  "quoted s = CHR 0x22 # s @ [CHR 0x22]"

definition pincodesRequest :: "string \<Rightarrow> request" where
  "pincodesRequest cityName = \<lparr>model = ''gemini-2.5-flash'',
     contents = ''Find all 6-digit postal pincodes for the city of '' @ cityName
       @ '', India. Return the result as a JSON object with a single key '' @ quoted ''pincodes''
       @ '' which is an array of strings. For example: {'' @ quoted ''pincodes'' @ '': [''
       @ quoted ''110001'' @ '', '' @ quoted ''110002''
       @ '']}. Provide only the raw JSON object.'',
     tools = [GoogleSearch], temperature = Some (1 / 10), latLng = None\<rparr>"

definition centerKeys :: "string list" where
  "centerKeys = [''name'', ''address'', ''pincode'', ''contactNumber'', ''googleRating'', ''mapLink'',
     ''website'', ''ctAvailable'']"

fun commaList :: "string list \<Rightarrow> string" where
  "commaList [] = []"
| "commaList [k] = k"
| "commaList (k # ks) = k @ '', '' @ commaList ks"

definition centersRequest :: "string \<Rightarrow> string \<Rightarrow> LocationCoords option \<Rightarrow> request" where
  "centersRequest pin cityName location = \<lparr>model = ''gemini-2.5-flash'',
     contents = ''Find all CT scan centers, diagnostic scan centers, and private hospitals with CT scan facilities located in or very near the postal pincode ''
       @ pin @ '' in '' @ cityName
       @ '', India. For each, confirm CT scan availability. Return the results as a JSON array of objects. Each object should have the following keys: ''
       @ commaList (map quoted centerKeys)
       @ ''. Provide only the raw JSON array. If no centers are found, return an empty array.'',
     tools = [GoogleMaps], temperature = None, latLng = location\<rparr>"

fun requestOf :: "call \<Rightarrow> request" where
  "requestOf (FindPincodesForCity cityName) = pincodesRequest cityName"
| "requestOf (FindScanCentersInPincode pin cityName location) = centersRequest pin cityName location"

section \<open>The text of a response\<close>

definition fence :: string where
  "fence = replicate 3 (CHR 0x60)"

definition replaceFence :: "string \<Rightarrow> string \<Rightarrow> string" where
  "replaceFence mark s =
     (let r = (if startsWith s mark then trimStart (drop (length mark) s) else s)
      in if endsWith r fence then take (length r - 3) r else r)"

definition stripFence :: "string \<Rightarrow> string" where
  "stripFence s = (if startsWith s (fence @ ''json'') then trim (replaceFence (fence @ ''json'') s)
     else if startsWith s fence then trim (replaceFence fence s) else s)"

section \<open>Postal codes\<close>

definition parseFailed :: string where
  "parseFailed = ''Failed to parse pincodes from Gemini API response.''"

definition fetchFailed :: string where
  "fetchFailed = ''Failed to fetch pincodes from Gemini API.''"

fun property :: "json \<Rightarrow> string \<Rightarrow> json option" where
  "property (JObj kvs) k = map_of (rev kvs) k"
| "property _ k = None"

fun pincodeString :: "json \<Rightarrow> string option" where
  "pincodeString (JStr p) = (if isPincode p then Some p else None)"
| "pincodeString _ = None"

definition pincodesOf :: "json \<Rightarrow> string list" where
  "pincodesOf result = (case property result ''pincodes'' of
       Some (JArr ps) \<Rightarrow> dedupe (List.map_filter pincodeString ps)
     | _ \<Rightarrow> [])"

definition parsePincodes :: "parser \<Rightarrow> string \<Rightarrow> string + string list" where
  "parsePincodes parse textResponse = (case parse textResponse of
       Some result \<Rightarrow> Inr (pincodesOf result)
     | None \<Rightarrow> (let pincodes = matchPincodes textResponse
         in if length pincodes > 0 then Inr (dedupe pincodes) else Inl parseFailed))"

definition rethrow :: "thrown \<Rightarrow> string" where
  "rethrow e = (case e of
       ErrorObj message \<Rightarrow> if sublist ''Failed to parse pincodes'' message then message else fetchFailed
     | NonError \<Rightarrow> fetchFailed)"

definition findPincodesForCity :: "parser \<Rightarrow> response \<Rightarrow> string + string list" where
  "findPincodesForCity parse resp = (case resp of
       Rejected e \<Rightarrow> Inl (rethrow e)
     | Response None \<Rightarrow> Inl fetchFailed
     | Response (Some body) \<Rightarrow> (let textResponse = trim body
         in if textResponse = [] then Inr []
            else (case parsePincodes parse (stripFence textResponse) of
                Inl message \<Rightarrow> Inl (rethrow (ErrorObj message))
              | Inr found \<Rightarrow> Inr found)))"

section \<open>Scan centers\<close>

definition findScanCentersInPincode :: "parser \<Rightarrow> response \<Rightarrow> json" where
  "findScanCentersInPincode parse resp = (case resp of
       Rejected e \<Rightarrow> JArr []
     | Response None \<Rightarrow> JArr []
     | Response (Some body) \<Rightarrow> (let jsonStr = trim body
         in if jsonStr = [] then JArr []
            else (case parse (stripFence jsonStr) of None \<Rightarrow> JArr [] | Some parsed \<Rightarrow> parsed)))"

definition stringField :: "json \<Rightarrow> string \<Rightarrow> string option" where
  "stringField v k = (case property v k of Some (JStr s) \<Rightarrow> Some s | _ \<Rightarrow> None)"

definition numberField :: "json \<Rightarrow> string \<Rightarrow> real option" where
  "numberField v k = (case property v k of Some (JNum r) \<Rightarrow> Some r | _ \<Rightarrow> None)"

definition boolField :: "json \<Rightarrow> string \<Rightarrow> bool option" where
  "boolField v k = (case property v k of Some (JBool b) \<Rightarrow> Some b | _ \<Rightarrow> None)"

definition asScanCenter :: "json \<Rightarrow> ScanCenter option" where
  "asScanCenter v = do {
     n \<leftarrow> stringField v ''name'';
     a \<leftarrow> stringField v ''address'';
     p \<leftarrow> stringField v ''pincode'';
     c \<leftarrow> stringField v ''contactNumber'';
     g \<leftarrow> numberField v ''googleRating'';
     m \<leftarrow> stringField v ''mapLink'';
     w \<leftarrow> stringField v ''website'';
     t \<leftarrow> boolField v ''ctAvailable'';
     Some \<lparr>ScanCenter.name = n, address = a, pincode = p, contactNumber = c, googleRating = g,
       mapLink = m, website = w, ctAvailable = t\<rparr> }"

fun asCenters :: "json \<Rightarrow> centersResult option" where
  "asCenters (JArr vs) = map_option Centers (those (map asScanCenter vs))"
| "asCenters (JStr s) = (if s = [] then Some (Centers []) else None)"
| "asCenters v = Some NotIterable"

section \<open>Answers as events of a tile\<close>

definition pincodesEvent :: "nat \<Rightarrow> string + string list \<Rightarrow> event" where
  "pincodesEvent k outcome = (case outcome of
       Inl message \<Rightarrow> PincodesRejected k (ErrorObj message)
     | Inr found \<Rightarrow> PincodesResolved k found)"

definition centersEvent :: "nat \<Rightarrow> json \<Rightarrow> event option" where
  "centersEvent k v = map_option (CentersResolved k) (asCenters v)"



section \<open>Facts about the text of a response\<close>

lemma trimStart_spaces [simp]: "list_all isSpace ws \<Longrightarrow> trimStart (ws @ s) = trimStart s"
  by (simp add: trimStart_def dropWhile_append list_all_iff)

lemma trimEnd_spaces [simp]: "list_all isSpace ws \<Longrightarrow> trimEnd (s @ ws) = trimEnd s"
  by (simp add: trimEnd_def dropWhile_append list_all_iff)

lemma trim_spaces [simp]:
  "list_all isSpace ws \<Longrightarrow> list_all isSpace ws' \<Longrightarrow> trim (ws @ s @ ws') = trim s"
proof -
  assume ws: "list_all isSpace ws" and ws': "list_all isSpace ws'"
  have "trimStart (s @ ws') = trimStart s @ ws' \<or> trimStart s = []"
    by (auto simp: trimStart_def dropWhile_append)
  moreover have "trimStart s = [] \<Longrightarrow> trimEnd (trimStart (s @ ws')) = []"
    using ws' by (auto simp: trimStart_eq_Nil trimEnd_eq_Nil trimStart_def list_all_iff
        dest: set_dropWhileD)
  ultimately show ?thesis using ws ws' by (auto simp: trim_def)
qed

lemma fence_not_space [simp]: "\<not> isSpace (CHR 0x60)"
  by (simp add: isSpace_def)

lemma trimStart_fence [simp]: "trimStart (fence @ s) = fence @ s"
  by (simp add: fence_def trimStart_def)

lemma trim_fenced [simp]: "trim (fence @ s @ fence) = fence @ s @ fence"
  by (rule trim_fixed) (simp add: fence_def)

lemma stripFence_plain: "\<not> startsWith s fence \<Longrightarrow> stripFence s = s"
  by (auto simp: stripFence_def startsWith_def dest: append_prefixD)

lemma replaceFence_closed:
  assumes "list_all isSpace ws" and "b \<noteq> []" and "\<not> isSpace (hd b)"
  shows "replaceFence mark (mark @ ws @ b @ ws' @ fence) = b @ ws'"
proof -
  have "trimStart (b @ ws' @ fence) = b @ ws' @ fence"
    using assms(2,3) by (intro trimStart_fixed) simp
  then show ?thesis using assms(1)
    by (simp add: replaceFence_def startsWith_def endsWith_def suffix_def fence_def)
qed

lemma replaceFence_empty:
  assumes "list_all isSpace ws"
  shows "replaceFence mark (mark @ ws @ fence) = []"
  using assms trimStart_fence [of "[]"]
  by (simp add: replaceFence_def startsWith_def endsWith_def fence_def)

lemma replaceFence_open:
  assumes "list_all isSpace ws" and "trimStart b = b" and "\<not> endsWith b fence"
  shows "replaceFence mark (mark @ ws @ b) = b"
  using assms by (simp add: replaceFence_def startsWith_def)

lemma stripFence_closed:
  assumes "list_all isSpace ws" and "list_all isSpace ws'" and "trim b = b"
    and "mark = fence @ ''json'' \<or> (mark = fence \<and> \<not> startsWith (ws @ b @ ws' @ fence) ''json'')"
  shows "stripFence (mark @ ws @ b @ ws' @ fence) = b"
proof -
  have r: "trim (replaceFence mark (mark @ ws @ b @ ws' @ fence)) = b"
  proof (cases "b = []")
    case True
    then show ?thesis
      using replaceFence_empty [of "ws @ ws'" mark] assms(1,2) by simp
  next
    case False
    then have "\<not> isSpace (hd b)" using trim_ends(1) [of b] assms(3) by simp
    then show ?thesis
      using replaceFence_closed [OF assms(1) False, of mark ws'] trim_spaces [of "[]" ws' b] assms(2,3)
      by simp
  qed
  from assms(4) show ?thesis
  proof
    assume "mark = fence @ ''json''"
    then show ?thesis using r by (simp add: stripFence_def startsWith_def)
  next
    assume "mark = fence \<and> \<not> startsWith (ws @ b @ ws' @ fence) ''json''"
    then show ?thesis using r by (simp add: stripFence_def startsWith_def)
  qed
qed

section \<open>Facts about postal codes\<close>

lemma pincodeString_Some [simp]: "pincodeString v = Some p \<longleftrightarrow> v = JStr p \<and> isPincode p"
  by (cases v) auto

lemma map_filter_strings:
  "List.map_filter pincodeString (map JStr ps) = filter isPincode ps"
  by (induction ps) (simp_all add: List.map_filter_simps)

lemma pincodesOf_all: "list_all isPincode (pincodesOf v)"
  by (auto simp: pincodesOf_def list_all_iff List.map_filter_def split: option.splits json.splits)

lemma pincodesOf_distinct: "distinct (pincodesOf v)"
  by (simp add: pincodesOf_def split: option.splits json.splits)

lemma pincodesOf_strings:
  "property v ''pincodes'' = Some (JArr (map JStr ps)) \<Longrightarrow> pincodesOf v = dedupe (filter isPincode ps)"
  by (simp add: pincodesOf_def map_filter_strings)

lemma parsePincodes_Inr:
  "parsePincodes parse s = Inr ps \<longleftrightarrow>
     (case parse s of Some v \<Rightarrow> ps = pincodesOf v
      | None \<Rightarrow> matchPincodes s \<noteq> [] \<and> ps = dedupe (matchPincodes s))"
  by (auto simp: parsePincodes_def Let_def split: option.splits)

lemma parsePincodes_Inl:
  "parsePincodes parse s = Inl m \<longleftrightarrow> parse s = None \<and> matchPincodes s = [] \<and> m = parseFailed"
  by (auto simp: parsePincodes_def Let_def split: option.splits)

lemma parsePincodes_valid:
  "parsePincodes parse s = Inr ps \<Longrightarrow> list_all isPincode ps \<and> distinct ps"
  by (auto simp: parsePincodes_Inr pincodesOf_all pincodesOf_distinct matchPincodes_all
      split: option.splits)

lemma rethrow_parseFailed [simp]: "rethrow (ErrorObj parseFailed) = parseFailed"
proof -
  have "prefix ''Failed to parse pincodes'' parseFailed" by (simp add: parseFailed_def)
  then show ?thesis by (simp add: rethrow_def prefix_imp_sublist)
qed

lemma rethrow_cases: "rethrow e = fetchFailed \<or> (\<exists>m. e = ErrorObj m \<and> rethrow e = m \<and> sublist ''Failed to parse pincodes'' m)"
  by (cases e) (auto simp: rethrow_def)

lemma messages_differ: "parseFailed \<noteq> fetchFailed"
  by (simp add: parseFailed_def fetchFailed_def)

lemma findPincodesForCity_Some:
  "findPincodesForCity parse (Response (Some body)) =
     (if trim body = [] then Inr [] else parsePincodes parse (stripFence (trim body)))"
proof (cases "parsePincodes parse (stripFence (trim body))")
  case (Inl m)
  then have "m = parseFailed" by (simp add: parsePincodes_Inl)
  with Inl show ?thesis by (simp add: findPincodesForCity_def)
qed (simp add: findPincodesForCity_def)

lemma findPincodesForCity_other [simp]:
  "findPincodesForCity parse (Rejected e) = Inl (rethrow e)"
  "findPincodesForCity parse (Response None) = Inl fetchFailed"
  by (simp_all add: findPincodesForCity_def)

section \<open>Facts about scan centers\<close>

definition centerJson :: "ScanCenter \<Rightarrow> json" where
  "centerJson c = JObj [(''name'', JStr (ScanCenter.name c)), (''address'', JStr (address c)),
     (''pincode'', JStr (pincode c)), (''contactNumber'', JStr (contactNumber c)),
     (''googleRating'', JNum (googleRating c)), (''mapLink'', JStr (mapLink c)),
     (''website'', JStr (website c)), (''ctAvailable'', JBool (ctAvailable c))]"

lemma centerJson_keys: "(case centerJson c of JObj kvs \<Rightarrow> map fst kvs | _ \<Rightarrow> []) = centerKeys"
  by (simp add: centerJson_def centerKeys_def)

lemma asScanCenter_centerJson [simp]: "asScanCenter (centerJson c) = Some c"
  by (simp add: asScanCenter_def centerJson_def stringField_def numberField_def boolField_def)

lemma those_map_Some [simp]: "those (map (\<lambda>x. Some (f x)) xs) = Some (map f xs)"
  by (induction xs) simp_all

lemma asCenters_centerJson [simp]: "asCenters (JArr (map centerJson cs)) = Some (Centers cs)"
  by (simp add: comp_def)

lemma asCenters_NotIterable:
  "asCenters v = Some NotIterable \<longleftrightarrow> (case v of JArr vs \<Rightarrow> False | JStr s \<Rightarrow> False | _ \<Rightarrow> True)"
  by (cases v) (auto split: option.splits)

lemma findScanCentersInPincode_Some:
  "findScanCentersInPincode parse (Response (Some body)) =
     (if trim body = [] then JArr []
      else case parse (stripFence (trim body)) of None \<Rightarrow> JArr [] | Some v \<Rightarrow> v)"
  by (simp add: findScanCentersInPincode_def Let_def)

lemma findScanCentersInPincode_other [simp]:
  "findScanCentersInPincode parse (Rejected e) = JArr []"
  "findScanCentersInPincode parse (Response None) = JArr []"
  by (simp_all add: findScanCentersInPincode_def)

lemma centersEvent_empty [simp]: "centersEvent k (JArr []) = Some (CentersResolved k (Centers []))"
  by (simp add: centersEvent_def)

section \<open>Facts about requests\<close>

lemma request_bias [simp]: "latLng (requestOf (FindScanCentersInPincode p c location)) = location"
  "latLng (requestOf (FindPincodesForCity c)) = None"
  by (simp_all add: centersRequest_def pincodesRequest_def)

lemma request_tools [simp]: "tools (requestOf (FindScanCentersInPincode p c location)) = [GoogleMaps]"
  "tools (requestOf (FindPincodesForCity c)) = [GoogleSearch]"
  by (simp_all add: centersRequest_def pincodesRequest_def)

lemma sublist_here: "sublist c (c @ ys)"
  by (rule prefix_imp_sublist) simp

lemma sublist_skip: "sublist c ys \<Longrightarrow> sublist c (xs @ ys)"
  by (auto simp: sublist_def) (metis append.assoc)

lemma request_mentions:
  "sublist c (contents (requestOf (FindPincodesForCity c)))"
  "sublist c (contents (requestOf (FindScanCentersInPincode p c location)))"
  "sublist p (contents (requestOf (FindScanCentersInPincode p c location)))"
  unfolding requestOf.simps pincodesRequest_def centersRequest_def request.select_convs
  by (rule sublist_here | rule sublist_skip)+

section \<open>A worked response\<close>

definition demoJson :: json where
  "demoJson = JObj [(''pincodes'',
     JArr [JStr ''110001'', JStr ''110001'', JStr ''110002'', JStr ''1100'', JNum 110003])]"

definition demoParse :: parser where
  "demoParse s = (if s = ''{pins}'' then Some demoJson
     else if s = ''[centers]'' then Some (JArr [centerJson centerA, centerJson centerB])
     else if s = ''null'' then Some JNull else None)"

fun joinWith :: "string \<Rightarrow> string list \<Rightarrow> string" where
  "joinWith sep [] = []"
| "joinWith sep [p] = p"
| "joinWith sep (p # q # ps) = p @ sep @ joinWith sep (q # ps)"

definition fenced :: "string \<Rightarrow> string" where
  "fenced body = fence @ ''json'' @ [CHR 0x0A] @ body @ [CHR 0x0A] @ fence"

lemma fence_eq: "fence = [CHR 0x60, CHR 0x60, CHR 0x60]"
  by (simp add: fence_def numeral_3_eq_3)

lemmas service_defs = quoted_def fence_eq replaceFence_def stripFence_def parseFailed_def
  fetchFailed_def pincodesOf_def parsePincodes_def rethrow_def findPincodesForCity_def
  findScanCentersInPincode_def stringField_def numberField_def boolField_def asScanCenter_def
  pincodesEvent_def centersEvent_def

lemmas service_eval = service_defs js_defs demoJson_def demoParse_def fenced_def
  List.map_filter_simps(2) Let_def

lemma demo_pincodes:
  "findPincodesForCity demoParse (Response (Some ''  {pins} '')) = Inr [''110001'', ''110002'']"
  by (simp add: service_eval)

lemma demo_fallback:
  "findPincodesForCity demoParse (Response (Some ''Codes: 110001, 110001 and 1100029.''))
     = Inr [''110001'', ''110002'']"
  by (simp add: service_eval)

lemma demo_failure:
  "findPincodesForCity demoParse (Response (Some ''I do not know.'')) = Inl parseFailed"
  by (simp add: service_eval)

lemma demo_centers:
  "findScanCentersInPincode demoParse (Response (Some ''[centers]''))
     = JArr [centerJson centerA, centerJson centerB]"
  "findScanCentersInPincode demoParse (Response (Some (fenced ''[centers]'')))
     = JArr [centerJson centerA, centerJson centerB]"
  by (simp_all add: findScanCentersInPincode_Some stripFence_def replaceFence_def fence_eq fenced_def
      demoParse_def js_defs Let_def suffix_to_prefix)

section \<open>What the service functions guarantee\<close>

text \<open>
  Claim C14. Every list of postal codes that \<^verbatim>\<open>findPincodesForCity\<close> returns,
  from the structured answer or from the fallback extraction, consists of
  strings of exactly six decimal digits and has no duplicates.
\<close>
theorem pincodes_wellformed:
  assumes "findPincodesForCity parse resp = Inr ps"
  shows "list_all isPincode ps \<and> distinct ps"
proof (cases resp)
  case (Response body)
  with assms show ?thesis
    by (cases body) (auto simp: findPincodesForCity_Some dest: parsePincodes_valid split: if_splits)
qed (use assms in simp)

theorem pincodes_wellformed_witness:
  "findPincodesForCity demoParse (Response (Some ''  {pins} '')) = Inr [''110001'', ''110002'']
   \<and> list_all isPincode [''110001'', ''110002''] \<and> distinct [''110001'', ''110002'']"
  using pincodes_wellformed [OF demo_pincodes] demo_pincodes by simp

text \<open>
  Claim C25. \<^verbatim>\<open>findPincodesForCity\<close> throws in exactly three situations, each
  with its own message: the call is rejected (the fetch message, unless the
  rejection already carries a parse message), the response has no text (the
  fetch message), or the text is neither parseable nor contains six
  consecutive digits (the parse message).
\<close>
theorem pincodes_errors:
  "findPincodesForCity parse resp = Inl m \<longleftrightarrow>
     (case resp of Rejected e \<Rightarrow> m = rethrow e
      | Response None \<Rightarrow> m = fetchFailed
      | Response (Some body) \<Rightarrow> trim body \<noteq> [] \<and> parse (stripFence (trim body)) = None
          \<and> matchPincodes (stripFence (trim body)) = [] \<and> m = parseFailed)"
  by (auto simp: findPincodesForCity_Some parsePincodes_Inl split: response.splits option.splits)

theorem pincodes_errors_witness:
  "findPincodesForCity demoParse (Response (Some ''I do not know.'')) = Inl parseFailed
   \<and> findPincodesForCity demoParse (Rejected NonError) = Inl fetchFailed
   \<and> findPincodesForCity demoParse (Response None) = Inl fetchFailed"
  using pincodes_errors [of demoParse "Response (Some ''I do not know.'')" parseFailed]
    pincodes_errors [of demoParse "Rejected NonError" fetchFailed]
    pincodes_errors [of demoParse "Response None" fetchFailed] demo_failure
  by (simp add: rethrow_def)

text \<open>
  An empty list is a regular answer and never the result of the
  fallback: \<^verbatim>\<open>findPincodesForCity\<close> returns the empty list exactly when the
  response text is blank or parses to a value without valid postal codes.
\<close>
theorem empty_resolution:
  "findPincodesForCity parse resp = Inr [] \<longleftrightarrow>
     (\<exists>body. resp = Response (Some body) \<and> (trim body = []
        \<or> (\<exists>v. parse (stripFence (trim body)) = Some v \<and> pincodesOf v = [])))"
proof (cases resp)
  case (Response body)
  then show ?thesis
    by (cases body)
      (auto simp: findPincodesForCity_Some parsePincodes_Inr split: option.splits if_splits)
qed simp

theorem empty_resolution_witness:
  "findPincodesForCity demoParse (Response (Some '' null '')) = Inr []
   \<and> findPincodesForCity demoParse (Response (Some ''   '')) = Inr []"
  using empty_resolution [of demoParse "Response (Some '' null '')"]
    empty_resolution [of demoParse "Response (Some ''   '')"]
  by (simp add: service_eval)

text \<open>
  Claim C28. A markdown code fence around the payload changes nothing: for a
  non-empty payload without surrounding blanks that does not itself start
  with a fence, both service functions give the same result for the fenced
  text (with or without the \<^verbatim>\<open>json\<close> tag after the opening fence) as for
  the bare payload.
\<close>
theorem fence_tolerated:
  assumes "list_all isSpace ws" and "list_all isSpace ws'"
    and "trim body = body" and "body \<noteq> []" and "\<not> startsWith body fence"
    and "mark = fence @ ''json'' \<or> (mark = fence \<and> \<not> startsWith (ws @ body @ ws' @ fence) ''json'')"
  shows "findPincodesForCity parse (Response (Some (mark @ ws @ body @ ws' @ fence)))
           = findPincodesForCity parse (Response (Some body))
       \<and> findScanCentersInPincode parse (Response (Some (mark @ ws @ body @ ws' @ fence)))
           = findScanCentersInPincode parse (Response (Some body))"
proof -
  let ?s = "mark @ ws @ body @ ws' @ fence"
  obtain r where mark: "mark = fence @ r" using assms(6) by auto
  have t: "trim ?s = ?s" using trim_fenced [of "r @ ws @ body @ ws'"] by (simp add: mark)
  have "stripFence ?s = body"
    using assms(1,2,3,6) by (rule stripFence_closed)
  moreover have "stripFence body = body" using assms(5) by (rule stripFence_plain)
  moreover have "?s \<noteq> []" using assms(4) by simp
  ultimately show ?thesis
    using assms(3,4) by (simp add: findPincodesForCity_Some findScanCentersInPincode_Some t)
qed

theorem fence_tolerated_witness:
  "findPincodesForCity demoParse (Response (Some (fenced ''{pins}''))) = Inr [''110001'', ''110002'']
   \<and> findScanCentersInPincode demoParse (Response (Some (fenced ''[centers]'')))
       = JArr [centerJson centerA, centerJson centerB]"
proof -
  have f: "fenced b = (fence @ ''json'') @ [CHR 0x0A] @ b @ [CHR 0x0A] @ fence" for b
    by (simp add: fenced_def)
  have "findPincodesForCity demoParse (Response (Some (fenced ''{pins}'')))
      = findPincodesForCity demoParse (Response (Some ''{pins}''))"
    unfolding f by (rule fence_tolerated [THEN conjunct1]) (simp_all add: js_defs fence_eq)
  moreover have "findScanCentersInPincode demoParse (Response (Some (fenced ''[centers]'')))
      = findScanCentersInPincode demoParse (Response (Some ''[centers]''))"
    unfolding f by (rule fence_tolerated [THEN conjunct2]) (simp_all add: js_defs fence_eq)
  ultimately show ?thesis by (simp add: service_eval)
qed

text \<open>
  Claim C26. \<^verbatim>\<open>findScanCentersInPincode\<close> never throws: a rejected call, a
  response without text, a blank text and an unparseable text all give the
  empty array, which reaches the tile as an answer with no centers.
\<close>
theorem finder_failure_is_empty:
  assumes "case resp of Rejected e \<Rightarrow> True | Response None \<Rightarrow> True
     | Response (Some body) \<Rightarrow> trim body = [] \<or> parse (stripFence (trim body)) = None"
  shows "findScanCentersInPincode parse resp = JArr []
       \<and> centersEvent k (findScanCentersInPincode parse resp) = Some (CentersResolved k (Centers []))"
  using assms
  by (auto simp: findScanCentersInPincode_Some split: response.splits option.splits)

theorem finder_failure_is_empty_witness:
  "findScanCentersInPincode demoParse (Response (Some ''Sorry, nothing.'')) = JArr []
   \<and> centersEvent 0 (findScanCentersInPincode demoParse (Rejected (ErrorObj ''quota'')))
       = Some (CentersResolved 0 (Centers []))"
  using finder_failure_is_empty [where resp = "Response (Some ''Sorry, nothing.'')" and parse = demoParse]
    finder_failure_is_empty [where resp = "Rejected (ErrorObj ''quota'')" and parse = demoParse and k = 0]
  by (simp add: service_eval)

text \<open>
  Claim C38. On success \<^verbatim>\<open>findScanCentersInPincode\<close> returns whatever the text
  parses to, array or not. The caller's spread accepts arrays (and the empty
  string); for \<^verbatim>\<open>null\<close>, a boolean, a number or an object it throws, which
  is the answer \<open>NotIterable\<close> of the tile.
\<close>
theorem finder_result_unchecked:
  assumes "trim body \<noteq> []" and "parse (stripFence (trim body)) = Some v"
  shows "findScanCentersInPincode parse (Response (Some body)) = v
       \<and> (centersEvent k v = Some (CentersResolved k NotIterable)
            \<longleftrightarrow> (case v of JArr vs \<Rightarrow> False | JStr s \<Rightarrow> False | _ \<Rightarrow> True))"
  using assms asCenters_NotIterable [of v]
  by (auto simp: findScanCentersInPincode_Some centersEvent_def)

theorem finder_result_unchecked_witness:
  "findScanCentersInPincode demoParse (Response (Some ''null'')) = JNull
   \<and> centersEvent 0 JNull = Some (CentersResolved 0 NotIterable)"
  using finder_result_unchecked [of "''null''" demoParse JNull 0]
  by (simp add: service_eval)

section \<open>Well-formed answers come back unchanged\<close>

lemma matchPincodes_code: "isPincode p \<Longrightarrow> matchPincodes (p @ s) = p # matchPincodes s"
  by (cases p) (auto simp: isPincode_def)

lemma matchPincodes_skip: "list_all (\<lambda>c. \<not> isDigit c) sep \<Longrightarrow> matchPincodes (sep @ s) = matchPincodes s"
  by (induction sep) (auto simp: isPincode_def)

lemma matchPincodes_joinWith:
  assumes "list_all isPincode ps" and "list_all (\<lambda>c. \<not> isDigit c) sep"
  shows "matchPincodes (joinWith sep ps) = ps"
  using assms
  by (induction sep ps rule: joinWith.induct)
    (simp_all add: matchPincodes_exact matchPincodes_code matchPincodes_skip)

lemma joinWith_ends:
  assumes "list_all isPincode ps" and "ps \<noteq> []"
  shows "joinWith sep ps \<noteq> [] \<and> isDigit (hd (joinWith sep ps)) \<and> isDigit (last (joinWith sep ps))"
  using assms
proof (induction sep ps rule: joinWith.induct)
  case (2 sep p)
  then have "p \<noteq> []" "list_all isDigit p" by (auto simp: isPincode_def)
  then show ?case by (simp add: list_all_iff)
next
  case (3 sep p q ps)
  then have "p \<noteq> []" "list_all isDigit p" by (auto simp: isPincode_def)
  then have "isDigit (hd p)" by (simp add: list_all_iff)
  with 3 \<open>p \<noteq> []\<close> show ?case by simp
qed simp

lemma joinWith_plain:
  assumes "list_all isPincode ps" and "ps \<noteq> []"
  shows "trim (joinWith sep ps) = joinWith sep ps" and "stripFence (joinWith sep ps) = joinWith sep ps"
proof -
  note e = joinWith_ends [OF assms, of sep]
  from e show "trim (joinWith sep ps) = joinWith sep ps"
    by (intro trim_fixed) (simp add: isDigit_not_isSpace)
  from e have "\<not> startsWith (joinWith sep ps) fence"
    by (cases "joinWith sep ps") (auto simp: startsWith_def fence_eq isDigit_def)
  then show "stripFence (joinWith sep ps) = joinWith sep ps" by (rule stripFence_plain)
qed

text \<open>
  Claim C37. Postal codes that are already what the function promises come
  back as they were sent, in their order: a list of distinct strings of six
  digits is returned unchanged when the text (with or without a fence)
  parses to an object whose member \<^verbatim>\<open>pincodes\<close> is that list, and also when
  the text does not parse and is that list joined by any text without
  digits.
\<close>
theorem pincodes_roundtrip:
  assumes "list_all isPincode ps" and "distinct ps" and "ps \<noteq> []"
  shows "(trim body \<noteq> [] \<and> parse (stripFence (trim body)) = Some result
            \<and> property result ''pincodes'' = Some (JArr (map JStr ps))
          \<longrightarrow> findPincodesForCity parse (Response (Some body)) = Inr ps)
       \<and> (list_all (\<lambda>c. \<not> isDigit c) sep \<and> parse (joinWith sep ps) = None
          \<longrightarrow> findPincodesForCity parse (Response (Some (joinWith sep ps))) = Inr ps)"
proof (intro conjI impI; elim conjE)
  assume "trim body \<noteq> []" "parse (stripFence (trim body)) = Some result"
    "property result ''pincodes'' = Some (JArr (map JStr ps))"
  moreover from assms(1) have "filter isPincode ps = ps" by (simp add: list_all_iff)
  ultimately show "findPincodesForCity parse (Response (Some body)) = Inr ps"
    using assms(2)
    by (simp add: findPincodesForCity_def parsePincodes_def pincodesOf_strings dedupe_distinct)
next
  assume sep: "list_all (\<lambda>c. \<not> isDigit c) sep" and "parse (joinWith sep ps) = None"
  moreover note joinWith_plain [OF assms(1,3), of sep] joinWith_ends [OF assms(1,3), of sep]
    matchPincodes_joinWith [OF assms(1) sep]
  ultimately show "findPincodesForCity parse (Response (Some (joinWith sep ps))) = Inr ps"
    using assms(2,3) by (simp add: findPincodesForCity_def parsePincodes_def dedupe_distinct)
qed

theorem pincodes_roundtrip_witness:
  "list_all isPincode [''110001'', ''110002''] \<and> distinct [''110001'', ''110002'']
   \<and> demoParse (joinWith '', '' [''110001'', ''110002'']) = None
   \<and> findPincodesForCity demoParse (Response (Some ''110001, 110002'')) = Inr [''110001'', ''110002'']"
  using pincodes_roundtrip [of "[''110001'', ''110002'']" "[]" demoParse demoJson "'', ''"]
  by (simp add: demoParse_def isPincode_def isDigit_def)

text \<open>
  The fallback extraction takes the first six digits of any run of
  digits, whatever follows them, while the structured path only accepts
  strings of exactly six digits: a seven-digit number in unparseable text
  yields a postal code that the same number inside a parsed answer does not.
\<close>
theorem fallback_takes_windows:
  assumes "isPincode p" and "isDigit d"
  shows "matchPincodes (p @ d # s) = p # matchPincodes (d # s)
       \<and> pincodesOf (JObj [(''pincodes'', JArr [JStr (p @ [d])])]) = []"
proof -
  obtain c cs where p: "p = c # cs" and l: "length cs = 5" using assms(1)
    by (cases p) (auto simp: isPincode_def)
  have "\<not> isPincode (p @ [d])" using assms(1) by (simp add: isPincode_def)
  then show ?thesis using assms(1) l by (simp add: p pincodesOf_def List.map_filter_simps)
qed

theorem fallback_takes_windows_witness:
  "matchPincodes ''1100029'' = [''110002'']
   \<and> pincodesOf (JObj [(''pincodes'', JArr [JStr ''1100029''])]) = []"
  using fallback_takes_windows [of "''110002''" "CHR ''9''" "[]"]
  by (simp add: js_defs)

end
