(* ===== verification/FileUpload.thy ===== *)
theory FileUpload
  imports JS_String Registry "HOL-Library.Multiset"
begin

text \<open>
  \<^verbatim>\<open>src/components/FileUpload.tsx\<close>: the parser of the uploaded file and the
  two state variables of the component.

  \<open>parseCsv\<close> is the body of the \<^verbatim>\<open>try\<close> block of \<^verbatim>\<open>reader.onload\<close>: it
  returns the list handed to \<^verbatim>\<open>onFileParsed\<close> or the message of the error it
  throws. \<open>handleFileChange\<close>, \<open>onload\<close> and \<open>onerror\<close> are the three callbacks
  on the state \<open>UploadState\<close>; \<open>readAsText\<close> is the reader, which ends in one of
  the latter two, and \<open>fileChosen\<close> the whole of a change of the input. The
  lemmas give the shape of every accepted
  list (sorted, at most 100, the largest populations, names not blank), the
  exact condition of each of the three errors, and that a failed upload hands
  nothing to the registry.
\<close>

section \<open>Parsing\<close>

definition tooShort :: string where
  "tooShort = ''CSV file must have a header and at least one data row.''"

definition noColumns :: string where
  "noColumns = ''CSV must contain '' @ [CHR 0x27] @ ''city'' @ [CHR 0x27] @ '' and '' @ [CHR 0x27]
     @ ''population'' @ [CHR 0x27] @ '' columns.''"

definition noCities :: string where
  "noCities = ''No valid city data could be parsed from the file.''"

definition csvLines :: "string \<Rightarrow> string list" where
  "csvLines content = filter (\<lambda>line. trim line \<noteq> []) (splitLines content)"

definition csvHeader :: "string \<Rightarrow> string list" where
  "csvHeader line = map (\<lambda>h. toLowerCase (trim h)) (splitOn CHR '','' line)"

definition parseRow :: "nat \<Rightarrow> nat \<Rightarrow> string \<Rightarrow> City option" where
  "parseRow cityIndex populationIndex line = (let cells = splitOn CHR '','' line;
       cityName = map_option trim (elemAt cells cityIndex);
       people = (case elemAt cells populationIndex of None \<Rightarrow> None | Some cell \<Rightarrow> parseInt (trim cell))
     in if cityName = None \<or> cityName = Some [] \<or> people = None then None
        else Some \<lparr>name = the cityName, population = the people\<rparr>)"

definition topCities :: "City list \<Rightarrow> City list" where
  "topCities cities = take 100 (sort_key (\<lambda>c. - population c) cities)"

definition parseCsv :: "string \<Rightarrow> string + City list" where
  "parseCsv content = (let lines = csvLines content in
     if length lines < 2 then Inl tooShort
     else let header = csvHeader (lines ! 0) in
       case (indexOf header ''city'', indexOf header ''population'') of
         (Some cityIndex, Some populationIndex) \<Rightarrow>
           (let cities = List.map_filter (parseRow cityIndex populationIndex) (drop 1 lines)
            in if length cities = 0 then Inl noCities else Inr (topCities cities))
       | _ \<Rightarrow> Inl noColumns)"

section \<open>The component\<close>

record UploadState =
  error :: "string option"
  loading :: bool

definition mountUpload :: UploadState where
  "mountUpload = \<lparr>error = None, loading = False\<rparr>"

definition handleFileChange :: "bool \<Rightarrow> UploadState \<Rightarrow> UploadState" where
  "handleFileChange hasFile u = (if \<not> hasFile then u else u\<lparr>loading := True, error := None\<rparr>)"

definition onload :: "string \<Rightarrow> UploadState \<Rightarrow> UploadState \<times> City list option" where
  "onload content u = (case parseCsv content of
       Inr cities \<Rightarrow> (u\<lparr>loading := False\<rparr>, Some cities)
     | Inl message \<Rightarrow> (u\<lparr>error := Some message, loading := False\<rparr>, None))"

definition onerror :: "UploadState \<Rightarrow> UploadState" where
  "onerror u = u\<lparr>error := Some ''Failed to read the file.'', loading := False\<rparr>"

datatype reading = Loaded string | Unreadable

definition readAsText :: "reading \<Rightarrow> UploadState \<Rightarrow> UploadState \<times> City list option" where
  "readAsText r u = (case r of Loaded content \<Rightarrow> onload content u | Unreadable \<Rightarrow> (onerror u, None))"

definition fileChosen :: "reading option \<Rightarrow> UploadState \<Rightarrow> UploadState \<times> City list option" where
  "fileChosen file u = (case file of
       None \<Rightarrow> (handleFileChange False u, None)
     | Some r \<Rightarrow> readAsText r (handleFileChange True u))"

definition upload :: "string \<Rightarrow> CityProcess list \<Rightarrow> CityProcess list" where
  "upload content cities = (case snd (onload content (handleFileChange True mountUpload)) of
       Some parsed \<Rightarrow> handleFileParsed parsed
     | None \<Rightarrow> cities)"

lemmas upload_defs = tooShort_def noColumns_def noCities_def csvLines_def csvHeader_def parseRow_def
  topCities_def parseCsv_def mountUpload_def handleFileChange_def onload_def onerror_def upload_def
  readAsText_def fileChosen_def


section \<open>The rows that count\<close>

definition csvCities :: "string \<Rightarrow> City list" where
  "csvCities content = (let lines = csvLines content; header = csvHeader (lines ! 0) in
     case (indexOf header ''city'', indexOf header ''population'') of
       (Some cityIndex, Some populationIndex) \<Rightarrow>
         List.map_filter (parseRow cityIndex populationIndex) (drop 1 lines)
     | _ \<Rightarrow> [])"

definition hasColumns :: "string \<Rightarrow> bool" where
  "hasColumns content = (let header = csvHeader (csvLines content ! 0) in
     indexOf header ''city'' \<noteq> None \<and> indexOf header ''population'' \<noteq> None)"

definition descending :: "City list \<Rightarrow> bool" where
  "descending cs = sorted_wrt (\<lambda>a b. population b \<le> population a) cs"

lemma messages_distinct: "distinct [tooShort, noColumns, noCities]"
  by (simp add: tooShort_def noColumns_def noCities_def)

lemma parseCsv_Inr:
  "parseCsv content = Inr cs \<longleftrightarrow>
     2 \<le> length (csvLines content) \<and> csvCities content \<noteq> [] \<and> cs = topCities (csvCities content)"
  by (auto simp: parseCsv_def csvCities_def Let_def split: option.splits)

lemma parseCsv_Inl:
  "parseCsv content = Inl m \<longleftrightarrow>
     (if length (csvLines content) < 2 then m = tooShort
      else if \<not> hasColumns content then m = noColumns
      else csvCities content = [] \<and> m = noCities)"
  by (auto simp: parseCsv_def csvCities_def hasColumns_def Let_def split: option.splits)

subsection \<open>Sorting and truncation\<close>

lemma descending_sort: "descending (sort_key (\<lambda>c. - population c) cs)"
  using sorted_sort_key [of "\<lambda>c. - population c" cs] by (simp add: descending_def sorted_map)

lemma descending_topCities: "descending (topCities cs)"
  using descending_sort [of cs] unfolding descending_def topCities_def by (rule sorted_wrt_take)

lemma length_topCities [simp]: "length (topCities cs) = min 100 (length cs)"
  by (simp add: topCities_def min.commute)

lemma topCities_eq_Nil [simp]: "topCities cs = [] \<longleftrightarrow> cs = []"
  using length_topCities [of cs] by (metis length_0_conv min_0R min_def zero_neq_numeral)

lemma mset_topCities: "mset (topCities cs) \<subseteq># mset cs"
proof -
  have "mset (take 100 (sort_key (\<lambda>c. - population c) cs)) \<subseteq># mset (sort_key (\<lambda>c. - population c) cs)"
    by (metis append_take_drop_id mset_append mset_subset_eq_add_left)
  then show ?thesis by (simp add: topCities_def)
qed

lemma set_topCities: "set (topCities cs) \<subseteq> set cs"
  using set_mset_mono [OF mset_topCities] by simp

lemma topCities_all: "length cs \<le> 100 \<Longrightarrow> mset (topCities cs) = mset cs"
  by (simp add: topCities_def)

lemma topCities_rest:
  "mset cs - mset (topCities cs) = mset (drop 100 (sort_key (\<lambda>c. - population c) cs))"
proof -
  let ?xs = "sort_key (\<lambda>c. - population c) cs"
  have "mset cs = mset (take 100 ?xs) + mset (drop 100 ?xs)"
    by (metis append_take_drop_id mset_append mset_sort)
  then show ?thesis by (simp add: topCities_def)
qed

lemma topCities_largest:
  assumes "c \<in> set (topCities cs)" and "d \<in># mset cs - mset (topCities cs)"
  shows "population d \<le> population c"
proof -
  let ?xs = "sort_key (\<lambda>c. - population c) cs"
  have "sorted_wrt (\<lambda>a b. population b \<le> population a) ?xs"
    using descending_sort [of cs] by (simp add: descending_def)
  moreover have "c \<in> set (take 100 ?xs)" using assms(1) by (simp add: topCities_def)
  moreover have "d \<in> set (drop 100 ?xs)" using assms(2) by (simp add: topCities_rest)
  ultimately show ?thesis by (rule sorted_wrt_take_drop)
qed

lemma topCities_stable:
  "prefix (filter (\<lambda>c. population c = k) (topCities cs)) (filter (\<lambda>c. population c = k) cs)"
proof -
  let ?xs = "sort_key (\<lambda>c. - population c) cs"
  have "filter (\<lambda>c. - population c = - k) ?xs = filter (\<lambda>c. - population c = - k) cs"
    by (rule sort_key_stable)
  then have "filter (\<lambda>c. population c = k) ?xs = filter (\<lambda>c. population c = k) cs" by simp
  moreover have "prefix (filter (\<lambda>c. population c = k) (take 100 ?xs)) (filter (\<lambda>c. population c = k) ?xs)"
    by (metis append_take_drop_id filter_append prefixI)
  ultimately show ?thesis by (simp add: topCities_def)
qed

subsection \<open>Rows\<close>

lemma parseRow_Some:
  assumes "parseRow i j line = Some c"
  shows "name c \<noteq> []" and "trim (name c) = name c" and "CHR '','' \<notin> set (name c)"
    and "\<exists>cell. elemAt (splitOn CHR '','' line) j = Some cell \<and> parseInt (trim cell) = Some (population c)"
proof -
  from assms obtain cell where cell: "elemAt (splitOn CHR '','' line) i = Some cell"
    and n: "name c = trim cell" "name c \<noteq> []"
    by (auto simp: parseRow_def Let_def split: option.splits if_splits)
  show "name c \<noteq> []" by (rule n(2))
  show "trim (name c) = name c" by (simp add: n(1))
  have "cell \<in> set (splitOn CHR '','' line)" using cell by (auto simp: elemAt_def split: if_splits)
  then show "CHR '','' \<notin> set (name c)"
    using set_trim [of cell] splitOn_free [of cell "CHR '',''" line] by (auto simp: n(1))
  show "\<exists>cell. elemAt (splitOn CHR '','' line) j = Some cell \<and> parseInt (trim cell) = Some (population c)"
    using assms by (auto simp: parseRow_def Let_def split: option.splits if_splits)
qed

lemma csvCities_names:
  assumes "c \<in> set (csvCities content)"
  shows "name c \<noteq> [] \<and> trim (name c) = name c"
  using assms parseRow_Some(1,2)
  by (auto simp: csvCities_def Let_def List.map_filter_def split: option.splits)

subsection \<open>The callbacks\<close>

lemma onload_fields [simp]:
  "loading (fst (onload content u)) = False"
  "error (fst (onload content u)) = (case parseCsv content of Inl m \<Rightarrow> Some m | Inr cs \<Rightarrow> error u)"
  "snd (onload content u) = (case parseCsv content of Inl m \<Rightarrow> None | Inr cs \<Rightarrow> Some cs)"
  by (simp_all add: onload_def split: sum.splits)

lemma handleFileChange_fields [simp]:
  "handleFileChange True u = \<lparr>error = None, loading = True\<rparr>"
  "handleFileChange False u = u"
  by (simp_all add: handleFileChange_def)

lemma upload_cases:
  "upload content cities = (case parseCsv content of Inl m \<Rightarrow> cities | Inr cs \<Rightarrow> handleFileParsed cs)"
  by (simp add: upload_def split: sum.splits)

section \<open>A worked upload\<close>

definition mumbai :: City where
  "mumbai = \<lparr>name = ''Mumbai'', population = 20000000\<rparr>"

definition specCsv :: string where
  "specCsv = ''city,population'' @ [CHR 0x0A] @ ''Mumbai,20000000'' @ [CHR 0x0A]
     @ ''Delhi,19000000'' @ [CHR 0x0A] @ ''X,notanumber''"

definition looseCsv :: string where
  "looseCsv = ''Population , CITY '' @ [CHR 0x0D, CHR 0x0A] @ [CHR 0x0D, CHR 0x0A]
     @ '' 19000000 ,Delhi'' @ [CHR 0x0D, CHR 0x0A] @ ''20000000abc, Mumbai ,x'' @ [CHR 0x0A]"

lemmas upload_eval = upload_defs csvCities_def hasColumns_def js_defs Let_def mumbai_def
  List.map_filter_simps(2)

lemma specCsv_lines:
  "csvLines specCsv = [''city,population'', ''Mumbai,20000000'', ''Delhi,19000000'', ''X,notanumber'']"
  by (simp add: csvLines_def specCsv_def js_defs)

lemma specCsv_cities: "csvCities specCsv = [mumbai, \<lparr>name = ''Delhi'', population = 19000000\<rparr>]"
  by (simp add: csvCities_def specCsv_lines csvHeader_def parseRow_def js_defs Let_def mumbai_def
      List.map_filter_simps(2))

lemma specCsv_columns: "hasColumns specCsv"
  by (simp add: hasColumns_def specCsv_lines csvHeader_def js_defs Let_def)

lemma header_only_lines: "csvLines ''city,population'' = [''city,population'']"
  by (simp add: csvLines_def js_defs)

lemma header_only_parsed: "parseCsv ''city,population'' = Inl tooShort"
  by (simp add: parseCsv_def header_only_lines)

lemma specCsv_parsed: "parseCsv specCsv = Inr [mumbai, \<lparr>name = ''Delhi'', population = 19000000\<rparr>]"
  by (simp add: parseCsv_Inr specCsv_lines specCsv_cities topCities_def mumbai_def)

lemma looseCsv_parsed: "parseCsv looseCsv = Inr [mumbai, \<lparr>name = ''Delhi'', population = 19000000\<rparr>]"
  by (simp add: looseCsv_def upload_eval)

section \<open>What the upload guarantees\<close>

text \<open>
  Claim C16. Every list that the parser hands to the application is sorted by
  population, largest first, is not empty, has \<open>min 100 n\<close> entries where \<open>n\<close>
  is the number of valid rows of the file, and every name in it is non-empty
  and free of surrounding blanks.
\<close>
theorem accepted_list_shape:
  assumes "parseCsv content = Inr cs"
  shows "descending cs \<and> length cs = min 100 (length (csvCities content)) \<and> cs \<noteq> []
       \<and> list_all (\<lambda>c. name c \<noteq> [] \<and> trim (name c) = name c) cs"
proof -
  from assms have cs: "cs = topCities (csvCities content)" and ne: "csvCities content \<noteq> []"
    by (simp_all add: parseCsv_Inr)
  have "list_all (\<lambda>c. name c \<noteq> [] \<and> trim (name c) = name c) cs"
    unfolding list_all_iff cs using set_topCities csvCities_names by blast
  then show ?thesis using ne by (simp add: cs descending_topCities)
qed

theorem accepted_list_shape_witness:
  "parseCsv specCsv = Inr [mumbai, \<lparr>name = ''Delhi'', population = 19000000\<rparr>]
   \<and> descending [mumbai, \<lparr>name = ''Delhi'', population = 19000000\<rparr>]
   \<and> length (csvCities specCsv) = 2"
  using accepted_list_shape [OF specCsv_parsed] specCsv_parsed by (simp add: specCsv_cities)

text \<open>
  The accepted list consists of valid rows of the file, each as
  often as it occurs there, and no valid row that was cut off has a larger
  population than a row that was kept.
\<close>
theorem accepted_list_is_top:
  assumes "parseCsv content = Inr cs"
  shows "mset cs \<subseteq># mset (csvCities content)
       \<and> (\<forall>c \<in> set cs. \<forall>d \<in># mset (csvCities content) - mset cs. population d \<le> population c)"
  using assms mset_topCities topCities_largest by (auto simp: parseCsv_Inr)

theorem accepted_list_is_top_witness:
  "parseCsv looseCsv = Inr [mumbai, \<lparr>name = ''Delhi'', population = 19000000\<rparr>]
   \<and> mset [mumbai, \<lparr>name = ''Delhi'', population = 19000000\<rparr>] \<subseteq># mset (csvCities looseCsv)"
  using accepted_list_is_top [OF looseCsv_parsed] looseCsv_parsed by simp

text \<open>
  Claim C27. After a file has been chosen and read, the component shows one
  of three distinct messages, each under its own condition (fewer than two
  non-blank lines; a header without a \<^verbatim>\<open>city\<close> or a \<^verbatim>\<open>population\<close> column; no
  valid row), and no message otherwise.
\<close>
theorem upload_errors:
  "error (fst (onload content (handleFileChange True u))) =
     (if length (csvLines content) < 2 then Some tooShort
      else if \<not> hasColumns content then Some noColumns
      else if csvCities content = [] then Some noCities else None)
   \<and> distinct [tooShort, noColumns, noCities]"
proof (cases "parseCsv content")
  case (Inl m)
  moreover from Inl have "if length (csvLines content) < 2 then m = tooShort
      else if \<not> hasColumns content then m = noColumns else csvCities content = [] \<and> m = noCities"
    by (simp add: parseCsv_Inl)
  ultimately show ?thesis using messages_distinct by (simp split: if_splits)
next
  case (Inr cs)
  moreover from Inr have "2 \<le> length (csvLines content)" and "csvCities content \<noteq> []"
    by (simp_all add: parseCsv_Inr)
  moreover have "hasColumns content"
    using \<open>csvCities content \<noteq> []\<close> by (auto simp: csvCities_def hasColumns_def Let_def split: option.splits)
  ultimately show ?thesis using messages_distinct by simp
qed

theorem upload_errors_witness:
  "error (fst (onload ''city,population'' (handleFileChange True mountUpload))) = Some tooShort
   \<and> error (fst (onload specCsv (handleFileChange True mountUpload))) = None"
  using upload_errors [of "''city,population''" mountUpload] upload_errors [of specCsv mountUpload]
  by (simp add: specCsv_lines specCsv_cities specCsv_columns header_only_lines)

text \<open>
  A failed upload hands nothing to the application: the callback
  receives a list exactly when parsing succeeded, the registry is unchanged
  otherwise, and loading is over in both cases.
\<close>
theorem failed_upload_loads_nothing:
  "(snd (onload content u) = None \<longleftrightarrow> error (fst (onload content (handleFileChange True u))) \<noteq> None)
   \<and> \<not> loading (fst (onload content u))
   \<and> upload content cities = (case snd (onload content u) of None \<Rightarrow> cities | Some cs \<Rightarrow> handleFileParsed cs)"
  by (cases "parseCsv content") (simp_all add: upload_cases)

theorem failed_upload_loads_nothing_witness:
  "snd (onload ''city,population'' mountUpload) = None
   \<and> upload ''city,population'' [newProcess mumbai] = [newProcess mumbai]
   \<and> upload specCsv [] = handleFileParsed [mumbai, \<lparr>name = ''Delhi'', population = 19000000\<rparr>]"
  using failed_upload_loads_nothing [of "''city,population''" mountUpload "[newProcess mumbai]"]
    failed_upload_loads_nothing [of specCsv mountUpload "[]"]
  by (simp add: specCsv_parsed header_only_parsed)

text \<open>
  Rows with equal populations keep the order they have in the file.
\<close>
theorem ties_keep_file_order:
  assumes "parseCsv content = Inr cs"
  shows "prefix (filter (\<lambda>c. population c = k) cs) (filter (\<lambda>c. population c = k) (csvCities content))"
  using assms topCities_stable by (simp add: parseCsv_Inr)

theorem ties_keep_file_order_witness:
  "prefix (filter (\<lambda>c. population c = 20000000) [mumbai, \<lparr>name = ''Delhi'', population = 19000000\<rparr>])
     (filter (\<lambda>c. population c = 20000000) (csvCities specCsv))"
  using ties_keep_file_order [OF specCsv_parsed, of 20000000] by simp

text \<open>
  Claim C39. The population column is read by \<^verbatim>\<open>parseInt\<close>: a cell that starts
  with digits is accepted with the value of those digits whatever follows
  them, and a negative number is accepted as it is. The value is the integer
  the digits denote; the program holds it as a double, which is that integer
  when it is below \<open>2^53\<close> and the nearest double otherwise. That the row is
  accepted does not depend on the size.
\<close>
theorem population_prefix_accepted:
  assumes "list_all isDigit ds" and "ds \<noteq> []" and "r = [] \<or> \<not> isDigit (hd r)"
    and "CHR '','' \<notin> set r"
  shows "parseRow 0 1 (''X,'' @ ds @ r) = Some \<lparr>name = ''X'', population = int (digitsVal ds)\<rparr>
       \<and> parseRow 0 1 (''X,-'' @ ds) = Some \<lparr>name = ''X'', population = - int (digitsVal ds)\<rparr>"
proof -
  have d: "\<forall>c \<in> set ds. isDigit c" using assms(1) by (simp add: list_all_iff)
  then have comma: "CHR '','' \<notin> set ds" by (auto simp: isDigit_def)
  have l: "\<not> isSpace (last ds)" "\<not> isSpace (hd ds)"
    using d assms(2) by (auto dest: isDigit_not_isSpace)
  have "trim (ds @ r) = ds @ trimEnd r"
    using l assms(2) by (simp add: trim_def trimStart_fixed trimEnd_append)
  moreover have "trimEnd r = [] \<or> \<not> isDigit (hd (trimEnd r))"
    using assms(3) trimEnd_hd [of r] by (cases "trimEnd r = []") auto
  ultimately have 1: "parseInt (trim (ds @ r)) = Some (int (digitsVal ds))"
    using assms(1,2) by (simp add: parseInt_prefix)
  have "trim (CHR ''-'' # ds) = CHR ''-'' # ds"
    using l assms(2) by (intro trim_fixed) (simp add: isSpace_def)
  then have 2: "parseInt (trim (CHR ''-'' # ds)) = Some (- int (digitsVal ds))"
    using assms(1,2) by (simp add: parseInt_minus)
  have s: "splitOn CHR '','' (''X,'' @ ds @ r) = [''X'', ds @ r]"
       "splitOn CHR '','' (''X,-'' @ ds) = [''X'', CHR ''-'' # ds]"
    using comma assms(4) by (simp_all add: splitOn_none)
  have x: "trim ''X'' = ''X''" by (simp add: js_defs)
  show ?thesis unfolding parseRow_def s by (simp add: Let_def 1 2 x)
qed

theorem population_prefix_accepted_witness:
  "parseRow 0 1 ''X,12abc'' = Some \<lparr>name = ''X'', population = 12\<rparr>
   \<and> parseRow 0 1 ''X,-12'' = Some \<lparr>name = ''X'', population = - 12\<rparr>"
  using population_prefix_accepted [of "''12''" "''abc''"] by (simp add: js_defs)

end
