(* ===== verification/App.thy ===== *)
theory App
  imports CityTile_Inv FileUpload
begin

text \<open>
  \<^verbatim>\<open>src/App.tsx\<close> as a whole: the registry of processes together with the
  tiles mounted for its entries.

  \<open>AppState\<close> holds the list \<open>cities\<close> of the component and, position by
  position, the tile rendered for each entry (React keeps a tile with its
  local state as long as its key, the city's id, stays in the list).
  \<open>tileEvent\<close> fires an event of tile \<open>i\<close>, passes every update the tile
  emitted to \<open>handleCityUpdate\<close> in order, and renders again, which hands each
  tile the entry at its position as its prop. \<open>appStep\<close> adds the upload,
  which is offered only while the list is empty. The lemmas show that the
  tiles of an upload without repeated names run independently of each other,
  so that everything proved of a single tile holds of every entry of the
  registry, and what happens when names repeat.
\<close>

section \<open>State and steps\<close>

record AppState =
  cities :: "CityProcess list"
  tiles :: "Tile list"

definition mountApp :: AppState where
  "mountApp = \<lparr>cities = [], tiles = []\<rparr>"

definition onFileParsed :: "City list \<Rightarrow> AppState" where
  "onFileParsed parsedCities =
     \<lparr>cities = handleFileParsed parsedCities, tiles = map mountTile (handleFileParsed parsedCities)\<rparr>"

definition render :: "AppState \<Rightarrow> AppState" where
  "render a = a\<lparr>tiles := map (\<lambda>(c, t). t\<lparr>city := c\<rparr>) (zip (cities a) (tiles a))\<rparr>"

definition updatesOf :: "Tile \<Rightarrow> Tile \<Rightarrow> CityProcess list" where
  "updatesOf t t' = drop (length (emitted t)) (emitted t')"

definition tileEvent :: "LocationCoords option \<Rightarrow> nat \<Rightarrow> event \<Rightarrow> AppState \<Rightarrow> AppState option" where
  "tileEvent location i e a =
     (if i < length (tiles a) then
        (case fire location e (tiles a ! i) of
           None \<Rightarrow> None
         | Some t' \<Rightarrow> Some (render \<lparr>cities = applyUpdates (updatesOf (tiles a ! i) t') (cities a),
             tiles = (tiles a)[i := t']\<rparr>))
      else None)"

datatype appEvent = FileRead string | TileEvent nat event

fun appStep :: "LocationCoords option \<Rightarrow> appEvent \<Rightarrow> AppState \<Rightarrow> AppState option" where
  "appStep location (FileRead content) a =
     (if showsUpload (cities a) then
        (case parseCsv content of Inl message \<Rightarrow> Some a | Inr parsed \<Rightarrow> Some (onFileParsed parsed))
      else None)"
| "appStep location (TileEvent i e) a = tileEvent location i e a"

inductive appReachable :: "AppState \<Rightarrow> bool" where
  start: "appReachable mountApp"
| step: "appReachable a \<Longrightarrow> appStep location ev a = Some a' \<Longrightarrow> appReachable a'"

lemmas app_defs = mountApp_def onFileParsed_def render_def updatesOf_def tileEvent_def

section \<open>The registry under a sequence of updates\<close>

lemma applyUpdates_same_id:
  assumes "\<forall>u \<in> set us. id' u = x" and "us \<noteq> []" and "j < length cs"
  shows "applyUpdates us cs ! j = (if id' (cs ! j) = x then last us else cs ! j)"
proof (cases "id' (cs ! j) = x")
  case True
  with assms show ?thesis by (simp add: applyUpdates_own)
next
  case False
  with assms(1) have "id' (cs ! j) \<notin> id' ` set us" by auto
  with assms(3) False show ?thesis by (simp add: applyUpdates_other)
qed

lemma applyUpdates_distinct:
  assumes "distinct (map id' cs)" and "k < length cs" and "\<forall>u \<in> set us. id' u = id' (cs ! k)"
    and "us \<noteq> []"
  shows "applyUpdates us cs = cs[k := last us]"
proof (rule nth_equalityI)
  fix j assume "j < length (applyUpdates us cs)"
  then have j: "j < length cs" by simp
  have "id' (cs ! j) = id' (cs ! k) \<longleftrightarrow> j = k"
    using assms(1,2) j nth_eq_iff_index_eq [of "map id' cs" j k] by simp
  then show "applyUpdates us cs ! j = cs[k := last us] ! j"
    using applyUpdates_same_id [OF assms(3,4) j] j by (auto simp: nth_list_update)
qed simp

section \<open>What a tile emits in one step\<close>

lemma fire_extends: "fire loc e t = Some t' \<Longrightarrow> extends (emitted t) (emitted t')"
  by (cases e)
    (auto simp: handler_defs takeTask_def extends_iff split: if_splits option.splits task.splits
      centersResult.splits)

lemma emitted_updatesOf:
  "fire loc e t = Some t' \<Longrightarrow> emitted t' = emitted t @ updatesOf t t'"
  using fire_extends [of loc e t t'] by (auto simp: extends_iff updatesOf_def)

lemma updatesOf_ids:
  assumes "tile_inv c0 t" and "fire loc e t = Some t'" and "u \<in> set (updatesOf t t')"
  shows "id' u = name c0"
proof -
  have "tile_inv c0 t'" using assms(1,2) by (rule fire_keeps_inv)
  then have "list_all (\<lambda>u. same_city u (newProcess c0)) (emitted t')"
    by (simp add: tile_inv_def log_ok_def list_all_iff)
  then have "same_city u (newProcess c0)"
    using assms(3) emitted_updatesOf [OF assms(2)] by (auto simp: list_all_iff)
  then show ?thesis using same_city_id [of u "newProcess c0"] by simp
qed

lemma updatesOf_last:
  assumes "tile_inv c0 t" and "fire loc e t = Some t'"
  shows "city t' = (if updatesOf t t' = [] then city t else last (updatesOf t t'))"
proof -
  have "tile_inv c0 t'" using assms by (rule fire_keeps_inv)
  then have "committed (newProcess c0) (emitted t') = city t'"
    and "committed (newProcess c0) (emitted t) = city t"
    using assms(1) by (simp_all add: tile_inv_def log_ok_def)
  then show ?thesis unfolding emitted_updatesOf [OF assms(2)]
    by (cases "updatesOf t t'" rule: rev_cases) (simp_all add: committed_def)
qed

section \<open>The invariant of the application\<close>

definition origin :: "CityProcess \<Rightarrow> City" where
  "origin c = \<lparr>name = name c, population = population c\<rparr>"

definition slot_ok :: "AppState \<Rightarrow> nat \<Rightarrow> bool" where
  "slot_ok a i \<longleftrightarrow> reachable (origin (cities a ! i)) (tiles a ! i) \<and> city (tiles a ! i) = cities a ! i"

definition app_inv :: "AppState \<Rightarrow> bool" where
  "app_inv a \<longleftrightarrow> length (tiles a) = length (cities a)
     \<and> (distinct (map id' (cities a)) \<longrightarrow> (\<forall>i < length (cities a). slot_ok a i))"

lemma origin_newProcess [simp]: "origin (newProcess c0) = c0"
  by (simp add: origin_def newProcess_def)

lemma origin_same_city: "same_city c (newProcess c0) \<Longrightarrow> origin c = c0"
  by (simp add: origin_def same_city_def)

lemma slot_inv:
  assumes "slot_ok a i"
  shows "tile_inv (origin (cities a ! i)) (tiles a ! i)" and "id' (cities a ! i) = name (cities a ! i)"
proof -
  show inv: "tile_inv (origin (cities a ! i)) (tiles a ! i)"
    using assms by (simp add: slot_ok_def reachable_tile_inv)
  show "id' (cities a ! i) = name (cities a ! i)"
    using tile_inv_same_city [OF inv] assms by (simp add: slot_ok_def same_city_def origin_def)
qed

lemma render_tiles:
  assumes "length ts = length cs" and "i < length cs" and "\<forall>j < length cs. j \<noteq> i \<longrightarrow> city (ts ! j) = cs ! j"
  shows "render \<lparr>cities = cs[i := city t'], tiles = ts[i := t']\<rparr> = \<lparr>cities = cs[i := city t'], tiles = ts[i := t']\<rparr>"
proof -
  have "map (\<lambda>(c, t). t\<lparr>city := c\<rparr>) (zip (cs[i := city t']) (ts[i := t'])) = ts[i := t']"
    using assms by (intro nth_equalityI) (auto simp: nth_list_update)
  then show ?thesis by (simp add: render_def)
qed

lemma tile_step:
  assumes inv: "app_inv a" and d: "distinct (map id' (cities a))"
    and ev: "tileEvent loc i e a = Some a'"
  obtains t' where "i < length (cities a)" and "fire loc e (tiles a ! i) = Some t'"
    and "cities a' = (cities a)[i := city t']" and "tiles a' = (tiles a)[i := t']"
proof -
  from inv have len: "length (tiles a) = length (cities a)" by (simp add: app_inv_def)
  from ev obtain t' where i: "i < length (cities a)" and f: "fire loc e (tiles a ! i) = Some t'"
    and a': "a' = render \<lparr>cities = applyUpdates (updatesOf (tiles a ! i) t') (cities a),
        tiles = (tiles a)[i := t']\<rparr>"
    by (auto simp: tileEvent_def len split: if_splits option.splits)
  let ?t = "tiles a ! i" and ?us = "updatesOf (tiles a ! i) t'"
  from inv d have slots: "\<forall>j < length (cities a). slot_ok a j" by (simp add: app_inv_def)
  then have s: "slot_ok a i" using i by simp
  note ti = slot_inv [OF s]
  have c: "city ?t = cities a ! i" using s by (simp add: slot_ok_def)
  have ids: "\<forall>u \<in> set ?us. id' u = id' (cities a ! i)"
    using updatesOf_ids [OF ti(1) f] ti(2) by (simp add: origin_def)
  have "applyUpdates ?us (cities a) = (cities a)[i := city t']"
  proof (cases "?us = []")
    case True
    then show ?thesis using updatesOf_last [OF ti(1) f] c by simp
  next
    case False
    then show ?thesis
      using applyUpdates_distinct [OF d i ids] updatesOf_last [OF ti(1) f] by simp
  qed
  moreover have "\<forall>j < length (cities a). j \<noteq> i \<longrightarrow> city (tiles a ! j) = cities a ! j"
    using slots by (simp add: slot_ok_def)
  ultimately have "a' = \<lparr>cities = (cities a)[i := city t'], tiles = (tiles a)[i := t']\<rparr>"
    using a' render_tiles [OF len i] by simp
  with i f show ?thesis by (intro that [of t']) simp_all
qed

lemma app_inv_tileEvent:
  assumes inv: "app_inv a" and ev: "tileEvent loc i e a = Some a'"
  shows "app_inv a'"
proof -
  from inv have len: "length (tiles a) = length (cities a)" by (simp add: app_inv_def)
  from ev have l': "length (tiles a') = length (cities a')" and ids: "map id' (cities a') = map id' (cities a)"
    by (auto simp: tileEvent_def render_def len split: if_splits option.splits)
  have "slot_ok a' j" if d: "distinct (map id' (cities a))" and j: "j < length (cities a)" for j
  proof -
    from inv d ev obtain t' where i: "i < length (cities a)" and f: "fire loc e (tiles a ! i) = Some t'"
      and c': "cities a' = (cities a)[i := city t']" and t': "tiles a' = (tiles a)[i := t']"
      by (rule tile_step)
    from inv d have slots: "\<forall>j < length (cities a). slot_ok a j" by (simp add: app_inv_def)
    show ?thesis
    proof (cases "j = i")
      case True
      from slots i have s: "slot_ok a i" by simp
      have "tile_inv (origin (cities a ! i)) t'" using slot_inv(1) [OF s] f by (rule fire_keeps_inv)
      then have "origin (city t') = origin (cities a ! i)"
        using tile_inv_same_city origin_same_city by blast
      moreover have "reachable (origin (cities a ! i)) t'"
        using s f by (auto simp: slot_ok_def intro: reachable.fired)
      ultimately show ?thesis using True i len by (simp add: slot_ok_def c' t')
    next
      case False
      then show ?thesis using slots j len by (simp add: slot_ok_def c' t')
    qed
  qed
  then show ?thesis using l' ids by (simp add: app_inv_def) (metis length_map)
qed

lemma tileEvent_distinct:
  assumes "app_inv a" and "distinct (map id' (cities a))"
  shows "tileEvent loc i e a =
     (if i < length (cities a) then
        (case fire loc e (tiles a ! i) of None \<Rightarrow> None
         | Some t' \<Rightarrow> Some \<lparr>cities = (cities a)[i := city t'], tiles = (tiles a)[i := t']\<rparr>)
      else None)"
proof (cases "tileEvent loc i e a")
  case None
  then show ?thesis using assms(1) by (auto simp: tileEvent_def app_inv_def split: option.splits)
next
  case (Some a')
  from assms Some obtain t' where "i < length (cities a)" "fire loc e (tiles a ! i) = Some t'"
    "cities a' = (cities a)[i := city t']" "tiles a' = (tiles a)[i := t']"
    by (rule tile_step)
  then show ?thesis using Some by simp
qed

lemma tileEvent_ids: "tileEvent loc i e a = Some a' \<Longrightarrow> map id' (cities a') = map id' (cities a)"
  by (auto simp: tileEvent_def render_def split: if_splits option.splits)

lemma app_inv_onFileParsed: "app_inv (onFileParsed parsed)"
  by (auto simp: app_inv_def onFileParsed_def slot_ok_def handleFileParsed_def intro: reachable.mounted)

lemma appReachable_inv: "appReachable a \<Longrightarrow> app_inv a"
proof (induction rule: appReachable.induct)
  case start
  show ?case by (simp add: app_inv_def mountApp_def)
next
  case (step a location ev a')
  then show ?case
    by (cases ev) (auto split: if_splits sum.splits intro: app_inv_onFileParsed app_inv_tileEvent)
qed

section \<open>A worked session\<close>

definition demoApp :: AppState where
  "demoApp = onFileParsed [mumbai, delhi]"

definition demoStarted :: AppState where
  "demoStarted = \<lparr>cities = [newProcess mumbai, (newProcess delhi)\<lparr>status := SCANNING_PINCODES\<rparr>],
     tiles = [mountTile (newProcess mumbai), startProcess (newProcess delhi) (mountTile (newProcess delhi))]\<rparr>"

lemma demoApp_step: "appStep None (FileRead specCsv) mountApp = Some demoApp"
  by (simp add: specCsv_parsed demoApp_def delhi_def mountApp_def showsUpload_def)

lemma demoApp_reachable: "appReachable demoApp"
  by (rule appReachable.step [OF appReachable.start demoApp_step])

lemma demoApp_distinct: "distinct (map id' (cities demoApp))"
  by (simp add: demoApp_def onFileParsed_def handleFileParsed_def mumbai_def delhi_def)

lemma demoApp_start: "tileEvent None 1 ClickStart demoApp = Some demoStarted"
  by (simp add: demoApp_def demoStarted_def app_defs handleFileParsed_def handleCityUpdate_def
      applyUpdates_def eval_defs mumbai_def delhi_def)

lemma demoStarted_reachable: "appReachable demoStarted"
  using appReachable.step [OF demoApp_reachable, of None "TileEvent 1 ClickStart"] demoApp_start
  by simp

section \<open>What the application guarantees\<close>

text \<open>
  Claim C7. The tiles of an upload without repeated names are independent:
  an event of tile \<open>i\<close> is an event of that tile alone, the entry at position
  \<open>i\<close> of the registry becomes the snapshot the tile ends with, and no other
  entry and no other tile changes.
\<close>
theorem tiles_independent:
  assumes "appReachable a" and "distinct (map id' (cities a))" and "tileEvent loc i e a = Some a'"
  shows "\<exists>t'. fire loc e (tiles a ! i) = Some t' \<and> cities a' = (cities a)[i := city t']
       \<and> tiles a' = (tiles a)[i := t']"
  using tile_step [OF appReachable_inv [OF assms(1)] assms(2,3)] by metis

theorem tiles_independent_witness:
  "cities demoStarted = (cities demoApp)[1 := (newProcess delhi)\<lparr>status := SCANNING_PINCODES\<rparr>]
   \<and> tiles demoStarted ! 0 = tiles demoApp ! 0"
  using tiles_independent [OF demoApp_reachable demoApp_distinct demoApp_start]
  by (simp add: demoStarted_def demoApp_def onFileParsed_def handleFileParsed_def)

text \<open>
  Claim C9. Events of different tiles commute: for an upload without
  repeated names, an event of tile \<open>i\<close> followed by an event of tile \<open>j\<close>
  leads to the same state of the application as the two events in the other
  order. The order in which the service answers different cities is therefore
  irrelevant to every city.
\<close>
theorem tile_events_commute:
  assumes "appReachable a" and "distinct (map id' (cities a))" and "i \<noteq> j"
    and "tileEvent loc i e a = Some b" and "tileEvent loc' j f b = Some c"
  shows "\<exists>b'. tileEvent loc' j f a = Some b' \<and> tileEvent loc i e b' = Some c"
proof -
  note inv = appReachable_inv [OF assms(1)]
  have db: "distinct (map id' (cities b))" using assms(2) tileEvent_ids [OF assms(4)] by simp
  from assms(4) obtain t' where i: "i < length (cities a)" and t': "fire loc e (tiles a ! i) = Some t'"
    and b: "b = \<lparr>cities = (cities a)[i := city t'], tiles = (tiles a)[i := t']\<rparr>"
    by (auto simp: tileEvent_distinct [OF inv assms(2)] split: if_splits option.splits)
  note eb = tileEvent_distinct [OF app_inv_tileEvent [OF inv assms(4)] db, of loc' j f]
  from assms(5) [unfolded eb] obtain u' where j: "j < length (cities a)"
    and u': "fire loc' f (tiles a ! j) = Some u'"
    and c: "c = \<lparr>cities = (cities a)[i := city t', j := city u'], tiles = (tiles a)[i := t', j := u']\<rparr>"
    using assms(3) by (auto simp: b split: if_splits option.splits)
  let ?b' = "\<lparr>cities = (cities a)[j := city u'], tiles = (tiles a)[j := u']\<rparr>"
  have 1: "tileEvent loc' j f a = Some ?b'"
    using j u' by (simp add: tileEvent_distinct [OF inv assms(2)])
  have "distinct (map id' (cities ?b'))" using assms(2) tileEvent_ids [OF 1] by simp
  note eb' = tileEvent_distinct [OF app_inv_tileEvent [OF inv 1] this, of loc i e]
  have "tileEvent loc i e ?b' = Some c"
    unfolding eb' using i t' assms(3) by (simp add: c list_update_swap)
  with 1 show ?thesis by blast
qed

theorem tile_events_commute_witness:
  "\<exists>b'. tileEvent None 0 ClickStart demoApp = Some b'
     \<and> tileEvent None 1 ClickStart b' = tileEvent None 0 ClickStart demoStarted
     \<and> tileEvent None 0 ClickStart demoStarted \<noteq> None"
proof -
  have "tileEvent None 0 ClickStart demoStarted \<noteq> None"
    by (simp add: demoStarted_def app_defs eval_defs)
  then obtain c where c: "tileEvent None 0 ClickStart demoStarted = Some c" by blast
  from tile_events_commute [OF demoApp_reachable demoApp_distinct _ demoApp_start c]
  show ?thesis using c by auto
qed

text \<open>
  Claim C10. In every state the application reaches from an upload without
  repeated names, every entry of the registry is a well-formed snapshot (its
  counters are bounded, it carries a message exactly in status \<open>ERROR\<close>), its
  id is its name, and the tile at its position is a reachable tile of that
  city showing that entry.
\<close>
theorem registry_entries_wellformed:
  assumes "appReachable a" and "distinct (map id' (cities a))"
  shows "list_all (\<lambda>c. snapshot_ok c \<and> id' c = name c) (cities a)
       \<and> length (tiles a) = length (cities a)
       \<and> (\<forall>i < length (cities a). reachable (origin (cities a ! i)) (tiles a ! i)
            \<and> city (tiles a ! i) = cities a ! i)"
proof -
  from assms have len: "length (tiles a) = length (cities a)"
    and slots: "\<forall>i < length (cities a). slot_ok a i"
    using appReachable_inv [OF assms(1)] by (simp_all add: app_inv_def)
  have "snapshot_ok (cities a ! i) \<and> id' (cities a ! i) = name (cities a ! i)"
    if "i < length (cities a)" for i
    using slots that slot_inv [of a i] tile_inv_snapshot [of "origin (cities a ! i)" "tiles a ! i"]
    by (simp add: slot_ok_def)
  then show ?thesis using len slots by (simp add: list_all_length slot_ok_def)
qed

theorem registry_entries_wellformed_witness:
  "list_all (\<lambda>c. snapshot_ok c \<and> id' c = name c) (cities demoStarted)
   \<and> length (tiles demoStarted) = 2"
  using registry_entries_wellformed [OF demoStarted_reachable]
  by (simp add: demoStarted_def mumbai_def delhi_def)

text \<open>
  The registry is loaded once: no step changes the number, the
  order or the ids of the entries of a non-empty registry, and the upload is
  not offered any more.
\<close>
theorem registry_loaded_once:
  assumes "appStep loc ev a = Some a'" and "cities a \<noteq> []"
  shows "map id' (cities a') = map id' (cities a) \<and> appStep loc (FileRead content) a' = None"
proof -
  from assms obtain i e where ev: "ev = TileEvent i e"
    by (cases ev) (auto simp: showsUpload_def)
  with assms(1) have "map id' (cities a') = map id' (cities a)"
    by (auto simp: tileEvent_def render_def split: if_splits option.splits)
  moreover from this assms(2) have "cities a' \<noteq> []" by (metis map_is_Nil_conv)
  ultimately show ?thesis by (simp add: showsUpload_def)
qed

theorem registry_loaded_once_witness:
  "map id' (cities demoStarted) = [''Mumbai'', ''Delhi'']
   \<and> appStep None (FileRead specCsv) demoStarted = None"
  using registry_loaded_once [of None "TileEvent 1 ClickStart" demoApp demoStarted specCsv] demoApp_start
  by (simp add: demoApp_def onFileParsed_def handleFileParsed_def mumbai_def delhi_def)

text \<open>
  Claim C36. Names that repeat in the upload share their updates: the id of a
  process is its name, so an update of one tile replaces every entry of that
  name. After a click on Start in the first of two tiles of the same name,
  both entries are the first city's snapshot, and the second city's
  population is lost.
\<close>
theorem repeated_names_share_updates:
  assumes "name c = name d"
  shows "tileEvent loc 0 ClickStart (onFileParsed [c, d])
     = Some \<lparr>cities = [(newProcess c)\<lparr>status := SCANNING_PINCODES\<rparr>,
                        (newProcess c)\<lparr>status := SCANNING_PINCODES\<rparr>],
             tiles = [startProcess (newProcess c) (mountTile (newProcess c)),
                      (mountTile (newProcess d))\<lparr>city := (newProcess c)\<lparr>status := SCANNING_PINCODES\<rparr>\<rparr>]\<rparr>"
  using assms
  by (simp add: app_defs handleFileParsed_def handleCityUpdate_def applyUpdates_def eval_defs)

theorem repeated_names_share_updates_witness:
  "map population (cities (the (tileEvent None 0 ClickStart
      (onFileParsed [delhi, \<lparr>name = ''Delhi'', population = 5\<rparr>])))) = [19000000, 19000000]"
  using repeated_names_share_updates [of delhi "\<lparr>name = ''Delhi'', population = 5\<rparr>" None]
  by (simp add: delhi_def newProcess_def)

end
