(* ===== verification/View.thy ===== *)
theory View
  imports CityTile_Demo JS_String
begin

text \<open>
  What the tiles display. \<open>getStatusInfo\<close> is the function of that name in
  \<^verbatim>\<open>src/components/CityTile.tsx\<close>; \<open>showNat\<close> is the decimal rendering of a
  number in a template string; \<open>showRating\<close>, \<open>showContact\<close>, \<open>showWebsite\<close> and
  \<open>ctTitle\<close> are the conditions and the title of
  \<^verbatim>\<open>src/components/CenterTile.tsx\<close>. The trees in which they are used are in
  theory \<open>Render\<close>. The lemmas relate the display to the state machine: the spinner is shown
  exactly while the tile is processing, and in every status exactly one group
  of controls is rendered.
\<close>

section \<open>Numbers in template strings\<close>

definition digitChar :: "nat \<Rightarrow> char" where
  "digitChar d = ''0123456789'' ! d"

fun showNat :: "nat \<Rightarrow> string" where
  "showNat n = (if n < 10 then [digitChar n] else showNat (n div 10) @ [digitChar (n mod 10)])"

declare showNat.simps [simp del]

section \<open>The status line of a city tile\<close>

record StatusInfo =
  label :: string
  color :: string
  showProgress :: bool

definition getStatusInfo :: "CityProcess \<Rightarrow> StatusInfo" where
  "getStatusInfo c = (case status c of
       IDLE \<Rightarrow> \<lparr>label = ''Ready to start'', color = ''text-slate-500'', showProgress = False\<rparr>
     | SCANNING_PINCODES \<Rightarrow>
         \<lparr>label = ''Scanning pincodes...'', color = ''text-sky-600'', showProgress = True\<rparr>
     | AWAITING_CONFIRMATION \<Rightarrow>
         \<lparr>label = showNat (foundPincodesCount c) @ '' pincodes found'', color = ''text-amber-600'',
          showProgress = False\<rparr>
     | SCANNING_CENTERS \<Rightarrow>
         \<lparr>label = ''Found '' @ showNat (length (centers c)) @ '' centers'', color = ''text-sky-600'',
          showProgress = True\<rparr>
     | COMPLETED \<Rightarrow>
         \<lparr>label = ''Completed. Found '' @ showNat (length (centers c)) @ '' centers.'',
          color = ''text-green-600'', showProgress = False\<rparr>
     | STOPPED \<Rightarrow> \<lparr>label = ''Stopped by user'', color = ''text-slate-500'', showProgress = False\<rparr>
     | ERROR \<Rightarrow> \<lparr>label = ''An error occurred'', color = ''text-red-600'', showProgress = False\<rparr>)"

definition showError :: "CityProcess \<Rightarrow> bool" where
  "showError c \<longleftrightarrow> errorMessage c \<noteq> None \<and> errorMessage c \<noteq> Some []"

definition showBar :: "CityProcess \<Rightarrow> bool" where
  "showBar c \<longleftrightarrow> showProgress (getStatusInfo c) \<and> status c = SCANNING_CENTERS"

section \<open>A center tile\<close>

definition showRating :: "ScanCenter \<Rightarrow> bool" where
  "showRating center \<longleftrightarrow> googleRating center > 0"

definition showContact :: "ScanCenter \<Rightarrow> bool" where
  "showContact center \<longleftrightarrow> contactNumber center \<noteq> []"

definition showWebsite :: "ScanCenter \<Rightarrow> bool" where
  "showWebsite center \<longleftrightarrow> website center \<noteq> [] \<and> website center \<noteq> ''N/A''"

definition ctTitle :: "ScanCenter \<Rightarrow> string" where
  "ctTitle center = ''CT Scan Available: '' @ (if ctAvailable center then ''Yes'' else ''No'')"

lemmas view_defs = getStatusInfo_def showError_def showBar_def showRating_def showContact_def showWebsite_def
  ctTitle_def


section \<open>Facts\<close>

lemma digitChar_cases:
  assumes "d < (10::nat)"
  obtains "d = 0" | "d = 1" | "d = 2" | "d = 3" | "d = 4" | "d = 5" | "d = 6" | "d = 7" | "d = 8" | "d = 9"
  using assms by atomize_elim arith

lemma digitChar_digit [simp]: "d < 10 \<Longrightarrow> isDigit (digitChar d)"
  by (erule digitChar_cases) (simp_all add: digitChar_def isDigit_def)

lemma digitVal_digitChar [simp]: "d < 10 \<Longrightarrow> digitVal (digitChar d) = d"
  by (erule digitChar_cases) (simp_all add: digitChar_def digitVal_def)

lemma showNat_digits: "list_all isDigit (showNat n)"
  by (induction n rule: showNat.induct) (subst showNat.simps, simp)

lemma showNat_nonempty [simp]: "showNat n \<noteq> []"
  by (subst showNat.simps) simp

lemma digitsVal_single [simp]: "digitsVal [c] = digitVal c"
  by (simp add: digitsVal_def)

lemma digitsVal_showNat [simp]: "digitsVal (showNat n) = n"
  by (induction n rule: showNat.induct) (subst showNat.simps, simp)

lemma showNat_inj: "showNat m = showNat n \<Longrightarrow> m = n"
  by (metis digitsVal_showNat)

lemma length_showNat: "n < 10 ^ length (showNat n)"
  using digitsVal_less [OF showNat_digits, of n] by simp

lemma getStatusInfo_showProgress [simp]: "showProgress (getStatusInfo c) = isProcessing c"
  by (cases "status c") (simp_all add: getStatusInfo_def isProcessing_def)

lemma showBar_iff [simp]: "showBar c \<longleftrightarrow> status c = SCANNING_CENTERS"
  by (auto simp: showBar_def isProcessing_def)

section \<open>What the display guarantees\<close>

text \<open>
  The numbers in the status line are decimal numerals: reading the
  rendered count back with \<^verbatim>\<open>parseInt\<close> gives the count, so different counts
  are displayed differently.
\<close>
theorem count_display_roundtrip:
  "parseInt (showNat n) = Some (int n)
   \<and> label (getStatusInfo (c\<lparr>status := AWAITING_CONFIRMATION, foundPincodesCount := n\<rparr>))
       = showNat n @ '' pincodes found''"
  using parseInt_digits [OF showNat_digits, of n] by (simp add: getStatusInfo_def)

theorem count_display_roundtrip_witness:
  "showNat 305 = ''305'' \<and> parseInt ''305'' = Some 305
   \<and> label (getStatusInfo awaiting_delhi) = ''3 pincodes found''"
  using count_display_roundtrip [of 305 awaiting_delhi] count_display_roundtrip [of 3 awaiting_delhi]
  by (simp add: showNat.simps digitChar_def awaiting_delhi_def getStatusInfo_def)

text \<open>
  The display agrees with the state machine: the spinner is shown
  exactly while the tile is processing, the progress bar exactly while it
  scans centers, and in every status exactly one of the four groups of
  controls (start, stop, confirm or cancel, reset) is rendered.
\<close>
theorem display_matches_status:
  "showProgress (getStatusInfo c) = isProcessing c
   \<and> (showBar c \<longleftrightarrow> status c = SCANNING_CENTERS)
   \<and> length (filter id [showStart c, showStop c, showConfirm c, showReset c]) = 1"
  by (cases "status c") (simp_all add: guard_defs)

theorem display_matches_status_witness:
  "showProgress (getStatusInfo awaiting_delhi) = False
   \<and> [showStart awaiting_delhi, showStop awaiting_delhi, showConfirm awaiting_delhi,
       showReset awaiting_delhi] = [False, False, True, False]"
  using display_matches_status [of awaiting_delhi] by (simp add: awaiting_delhi_def guard_defs)

end
