(* ===== verification/Geolocation.thy ===== *)
theory Geolocation
  imports Types
begin

text \<open>
  \<^verbatim>\<open>src/hooks/useGeolocation.ts\<close>: the state of the hook (a location and an
  error message, both absent at first), the effect that runs once after
  mounting, and the two callbacks it registers. The browser calls at most
  one of the callbacks, once; \<open>geoRun\<close> is the hook under that contract, with
  \<open>outcome\<close> the behaviour of the browser.
\<close>

record GeoState =
  location :: "LocationCoords option"
  error :: "string option"

record PositionOptions =
  enableHighAccuracy :: bool
  timeout :: nat
  maximumAge :: nat

datatype outcome = Unsupported | Pending | Position real real | Failed string

definition mountGeo :: GeoState where
  "mountGeo = \<lparr>location = None, error = None\<rparr>"

definition handleSuccess :: "real \<Rightarrow> real \<Rightarrow> GeoState \<Rightarrow> GeoState" where
  "handleSuccess lat lng g = g\<lparr>location := Some \<lparr>latitude = lat, longitude = lng\<rparr>\<rparr>"

definition handleError :: "string \<Rightarrow> GeoState \<Rightarrow> GeoState" where
  "handleError message g = g\<lparr>error := Some (''Error getting location: '' @ message)\<rparr>"

definition positionOptions :: PositionOptions where
  "positionOptions = \<lparr>enableHighAccuracy = True, timeout = 10000, maximumAge = 0\<rparr>"

definition effect :: "bool \<Rightarrow> GeoState \<Rightarrow> GeoState \<times> PositionOptions option" where
  "effect supported g = (if \<not> supported
     then (g\<lparr>error := Some ''Geolocation is not supported by your browser.''\<rparr>, None)
     else (g, Some positionOptions))"

fun geoRun :: "outcome \<Rightarrow> GeoState" where
  "geoRun Unsupported = fst (effect False mountGeo)"
| "geoRun Pending = fst (effect True mountGeo)"
| "geoRun (Position lat lng) = handleSuccess lat lng (fst (effect True mountGeo))"
| "geoRun (Failed message) = handleError message (fst (effect True mountGeo))"

lemmas geo_defs = mountGeo_def handleSuccess_def handleError_def positionOptions_def effect_def

section \<open>Facts\<close>

lemma effect_request:
  "snd (effect supported g) = (if supported then Some positionOptions else None)"
  by (simp add: effect_def)

lemma geoRun_location:
  "location (geoRun b) = (case b of Position lat lng \<Rightarrow> Some \<lparr>latitude = lat, longitude = lng\<rparr> | _ \<Rightarrow> None)"
  by (cases b) (simp_all add: geo_defs)

lemma geoRun_error:
  "error (geoRun b) = (case b of Unsupported \<Rightarrow> Some ''Geolocation is not supported by your browser.''
     | Failed message \<Rightarrow> Some (''Error getting location: '' @ message) | _ \<Rightarrow> None)"
  by (cases b) (simp_all add: geo_defs)

text \<open>
  The hook never reports a location together with a warning: a
  location is set exactly when the browser delivered a position, a warning
  exactly when geolocation is unsupported or failed, and the one request the
  hook makes asks for high accuracy, a timeout of ten seconds and no cached
  fix.
\<close>
theorem location_or_warning:
  "(location (geoRun b) = None \<or> error (geoRun b) = None)
   \<and> (location (geoRun b) \<noteq> None \<longleftrightarrow> (\<exists>lat lng. b = Position lat lng))
   \<and> (error (geoRun b) \<noteq> None \<longleftrightarrow> b = Unsupported \<or> (\<exists>m. b = Failed m))
   \<and> snd (effect True g) = Some \<lparr>enableHighAccuracy = True, timeout = 10000, maximumAge = 0\<rparr>"
  by (cases b) (simp_all add: geo_defs)

theorem location_or_warning_witness:
  "location (geoRun (Position 28 77)) = Some \<lparr>latitude = 28, longitude = 77\<rparr>
   \<and> error (geoRun (Position 28 77)) = None
   \<and> error (geoRun (Failed ''denied'')) = Some ''Error getting location: denied''"
  using location_or_warning [of "Position 28 77" mountGeo] by (simp add: geo_defs)

end
