(* ===== verification/Pipeline.thy ===== *)
theory Pipeline
  imports CityTile_Run Discovery_Spec GeminiService
begin

text \<open>
  The tile composed with the service and the remote model. A suspended call
  of \<^verbatim>\<open>CityTile.tsx\<close> waits for one function of \<^verbatim>\<open>geminiService.ts\<close>, which
  sends one request and turns the response into its result; \<open>serve\<close> delivers
  that result to the tile for one of the pending calls, and \<open>drain\<close> does so
  until no call is pending. The remote model is a function of the request and
  of the number of answers delivered so far, so the same request may be
  answered differently at different times; a schedule tells which of the
  pending calls is answered next. \<open>served\<close> are the tiles of this closed
  system, under arbitrary clicks; the section on progress shows that they
  never wait for ever, in whatever order the answers arrive, provided the
  remote model answers with lists.
\<close>

section \<open>Delivering the answer of the service\<close>

type_synonym remote = "nat \<Rightarrow> request \<Rightarrow> response"

type_synonym schedule = "nat \<Rightarrow> nat"

fun awaited :: "task \<Rightarrow> call" where
  "awaited (StartTask c) = FindPincodesForCity (name c)"
| "awaited (ContinueTask c location allCenters i) =
     FindScanCentersInPincode (pincodes c ! i) (name c) location"

fun settlement :: "parser \<Rightarrow> response \<Rightarrow> nat \<Rightarrow> task \<Rightarrow> event option" where
  "settlement parse resp k (StartTask c) = Some (pincodesEvent k (findPincodesForCity parse resp))"
| "settlement parse resp k (ContinueTask c location allCenters i) =
     centersEvent k (findScanCentersInPincode parse resp)"

definition serve :: "parser \<Rightarrow> remote \<Rightarrow> nat \<Rightarrow> nat \<Rightarrow> Tile \<Rightarrow> Tile option" where
  "serve parse remote n k t =
     (if k < length (tasks t) then
        (case settlement parse (remote n (requestOf (awaited (tasks t ! k)))) k (tasks t ! k) of
           None \<Rightarrow> None
         | Some e \<Rightarrow> fire None e t)
      else None)"

definition turn :: "schedule \<Rightarrow> nat \<Rightarrow> Tile \<Rightarrow> nat" where
  "turn sched n t = sched n mod length (tasks t)"

fun drain :: "parser \<Rightarrow> remote \<Rightarrow> schedule \<Rightarrow> nat \<Rightarrow> nat \<Rightarrow> Tile \<Rightarrow> nat \<times> Tile" where
  "drain parse remote sched 0 n t = (n, t)"
| "drain parse remote sched (Suc fuel) n t = (case serve parse remote n (turn sched n t) t of
       None \<Rightarrow> (n, t)
     | Some t' \<Rightarrow> drain parse remote sched fuel (Suc n) t')"

definition wellTyped :: "parser \<Rightarrow> response \<Rightarrow> bool" where
  "wellTyped parse resp = (case asCenters (findScanCentersInPincode parse resp) of
       Some (Centers found) \<Rightarrow> True
     | _ \<Rightarrow> False)"

definition isClick :: "event \<Rightarrow> bool" where
  "isClick e = (\<not> settles e)"

definition stalled :: "Tile \<Rightarrow> bool" where
  "stalled t \<longleftrightarrow> tasks t = [] \<and> isProcessing (city t)"

text \<open>
  The tiles of the closed system: any clicks of the user, and answers
  computed by the service from the responses of the remote model, for the
  pending calls in any order. The number counts the answers delivered.
\<close>

inductive served :: "parser \<Rightarrow> remote \<Rightarrow> City \<Rightarrow> nat \<Rightarrow> Tile \<Rightarrow> bool"
  for parse remote c0 where
  mounted: "served parse remote c0 0 (mountTile (newProcess c0))"
| clicked: "served parse remote c0 n t \<Longrightarrow> isClick e \<Longrightarrow> fire location e t = Some t' \<Longrightarrow>
     served parse remote c0 n t'"
| answered: "served parse remote c0 n t \<Longrightarrow> serve parse remote n k t = Some t' \<Longrightarrow>
     served parse remote c0 (Suc n) t'"

section \<open>Answers are events\<close>

lemma serve_Nil [simp]: "tasks t = [] \<Longrightarrow> serve parse remote n k t = None"
  by (simp add: serve_def)

lemma turn_less: "tasks t \<noteq> [] \<Longrightarrow> turn sched n t < length (tasks t)"
  by (simp add: turn_def)

lemma turn_single [simp]: "tasks t = [tk] \<Longrightarrow> turn sched n t = 0"
  by (simp add: turn_def)

lemma settlement_settles: "settlement parse resp k tk = Some e \<Longrightarrow> settles e"
  by (cases tk) (auto simp: pincodesEvent_def centersEvent_def split: sum.splits)

lemma serve_fire:
  assumes "serve parse remote n k t = Some t'"
  obtains e where "settles e" and "fire None e t = Some t'"
  using assms unfolding serve_def
  by (auto split: if_splits option.splits dest: settlement_settles)

lemma served_reachable: "served parse remote c0 n t \<Longrightarrow> reachable c0 t"
proof (induction rule: served.induct)
  case (answered n t k t')
  from answered(2) obtain e where "fire None e t = Some t'" by (rule serve_fire)
  with answered(3) show ?case by (rule reachable.fired)
qed (auto intro: reachable.intros)

lemmas served_tile_inv = reachable_tile_inv [OF served_reachable]

lemma wellTyped_event:
  assumes "wellTyped parse resp"
  obtains found where
    "centersEvent k (findScanCentersInPincode parse resp) = Some (CentersResolved k (Centers found))"
  using assms unfolding wellTyped_def centersEvent_def
  by (auto split: option.splits centersResult.splits)

lemma serve_cases:
  assumes "k < length (tasks t)"
    and "\<forall>n pin cityName location. wellTyped parse (remote n (centersRequest pin cityName location))"
  obtains (lookup) c outcome where "tasks t ! k = StartTask c"
      "serve parse remote n k t = fire None (pincodesEvent k outcome) t"
  | (finder) c l acc i found where "tasks t ! k = ContinueTask c l acc i"
      "serve parse remote n k t = fire None (CentersResolved k (Centers found)) t"
proof (cases "tasks t ! k")
  case (StartTask c)
  with assms(1) lookup show ?thesis by (simp add: serve_def)
next
  case (ContinueTask c l acc i)
  from assms(2) have "wellTyped parse (remote n (centersRequest (pincodes c ! i) (name c) l))"
    by simp
  then obtain found where
    "centersEvent k (findScanCentersInPincode parse (remote n (centersRequest (pincodes c ! i) (name c) l)))
       = Some (CentersResolved k (Centers found))"
    by (rule wellTyped_event)
  with assms(1) ContinueTask finder show ?thesis by (simp add: serve_def)
qed

section \<open>No tile of the closed system is stalled\<close>

lemma click_not_stalled:
  assumes "\<not> stalled t" and "isClick e" and "fire location e t = Some t'"
    and "snapshot_ok (city t)"
  shows "\<not> stalled t'"
  using assms
  by (cases e)
    (auto simp: stalled_def isClick_def handler_defs guard_defs snapshot_ok_def split: if_splits)

lemma answer_not_stalled:
  assumes "serve parse remote n k t = Some t'"
    and "\<forall>n pin cityName location. wellTyped parse (remote n (centersRequest pin cityName location))"
  shows "\<not> stalled t'"
proof -
  from assms(1) have "k < length (tasks t)" by (simp add: serve_def split: if_splits)
  then show ?thesis using assms(2)
  proof (cases rule: serve_cases [where n = n])
    case (lookup c outcome)
    with assms(1) \<open>k < length (tasks t)\<close> show ?thesis
      by (auto simp: stalled_def pincodesEvent_def handler_defs guard_defs takeTask_def
          split: sum.splits if_splits)
  next
    case (finder c l acc i found)
    with assms(1) \<open>k < length (tasks t)\<close> show ?thesis
      by (auto simp: stalled_def handler_defs guard_defs takeTask_def split: if_splits)
  qed
qed

lemma served_not_stalled:
  assumes "served parse remote c0 n t"
    and "\<forall>n pin cityName location. wellTyped parse (remote n (centersRequest pin cityName location))"
  shows "\<not> stalled t"
  using assms
proof (induction rule: served.induct)
  case mounted
  show ?case by (simp add: stalled_def guard_defs)
next
  case (clicked n t e location t')
  then show ?case
    using click_not_stalled [of t e location t'] tile_inv_snapshot [OF served_tile_inv] by blast
next
  case (answered n t k t')
  then show ?case using answer_not_stalled by blast
qed

section \<open>Progress\<close>

lemma serve_enabled:
  assumes "k < length (tasks t)"
    and "\<forall>n pin cityName location. wellTyped parse (remote n (centersRequest pin cityName location))"
  shows "\<exists>t'. serve parse remote n k t = Some t'"
  using assms
proof (cases rule: serve_cases [where n = n])
  case (lookup c outcome)
  with assms(1) show ?thesis by (auto simp: pincodesEvent_def takeTask_def split: sum.splits)
next
  case (finder c l acc i found)
  with assms(1) show ?thesis by (auto simp: takeTask_def)
qed

lemma serve_decreases:
  assumes "served parse remote c0 n t" and "serve parse remote n k t = Some t'"
  shows "work t' < work t"
proof -
  from assms(2) obtain e where "settles e" "fire None e t = Some t'" by (rule serve_fire)
  with served_tile_inv [OF assms(1)] show ?thesis by (rule settle_decreases)
qed

lemma drain_settles:
  assumes "served parse remote c0 n t"
    and "\<forall>n pin cityName location. wellTyped parse (remote n (centersRequest pin cityName location))"
    and "work t \<le> fuel"
  shows "\<exists>k t'. drain parse remote sched fuel n t = (n + k, t') \<and> k \<le> work t
       \<and> served parse remote c0 (n + k) t' \<and> tasks t' = []"
  using assms
proof (induction fuel arbitrary: n t)
  case 0
  have "tasks t = []"
  proof (rule ccontr)
    assume ne: "tasks t \<noteq> []"
    from serve_enabled [OF turn_less [OF ne] 0(2)] obtain t'
      where "serve parse remote n (turn sched n t) t = Some t'" by blast
    with serve_decreases [OF 0(1)] 0(3) show False by fastforce
  qed
  with 0 show ?case by (intro exI [of _ 0] exI [of _ t]) simp
next
  case (Suc fuel)
  show ?case
  proof (cases "serve parse remote n (turn sched n t) t")
    case None
    have "tasks t = []"
    proof (rule ccontr)
      assume ne: "tasks t \<noteq> []"
      from serve_enabled [OF turn_less [OF ne] Suc(3)] obtain t'
        where "serve parse remote n (turn sched n t) t = Some t'" by blast
      with None show False by simp
    qed
    with None Suc(2) show ?thesis by (intro exI [of _ 0] exI [of _ t]) simp
  next
    case (Some u)
    from serve_decreases [OF Suc(2) Some] Suc(4) have w: "work u \<le> fuel" "work u < work t" by simp_all
    from Suc.IH [OF served.answered [OF Suc(2) Some] Suc(3) w(1)] obtain k t'
      where "drain parse remote sched fuel (Suc n) u = (Suc n + k, t')" "k \<le> work u"
        "served parse remote c0 (Suc n + k) t'" "tasks t' = []" by blast
    with Some w(2) show ?thesis by (intro exI [of _ "Suc k"] exI [of _ t']) simp
  qed
qed

lemma drain_reachable:
  "reachable c0 t \<Longrightarrow> reachable c0 (snd (drain parse remote sched fuel n t))"
proof (induction fuel arbitrary: n t)
  case (Suc fuel)
  show ?case
  proof (cases "serve parse remote n (turn sched n t) t")
    case (Some u)
    then obtain e where "fire None e t = Some u" by (rule serve_fire)
    with Suc.prems have "reachable c0 u" by (rule reachable.fired)
    with Some Suc.IH [of u "Suc n"] show ?thesis by simp
  qed (use Suc.prems in simp)
qed simp

section \<open>The call a task waits for is the call that was made\<close>

lemma awaited_last:
  assumes "calm c0 t" and "tasks t = [tk]"
  shows "calls t \<noteq> [] \<and> last (calls t) = awaited tk"
  using assms
proof (induction arbitrary: tk rule: calm.induct)
  case mounted
  then show ?case by simp
next
  case (fired t location e t')
  from calm_in_phase [OF fired(1)] show ?case
  proof (cases rule: in_phase_cases)
    case settled
    with fired(2,5) show ?thesis
      by (cases e) (auto simp: handler_defs guard_defs takeTask_def split: if_splits)
  next
    case (resolving c)
    with fired(2,4,5) fired.IH [of "StartTask c"] show ?thesis
      by (cases e) (auto simp: handler_defs guard_defs takeTask_def split: if_splits)
  next
    case (finding c l acc i)
    with fired(2,4,5) fired.IH [of "ContinueTask c l acc i"] show ?thesis
      by (cases e; cases "case e of CentersResolved k r \<Rightarrow> r | _ \<Rightarrow> NotIterable")
        (auto simp: handler_defs guard_defs takeTask_def split: if_splits)
  qed
qed

section \<open>A worked pipeline\<close>

definition demoRemote :: remote where
  "demoRemote n req =
     (if tools req = [GoogleSearch] then Response (Some ''{pins}'')
      else if even n then Response (Some ''[centers]'')
      else Rejected (ErrorObj ''quota''))"

definition demo_found :: Tile where
  "demo_found = the (serve demoParse demoRemote 0 0 demo_started)"

lemma demoRemote_typed:
  "\<forall>n pin cityName location. wellTyped demoParse (demoRemote n (centersRequest pin cityName location))"
  by (simp add: demoRemote_def centersRequest_def wellTyped_def demo_centers)

lemma demo_started_fire:
  "fire None ClickStart (mountTile (newProcess delhi)) = Some demo_started"
  by (simp add: demo_started_def guard_defs)

lemma demo_started_calm: "calm delhi demo_started"
  using calm.mounted demo_started_fire by (rule calm.fired) simp

lemma demo_started_served: "served demoParse demoRemote delhi 0 demo_started"
  using served.mounted _ demo_started_fire by (rule served.clicked) (simp add: isClick_def)

lemma demo_found_serve: "serve demoParse demoRemote 0 0 demo_started = Some demo_found"
proof -
  have "findPincodesForCity demoParse (Response (Some ''{pins}'')) = Inr [''110001'', ''110002'']"
    by (simp add: service_eval)
  then show ?thesis
    by (simp add: demo_found_def demo_started_def serve_def demoRemote_def pincodesRequest_def
        pincodesEvent_def eval_defs)
qed

lemma demo_found_fields:
  "city demo_found = (newProcess delhi)\<lparr>status := AWAITING_CONFIRMATION,
     pincodes := [''110001'', ''110002''], foundPincodesCount := 2\<rparr>"
  "tasks demo_found = []" "calls demo_found = [FindPincodesForCity ''Delhi'']"
proof -
  have "findPincodesForCity demoParse (Response (Some ''{pins}'')) = Inr [''110001'', ''110002'']"
    by (simp add: service_eval)
  then show "city demo_found = (newProcess delhi)\<lparr>status := AWAITING_CONFIRMATION,
     pincodes := [''110001'', ''110002''], foundPincodesCount := 2\<rparr>"
    "tasks demo_found = []" "calls demo_found = [FindPincodesForCity ''Delhi'']"
    by (simp_all add: demo_found_def demo_started_def serve_def demoRemote_def pincodesRequest_def
        pincodesEvent_def eval_defs delhi_def)
qed

lemmas demo_found_served = served.answered [OF demo_started_served demo_found_serve]

lemma work_demo_started [simp]: "work demo_started = 1"
  by (simp add: demo_started_def work_def handler_defs)

section \<open>A confirmed scan runs to completion\<close>

lemma drain_scan:
  assumes "\<forall>n pin cityName location. wellTyped parse (remote n (centersRequest pin cityName location))"
    and "tasks t = [ContinueTask c l acc i]" and "isRunning t" and "i < length (pincodes c)"
    and "m = length (pincodes c) - i"
  shows "\<exists>t'. drain parse remote sched m n t = (n + m, t') \<and> status (city t') = COMPLETED
       \<and> tasks t' = [] \<and> \<not> isRunning t' \<and> isExpanded t'
       \<and> length (centers (city t')) \<ge> length acc \<and> length (calls t') = length (calls t) + (m - 1)"
  using assms(2-)
proof (induction m arbitrary: t acc i n)
  case 0
  then show ?case by simp
next
  case (Suc m)
  from assms(1) have "wellTyped parse (remote n (centersRequest (pincodes c ! i) (name c) l))"
    by simp
  then obtain found where f:
    "centersEvent 0 (findScanCentersInPincode parse (remote n (centersRequest (pincodes c ! i) (name c) l)))
       = Some (CentersResolved 0 (Centers found))"
    by (rule wellTyped_event)
  let ?u = "continueProcess_resolved c l acc i (Centers found) (t\<lparr>tasks := []\<rparr>)"
  from Suc(2) f have s: "serve parse remote n (turn sched n t) t = Some ?u"
    by (simp add: serve_def takeTask_def remove_nth_def)
  show ?case
  proof (cases "Suc i < length (pincodes c)")
    case True
    with Suc(2,3) have u: "tasks ?u = [ContinueTask c l (acc @ found) (Suc i)]" "isRunning ?u"
      "length (calls ?u) = Suc (length (calls t))"
      by (simp_all add: handler_defs)
    from Suc(5) True have m: "m = length (pincodes c) - Suc i" "0 < m" by simp_all
    from Suc.IH [OF u(1,2) True m(1), of "Suc n"] obtain t' where
      "drain parse remote sched m (Suc n) ?u = (Suc n + m, t')" "status (city t') = COMPLETED"
      "tasks t' = []" "\<not> isRunning t'" "isExpanded t'"
      "length (acc @ found) \<le> length (centers (city t'))"
      "length (calls t') = length (calls ?u) + (m - 1)"
      by blast
    with s u(3) m(2) show ?thesis by (intro exI [of _ t']) simp
  next
    case False
    with Suc(4,5) have "m = 0" by simp
    with False Suc(3) s show ?thesis by (simp add: handler_defs)
  qed
qed

section \<open>What the closed system guarantees\<close>

text \<open>
  Claim C6. No tile waits for ever. Whatever the user clicked before and in
  whatever order the answers arrive, once the clicks stop the answers of the
  service settle the tile after at most \<open>work t\<close> of them: no call is pending
  any more and the tile shows neither the spinner nor the Stop button,
  provided every response to a request for scan centers yields a list
  (possibly by failing, which yields the empty list).
\<close>

theorem pending_calls_settle:
  assumes "served parse remote c0 n t"
   
    and "\<forall>n pin cityName location. wellTyped parse (remote n (centersRequest pin cityName location))"
  shows "\<exists>k t'. drain parse remote sched (work t) n t = (n + k, t') \<and> k \<le> work t
       \<and> served parse remote c0 (n + k) t' \<and> tasks t' = [] \<and> \<not> isProcessing (city t')"
proof -
  from drain_settles [OF assms order_refl] obtain k t' where
    d: "drain parse remote sched (work t) n t = (n + k, t')" "k \<le> work t"
      "served parse remote c0 (n + k) t'" "tasks t' = []"
    by blast
  from served_not_stalled [OF d(3) assms(2)] d(4) have "\<not> isProcessing (city t')"
    by (simp add: stalled_def)
  with d show ?thesis by blast
qed

theorem pending_calls_settle_witness:
  "\<exists>k t'. drain demoParse demoRemote (\<lambda>n. 0) (work demo_started) 0 demo_started = (k, t') \<and> k \<le> 1
     \<and> tasks t' = [] \<and> \<not> isProcessing (city t')"
  using pending_calls_settle [OF demo_started_served demoRemote_typed, where sched = "\<lambda>n. 0"]
  by (auto simp del: drain.simps)

text \<open>
  Claim C12. A confirmed scan runs to completion. From a tile that awaits
  confirmation with no older call outstanding, the click on Proceed followed
  by the answers of the service, one per postal code and no click in between,
  ends in status \<^verbatim>\<open>COMPLETED\<close> with no call pending and the list expanded;
  exactly one request per postal code has been sent.
\<close>

theorem confirmed_scan_completes:
  assumes "reachable c0 t"
   
    and "\<forall>n pin cityName location. wellTyped parse (remote n (centersRequest pin cityName location))"
    and "status (city t) = AWAITING_CONFIRMATION" and "tasks t = []"
  shows "\<exists>t'. drain parse remote sched (length (pincodes (city t))) n (continueProcess (city t) location t)
         = (n + length (pincodes (city t)), t')
       \<and> status (city t') = COMPLETED \<and> tasks t' = [] \<and> isExpanded t'
       \<and> length (calls t') = length (calls t) + length (pincodes (city t))"
proof -
  let ?c = "city t" and ?t1 = "continueProcess (city t) location t"
  from tile_inv_snapshot [OF reachable_tile_inv [OF assms(1)]] assms(3)
  have p: "0 < length (pincodes ?c)" by (simp add: snapshot_ok_def)
  with assms(4) have "tasks ?t1 = [ContinueTask ?c location [] 0]" "isRunning ?t1"
    "length (calls ?t1) = Suc (length (calls t))"
    by (simp_all add: handler_defs)
  with drain_scan [OF assms(2) _ _ p, of ?t1 location "[]" _ sched n] p show ?thesis by auto
qed

theorem confirmed_scan_completes_witness:
  "status (city demo_found) = AWAITING_CONFIRMATION
   \<and> (\<exists>t'. drain demoParse demoRemote (\<lambda>n. 0) 2 1 (continueProcess (city demo_found) None demo_found)
          = (3, t')
        \<and> status (city t') = COMPLETED \<and> tasks t' = [] \<and> length (calls t') = 3)"
proof -
  have l: "length (pincodes (city demo_found)) = 2" "length (calls demo_found) = 1"
    "status (city demo_found) = AWAITING_CONFIRMATION" "tasks demo_found = []"
    by (simp_all add: demo_found_fields)
  from confirmed_scan_completes [OF served_reachable [OF demo_found_served] demoRemote_typed l(3,4),
      of "\<lambda>n. 0" 1 None]
  show ?thesis by (auto simp del: drain.simps simp add: l)
qed

text \<open>
  Claim C23. The spinner tells the truth. In the closed system, with
  responses that yield lists, a tile that is reset only when no call is in
  flight shows the spinner and the Stop button exactly while one call is
  outstanding and has not been cancelled.
\<close>

theorem spinner_iff_call_running:
  assumes "served parse remote c0 n t" and "calm c0 t"
   
    and "\<forall>n pin cityName location. wellTyped parse (remote n (centersRequest pin cityName location))"
  shows "isProcessing (city t) \<longleftrightarrow> tasks t \<noteq> [] \<and> isRunning t"
  using calm_in_phase [OF assms(2)] served_not_stalled [OF assms(1,3)]
  by (cases rule: in_phase_cases) (auto simp: stalled_def guard_defs split: if_splits)

theorem spinner_iff_call_running_witness:
  "isProcessing (city demo_started) \<and> tasks demo_started \<noteq> [] \<and> isRunning demo_started"
  using spinner_iff_call_running [OF demo_started_served demo_started_calm demoRemote_typed]
  by (simp add: demo_started_def handler_defs)

end
