(* ===== verification/Markup.thy ===== *)
theory Markup
  imports Prelude
begin

text \<open>
  The element trees that the components return. A JSX expression is an
  \<open>Element\<close> with its tag, its attributes in the order written and its
  children; text is a \<open>Text\<close> node. A conditional child
  \<^verbatim>\<open>{cond && <x/>}\<close> contributes one child or none. An element whose tag is a
  component (\<^verbatim>\<open>CityTile\<close>, \<^verbatim>\<open>CenterTile\<close>, \<^verbatim>\<open>FileUpload\<close>) carries its key and has
  the tree that the component returns as its only child; the icon components
  are leaves. The type parameter names the event handlers that the
  attributes \<^verbatim>\<open>onClick\<close> and \<^verbatim>\<open>onChange\<close> refer to; \<open>map_node\<close> renames them when
  a component is placed in another. The functions of this theory read a
  tree: the handlers it offers, its text, its elements and their keys.
\<close>

section \<open>Trees\<close>

datatype 'a attr =
    Str string string
  | Flag string bool
  | Width real
  | OnClick 'a
  | OnChange 'a

datatype 'a node =
    Element string "'a attr list" "'a node list"
  | Text string
  | Number real

definition cls :: "string \<Rightarrow> 'a attr" where
  "cls = Str ''className''"

definition whenText :: "string option \<Rightarrow> (string \<Rightarrow> 'a node) \<Rightarrow> 'a node list" where
  "whenText v f = (case v of None \<Rightarrow> [] | Some s \<Rightarrow> if s = [] then [] else [f s])"

definition whenever :: "bool \<Rightarrow> 'a node \<Rightarrow> 'a node list" where
  "whenever b n = (if b then [n] else [])"

section \<open>Reading a tree\<close>

fun actionOf :: "'a attr \<Rightarrow> 'a option" where
  "actionOf (OnClick a) = Some a"
| "actionOf (OnChange a) = Some a"
| "actionOf p = None"

fun stringOf :: "string \<Rightarrow> 'a attr \<Rightarrow> string option" where
  "stringOf k (Str k' v) = (if k = k' then Some v else None)"
| "stringOf k p = None"

fun tagOf :: "'a node \<Rightarrow> string" where
  "tagOf (Element tag ps kids) = tag"
| "tagOf n = []"

fun attrsOf :: "'a node \<Rightarrow> 'a attr list" where
  "attrsOf (Element tag ps kids) = ps"
| "attrsOf n = []"

fun children :: "'a node \<Rightarrow> 'a node list" where
  "children (Element tag ps kids) = kids"
| "children n = []"

fun handlers :: "'a node \<Rightarrow> 'a list" where
  "handlers (Element tag ps kids) = List.map_filter actionOf ps @ concat (map handlers kids)"
| "handlers n = []"

fun elements :: "'a node \<Rightarrow> 'a node list" where
  "elements (Element tag ps kids) = Element tag ps kids # concat (map elements kids)"
| "elements n = []"

fun textOf :: "'a node \<Rightarrow> string" where
  "textOf (Element tag ps kids) = concat (map textOf kids)"
| "textOf (Text s) = s"
| "textOf (Number r) = []"

definition tagged :: "string \<Rightarrow> 'a node \<Rightarrow> 'a node list" where
  "tagged tag n = filter (\<lambda>e. tagOf e = tag) (elements n)"

definition keyOf :: "'a node \<Rightarrow> string option" where
  "keyOf n = (case List.map_filter (stringOf ''key'') (attrsOf n) of [] \<Rightarrow> None | k # ks \<Rightarrow> Some k)"

definition disabled :: "'a node \<Rightarrow> bool" where
  "disabled n \<longleftrightarrow> Flag ''disabled'' True \<in> set (attrsOf n)"

section \<open>Facts\<close>

lemma whenText_Nil [simp]: "whenText v f = [] \<longleftrightarrow> v = None \<or> v = Some []"
  by (simp add: whenText_def split: option.splits)

lemma whenText_Some [simp]: "s \<noteq> [] \<Longrightarrow> whenText (Some s) f = [f s]"
  by (simp add: whenText_def)

lemma whenText_None [simp]: "whenText None f = []" "whenText (Some []) f = []"
  by (simp_all add: whenText_def)

lemma whenever_simps [simp]: "whenever True n = [n]" "whenever False n = []"
  by (simp_all add: whenever_def)

lemma concat_whenever [simp]: "concat (map f (whenever b n)) = (if b then f n else [])"
  by (simp add: whenever_def)

lemma concat_whenText:
  "concat (map h (whenText v f)) =
     (case v of None \<Rightarrow> [] | Some s \<Rightarrow> if s = [] then [] else h (f s))"
  by (simp add: whenText_def split: option.splits)

lemma actionOf_cls [simp]: "actionOf (cls s) = None"
  by (simp add: cls_def)

lemma stringOf_cls [simp]: "stringOf ''key'' (cls s) = None"
  by (simp add: cls_def)

lemma map_filter_Nil: "List.map_filter f [] = []"
  by (simp add: List.map_filter_simps)

lemma map_filter_Cons:
  "List.map_filter f (x # xs) = (case f x of None \<Rightarrow> List.map_filter f xs | Some y \<Rightarrow> y # List.map_filter f xs)"
  by (simp add: List.map_filter_simps)

lemmas map_filter_eval = map_filter_Nil map_filter_Cons

lemma elements_self: "tagOf n \<noteq> [] \<Longrightarrow> n \<in> set (elements n)"
  by (cases n) simp_all

lemma handlers_elements:
  "set (handlers n) = (\<Union>e \<in> set (elements n). set (List.map_filter actionOf (attrsOf e)))"
  by (induction n rule: handlers.induct) (auto simp: map_filter_eval)

lemma tagged_Element:
  "tagged tag (Element tag' ps kids) =
     (if tag' = tag then [Element tag' ps kids] else []) @ concat (map (tagged tag) kids)"
  unfolding tagged_def by (simp add: filter_concat comp_def)

lemma tagged_leaf [simp]: "tagged tag (Text s) = []" "tagged tag (Number r) = []"
  by (simp_all add: tagged_def)

section \<open>Renaming the handlers\<close>

lemma actionOf_map_attr [simp]: "actionOf (map_attr f p) = map_option f (actionOf p)"
  by (cases p) simp_all

lemma map_filter_map_attr:
  "List.map_filter actionOf (map (map_attr f) ps) = map f (List.map_filter actionOf ps)"
  by (induction ps) (auto simp: map_filter_eval split: option.splits)

lemma handlers_map_node [simp]: "handlers (map_node f n) = map f (handlers n)"
  by (induction n) (simp_all add: map_filter_map_attr map_concat comp_def cong: map_cong)

lemma tagOf_map_node [simp]: "tagOf (map_node f n) = tagOf n"
  by (cases n) simp_all

lemma textOf_map_node [simp]: "textOf (map_node f n) = textOf n"
  by (induction n) (simp_all add: comp_def cong: map_cong)

lemma tagged_map_node: "tagged tag (map_node f n) = map (map_node f) (tagged tag n)"
  by (induction n) (simp_all add: tagged_Element map_concat comp_def cong: map_cong)

lemma stringOf_map_attr [simp]: "stringOf k (map_attr f p) = stringOf k p"
  by (cases p) simp_all

lemma map_filter_stringOf:
  "List.map_filter (stringOf k) (map (map_attr f) ps) = List.map_filter (stringOf k) ps"
  by (induction ps) (simp_all add: map_filter_eval split: option.splits)

lemma keyOf_map_node [simp]: "keyOf (map_node f n) = keyOf n"
  by (cases n) (simp_all add: keyOf_def map_filter_stringOf)

lemma map_attr_Flag [simp]:
  "map_attr f p = Flag k b \<longleftrightarrow> p = Flag k b" "Flag k b = map_attr f p \<longleftrightarrow> p = Flag k b"
  by (cases p; auto)+

lemma disabled_map_node [simp]: "disabled (map_node f n) = disabled n"
  by (cases n) (auto simp: disabled_def image_iff)

section \<open>Children that are numbered\<close>

lemma set_concat_enumerate:
  "set (concat (map (\<lambda>(i, x). map (F i) (h x)) (enumerate 0 xs)))
     = {F i y | i y. i < length xs \<and> y \<in> set (h (xs ! i))}"
proof (intro set_eqI iffI)
  fix z assume "z \<in> set (concat (map (\<lambda>(i, x). map (F i) (h x)) (enumerate 0 xs)))"
  then obtain i x where "(i, x) \<in> set (enumerate 0 xs)" "z \<in> F i ` set (h x)" by auto
  then show "z \<in> {F i y | i y. i < length xs \<and> y \<in> set (h (xs ! i))}"
    by (auto simp: in_set_enumerate_eq)
next
  fix z assume "z \<in> {F i y | i y. i < length xs \<and> y \<in> set (h (xs ! i))}"
  then obtain i y where z: "z = F i y" "i < length xs" "y \<in> set (h (xs ! i))" by auto
  then have "(i, xs ! i) \<in> set (enumerate 0 xs)" by (simp add: in_set_enumerate_eq)
  with z show "z \<in> set (concat (map (\<lambda>(i, x). map (F i) (h x)) (enumerate 0 xs)))"
    by (auto intro!: bexI [of _ "(i, xs ! i)"])
qed

end
