(* ===== verification/Render.thy ===== *)
theory Render
  imports Markup View App Geolocation
begin

text \<open>
  The trees that the four components return: \<open>centerTile\<close> for
  \<^verbatim>\<open>src/components/CenterTile.tsx\<close>, \<open>cityTileView\<close> for the \<^verbatim>\<open>return\<close> of
  \<^verbatim>\<open>src/components/CityTile.tsx\<close>, \<open>fileUploadView\<close> for that of
  \<^verbatim>\<open>src/components/FileUpload.tsx\<close> and \<open>appView\<close> for that of \<^verbatim>\<open>src/App.tsx\<close>.
  Class names and texts are those of the source. \<open>toFixed1\<close> is
  \<^verbatim>\<open>Number.prototype.toFixed\<close> with one fraction digit. The width of the
  progress bar is kept as a number, and so is a rating of \<open>10\<^sup>2\<^sup>1\<close> or more:
  the decimal form that JavaScript gives to such numbers is not modelled.
  The lemmas relate the trees to the state of the components: which handlers
  a tile offers, which centers and cities are listed and under which keys.
\<close>

section \<open>A center tile\<close>

definition toFixed1 :: "real \<Rightarrow> string option" where
  "toFixed1 x =
     (if 10 ^ 21 \<le> \<bar>x\<bar> then None
      else (let n = nat \<lfloor>10 * \<bar>x\<bar> + 1 / 2\<rfloor>
        in Some ((if x < 0 then ''-'' else []) @ showNat (n div 10) @ ''.'' @ showNat (n mod 10))))"

definition fixedText :: "real \<Rightarrow> 'a node" where
  "fixedText x = (case toFixed1 x of Some s \<Rightarrow> Text s | None \<Rightarrow> Number x)"

definition star :: "'a node" where
  "star = Element ''svg''
     [Str ''xmlns'' ''http://www.w3.org/2000/svg'', cls ''h-4 w-4 mr-1'', Str ''viewBox'' ''0 0 20 20'',
      Str ''fill'' ''currentColor'']
     [Element ''path'' [Str ''d'' ''M9.049 2.927c.3-.921 1.603-.921 1.902 0l1.07 3.292a1 1 0 00.95.69h3.462c.969 0 1.371 1.24.588 1.81l-2.8 2.034a1 1 0 00-.364 1.118l1.07 3.292c.3.921-.755 1.688-1.54 1.118l-2.8-2.034a1 1 0 00-1.175 0l-2.8 2.034c-.784.57-1.838-.197-1.539-1.118l1.07-3.292a1 1 0 00-.364-1.118L2.98 8.72c-.783-.57-.38-1.81.588-1.81h3.461a1 1 0 00.951-.69l1.07-3.292z''] []]"

definition ratingBadge :: "ScanCenter \<Rightarrow> 'a node" where
  "ratingBadge center = Element ''div''
     [cls ''flex-shrink-0 flex items-center bg-amber-100 text-amber-800 text-xs font-bold px-2 py-1 rounded-full'']
     [star,
      fixedText (googleRating center)]"

definition linkAttrs :: "string \<Rightarrow> 'a attr list" where
  "linkAttrs url =
     [Str ''href'' url, Str ''target'' ''_blank'', Str ''rel'' ''noopener noreferrer'',
      cls ''flex items-center text-sky-600 hover:text-sky-800 transition-colors font-medium'']"

definition centerLinks :: "ScanCenter \<Rightarrow> 'a node" where
  "centerLinks center = Element ''div'' [cls ''flex items-center gap-4'']
     (Element ''a'' (linkAttrs (mapLink center))
        [Element ''MapPinIcon'' [cls ''w-4 h-4 mr-1.5''] [], Text ''View on Map'']
      # whenever (showWebsite center)
          (Element ''a'' (linkAttrs (website center))
             [Element ''GlobeIcon'' [cls ''w-4 h-4 mr-1.5''] [], Text ''Website'']))"

definition ctBadge :: "ScanCenter \<Rightarrow> 'a node" where
  "ctBadge center = Element ''div'' [cls ''flex items-center'', Str ''title'' (ctTitle center)]
     [if ctAvailable center then Element ''CheckCircleIcon'' [] [] else Element ''XCircleIcon'' [] [],
      Element ''span''
        [cls (''ml-1.5 text-xs font-semibold ''
           @ (if ctAvailable center then ''text-green-700'' else ''text-red-700''))]
        [Text ''CT Scan'']]"

definition centerTile :: "ScanCenter \<Rightarrow> 'a node" where
  "centerTile center = Element ''div''
     [cls ''p-4 bg-white border border-slate-200 rounded-lg shadow-sm transition-shadow hover:shadow-md'']
     ([Element ''div'' [cls ''flex justify-between items-start'']
         (Element ''h4'' [cls ''font-bold text-slate-800 text-base mb-2 pr-4'']
            [Text (ScanCenter.name center)]
          # whenever (showRating center) (ratingBadge center)),
       Element ''p'' [cls ''text-sm text-slate-600 flex items-start mb-2'']
         [Element ''MapPinIcon'' [cls ''w-4 h-4 mr-2 mt-0.5 flex-shrink-0''] [],
          Element ''span'' [] [Text (address center)]]]
      @ whenever (showContact center)
          (Element ''p'' [cls ''text-sm text-slate-600 mb-2'']
             [Element ''strong'' [] [Text ''Contact:''], Text '' '', Text (contactNumber center)])
      @ [Element ''div'' [cls ''flex items-center justify-between mt-3 text-sm'']
           [centerLinks center, ctBadge center]])"

section \<open>A city tile\<close>

datatype tileAction =
    StartProcess
  | StopProcess
  | CancelConfirmation
  | ContinueProcess
  | ResetProcess
  | ToggleExpanded

definition statusLine :: "CityProcess \<Rightarrow> 'a node" where
  "statusLine c = Element ''div'' [cls ''flex-1'']
     ([Element ''h3'' [cls ''text-lg font-bold text-slate-900''] [Text (name c)],
       Element ''p'' [cls (''text-sm '' @ color (getStatusInfo c))] [Text (label (getStatusInfo c))]]
      @ whenText (errorMessage c) (\<lambda>message. Element ''p'' [cls ''text-xs text-red-500 mt-1''] [Text message])
      @ whenever (showBar c)
          (Element ''div'' [cls ''w-full bg-slate-200 rounded-full h-1.5 mt-2'']
             [Element ''div'' [cls ''bg-sky-600 h-1.5 rounded-full'', Width (progress c)] []]))"

definition controls :: "Tile \<Rightarrow> tileAction node" where
  "controls t = (let c = city t in Element ''div'' [cls ''flex items-center gap-2 flex-shrink-0'']
     (whenever (showStart c)
        (Element ''button''
           [OnClick StartProcess, cls ''p-2 rounded-full bg-green-100 text-green-700 hover:bg-green-200'']
           [Element ''PlayIcon'' [cls ''w-5 h-5''] []])
      @ whenever (isProcessing c)
        (Element ''button''
           [OnClick StopProcess, cls ''p-2 rounded-full bg-red-100 text-red-700 hover:bg-red-200'']
           [Element ''StopIcon'' [cls ''w-5 h-5''] []])
      @ whenever (isProcessing c) (Element ''SpinnerIcon'' [cls ''text-sky-600''] [])
      @ whenever (showConfirm c)
        (Element ''div'' [cls ''flex gap-2'']
           [Element ''button''
              [OnClick CancelConfirmation,
               cls ''px-3 py-1 text-xs font-semibold text-slate-700 bg-slate-100 rounded-md hover:bg-slate-200'']
              [Text ''Cancel''],
            Element ''button''
              [OnClick ContinueProcess,
               cls ''px-3 py-1 text-xs font-semibold text-white bg-sky-600 rounded-md hover:bg-sky-700'']
              [Text ''Proceed'']])
      @ whenever (showReset c)
        (Element ''button''
           [OnClick ResetProcess, cls ''p-2 rounded-full bg-slate-100 text-slate-700 hover:bg-slate-200'']
           [Element ''RescanIcon'' [cls ''w-5 h-5''] []])
      @ whenever (showToggle c)
        (Element ''button''
           [OnClick ToggleExpanded,
            cls (''p-2 rounded-full bg-slate-100 hover:bg-slate-200 transition-transform duration-300 ''
              @ (if isExpanded t then ''rotate-180'' else []))]
           [Element ''ChevronDownIcon'' [cls ''w-5 h-5 text-slate-600''] []])))"

definition centerKey :: "ScanCenter \<Rightarrow> nat \<Rightarrow> string" where
  "centerKey center index = ScanCenter.name center @ ''-'' @ showNat index"

definition centerList :: "ScanCenter list \<Rightarrow> 'a node" where
  "centerList found = Element ''div'' [cls ''border-t border-slate-200 p-4'']
     [Element ''div'' [cls ''grid grid-cols-1 lg:grid-cols-2 gap-4'']
        (map (\<lambda>(index, center). Element ''CenterTile'' [Str ''key'' (centerKey center index)]
                [centerTile center])
           (enumerate 0 found))]"

definition cityTileView :: "Tile \<Rightarrow> tileAction node" where
  "cityTileView t = Element ''div''
     [cls ''bg-white border border-slate-200 rounded-lg shadow-sm transition-all duration-300'']
     (Element ''div'' [cls ''p-4 flex flex-col sm:flex-row items-start sm:items-center justify-between gap-4'']
        [statusLine (city t), controls t]
      # whenever (showList t) (centerList (centers (city t))))"

section \<open>The upload form\<close>

datatype uploadAction = HandleFileChange

definition uploadHint :: string where
  "uploadHint = ''Please upload a CSV file with '' @ [CHR 0x27] @ ''city'' @ [CHR 0x27] @ '' and ''
     @ [CHR 0x27] @ ''population'' @ [CHR 0x27] @ '' columns.''"

definition fileInput :: "bool \<Rightarrow> uploadAction node" where
  "fileInput busy = Element ''input''
     [Str ''id'' ''file-upload'', Str ''name'' ''file-upload'', Str ''type'' ''file'', cls ''sr-only'',
      Str ''accept'' ''.csv'', OnChange HandleFileChange, Flag ''disabled'' busy] []"

definition fileUploadView :: "UploadState \<Rightarrow> uploadAction node" where
  "fileUploadView u = Element ''div'' [cls ''flex items-center justify-center h-full'']
     [Element ''div'' [cls ''w-full max-w-md p-8 space-y-6 bg-white border border-slate-200 rounded-xl shadow-lg'']
        ([Element ''div'' [cls ''text-center'']
            [Element ''h2'' [cls ''text-2xl font-bold text-slate-800''] [Text ''Upload City Data''],
             Element ''p'' [cls ''mt-2 text-sm text-slate-600''] [Text uploadHint]],
          Element ''div'' [cls ''flex flex-col items-center'']
            [Element ''label''
               [Str ''htmlFor'' ''file-upload'',
                cls ''relative cursor-pointer rounded-md bg-white font-semibold text-sky-600 focus-within:outline-none focus-within:ring-2 focus-within:ring-sky-600 focus-within:ring-offset-2 hover:text-sky-500'']
               [Element ''div''
                  [cls ''w-full px-4 py-2 text-center text-white bg-sky-600 rounded-lg shadow-md hover:bg-sky-700 transition-colors'']
                  [if loading u then Element ''SpinnerIcon'' [cls ''w-5 h-5 mx-auto''] []
                   else Text ''Select CSV File''],
                fileInput (loading u)]]]
         @ whenText (UploadState.error u)
             (\<lambda>message. Element ''div''
                [cls ''mt-4 p-3 bg-red-100 border border-red-300 text-red-800 rounded-lg text-sm'']
                [Element ''strong'' [] [Text ''Error:''], Text '' '', Text message]))]"

section \<open>The page\<close>

datatype appAction = TileAction nat tileAction | UploadAction uploadAction

definition pageHeader :: "'a node" where
  "pageHeader = Element ''header'' [cls ''bg-white shadow-sm sticky top-0 z-10'']
     [Element ''div'' [cls ''container mx-auto px-4 py-4'']
        [Element ''h1'' [cls ''text-2xl font-bold text-slate-800''] [Text ''India CT Scan Discovery''],
         Element ''p'' [cls ''text-sm text-slate-500'']
           [Text ''Discover scan centers in the top 100 cities of India.'']]]"

definition tileGrid :: "string option \<Rightarrow> Tile list \<Rightarrow> appAction node" where
  "tileGrid geoError ts = Element ''div'' []
     (whenText geoError
        (\<lambda>message. Element ''div''
           [cls ''mb-4 p-3 bg-yellow-100 text-yellow-800 border border-yellow-300 rounded-lg text-sm'']
           [Text message])
      @ [Element ''div'' [cls ''grid grid-cols-1 xl:grid-cols-2 gap-4'']
           (map (\<lambda>(i, t). Element ''CityTile'' [Str ''key'' (id' (city t))]
                   [map_node (TileAction i) (cityTileView t)])
              (enumerate 0 ts))])"

definition appView :: "GeoState \<Rightarrow> UploadState \<Rightarrow> AppState \<Rightarrow> appAction node" where
  "appView g u a = Element ''div'' [cls ''min-h-screen bg-slate-100 font-sans'']
     [pageHeader,
      Element ''main'' [cls ''container mx-auto p-4 md:p-6'']
        [if showsUpload (cities a)
         then Element ''div'' [cls ''mt-10'']
           [Element ''FileUpload'' [] [map_node UploadAction (fileUploadView u)]]
         else tileGrid (GeoState.error g) (tiles (render a))]]"

lemmas render_defs = star_def ratingBadge_def linkAttrs_def centerLinks_def ctBadge_def centerTile_def
  statusLine_def controls_def centerKey_def centerList_def cityTileView_def uploadHint_def
  fileInput_def fileUploadView_def pageHeader_def tileGrid_def appView_def

section \<open>Clicking on what is rendered\<close>

text \<open>
  A click reaches a handler only through a button that is part of the
  tree. \<open>perform\<close> is the table of the handlers that the attributes
  \<^verbatim>\<open>onClick\<close> of a tile name, \<open>click\<close> runs one of them if the tile offers it,
  and \<open>clicked\<close> is the event of the state machine that a handler stands for.
\<close>

fun perform :: "tileAction \<Rightarrow> LocationCoords option \<Rightarrow> Tile \<Rightarrow> Tile" where
  "perform StartProcess loc t = startProcess (city t) t"
| "perform StopProcess loc t = stopProcess (city t) t"
| "perform CancelConfirmation loc t = cancelConfirmation (city t) t"
| "perform ContinueProcess loc t = continueProcess (city t) loc t"
| "perform ResetProcess loc t = resetProcess (city t) t"
| "perform ToggleExpanded loc t = toggleExpanded t"

definition click :: "LocationCoords option \<Rightarrow> tileAction \<Rightarrow> Tile \<Rightarrow> Tile option" where
  "click loc a t =
     (if a \<in> set (handlers (cityTileView t)) then Some (perform a loc t) else None)"

fun clicked :: "tileAction \<Rightarrow> event" where
  "clicked StartProcess = ClickStart"
| "clicked StopProcess = ClickStop"
| "clicked CancelConfirmation = ClickCancel"
| "clicked ContinueProcess = ClickProceed"
| "clicked ResetProcess = ClickReset"
| "clicked ToggleExpanded = ClickToggle"

section \<open>The handlers that the trees offer\<close>

lemma handlers_fixedText [simp]: "handlers (fixedText x) = []"
  by (simp add: fixedText_def split: option.splits)

lemma handlers_centerTile [simp]: "handlers (centerTile center) = []"
  by (simp add: render_defs map_filter_eval cls_def whenever_def)

lemma handlers_centerList [simp]: "handlers (centerList found) = []"
  by (simp add: centerList_def map_filter_eval cls_def case_prod_unfold)

lemma handlers_statusLine [simp]: "handlers (statusLine c) = []"
  by (simp add: statusLine_def map_filter_eval cls_def whenever_def concat_whenText
      split: option.splits)

lemma handlers_controls:
  "handlers (controls t) =
     (if showStart (city t) then [StartProcess] else [])
     @ (if isProcessing (city t) then [StopProcess] else [])
     @ (if showConfirm (city t) then [CancelConfirmation, ContinueProcess] else [])
     @ (if showReset (city t) then [ResetProcess] else [])
     @ (if showToggle (city t) then [ToggleExpanded] else [])"
  by (simp add: controls_def Let_def map_filter_eval cls_def whenever_def)

lemma handlers_cityTileView [simp]: "handlers (cityTileView t) = handlers (controls t)"
  by (simp add: cityTileView_def map_filter_eval cls_def whenever_def)

lemma handlers_fileUploadView [simp]: "handlers (fileUploadView u) = [HandleFileChange]"
  by (simp add: fileUploadView_def fileInput_def map_filter_eval cls_def concat_whenText
      split: option.splits)

lemma handlers_tileGrid:
  "handlers (tileGrid geoError ts) =
     concat (map (\<lambda>(i, t). map (TileAction i) (handlers (controls t))) (enumerate 0 ts))"
  by (simp add: tileGrid_def map_filter_eval cls_def concat_whenText case_prod_unfold comp_def
      split: option.splits)

lemma handlers_appView:
  "handlers (appView g u a) =
     (if showsUpload (cities a) then [UploadAction HandleFileChange]
      else concat (map (\<lambda>(i, t). map (TileAction i) (handlers (controls t)))
             (enumerate 0 (tiles (render a)))))"
  by (simp add: appView_def pageHeader_def handlers_tileGrid map_filter_eval cls_def)

section \<open>The text of the status line\<close>

lemma textOf_statusLine:
  "textOf (statusLine c :: 'a node) =
     name c @ label (getStatusInfo c) @ (case errorMessage c of None \<Rightarrow> [] | Some message \<Rightarrow> message)"
  by (simp add: statusLine_def concat_whenText whenever_def split: option.splits)

section \<open>Keys\<close>

lemma centerKey_index: "takeWhile isDigit (rev (centerKey center i)) = rev (showNat i)"
proof -
  have "takeWhile isDigit (rev (showNat i) @ CHR ''-'' # rev (ScanCenter.name center))
      = rev (showNat i) @ takeWhile isDigit (CHR ''-'' # rev (ScanCenter.name center))"
    by (rule takeWhile_append2) (use showNat_digits [of i] in \<open>simp add: list_all_iff\<close>)
  moreover have "\<not> isDigit CHR ''-''" by (simp add: isDigit_def)
  ultimately show ?thesis by (simp add: centerKey_def)
qed

lemma centerKey_inj: "centerKey center i = centerKey center' j \<Longrightarrow> i = j"
  using centerKey_index [of center i] centerKey_index [of center' j] by (auto dest: showNat_inj)

lemma tagged_centerTile [simp]: "tagged ''CenterTile'' (centerTile center :: 'a node) = []"
  by (simp add: render_defs fixedText_def tagged_Element cls_def whenever_def split: option.splits)

lemma tagged_centerList:
  "tagged ''CenterTile'' (centerList found :: 'a node) =
     map (\<lambda>(i, center). Element ''CenterTile'' [Str ''key'' (centerKey center i)] [centerTile center])
       (enumerate 0 found)"
  by (simp add: centerList_def tagged_Element case_prod_unfold comp_def)

lemma tagged_cityTileView:
  "tagged ''CenterTile'' (cityTileView t) =
     (if showList t then tagged ''CenterTile'' (centerList (centers (city t))) else [])"
  by (simp add: cityTileView_def statusLine_def controls_def tagged_Element cls_def whenever_def
      concat_whenText Let_def split: option.splits)

lemma centerKeys_distinct:
  "distinct (map (\<lambda>(i, center). centerKey center i) (enumerate 0 found))"
  by (auto simp: distinct_map inj_on_def in_set_enumerate_eq dest: centerKey_inj)

section \<open>The file input\<close>

lemma tagged_input_centerList [simp]: "tagged ''input'' (centerList found :: 'a node) = []"
  by (simp add: render_defs fixedText_def tagged_Element cls_def whenever_def case_prod_unfold
      split: option.splits)

lemma tagged_input_cityTileView [simp]: "tagged ''input'' (cityTileView t) = []"
  by (simp add: cityTileView_def statusLine_def controls_def tagged_Element cls_def whenever_def
      concat_whenText Let_def split: option.splits)

lemma tagged_input_fileUploadView:
  "tagged ''input'' (fileUploadView u) = [fileInput (loading u)]"
  by (simp add: fileUploadView_def fileInput_def tagged_Element cls_def concat_whenText
      split: option.splits)

lemma tagged_input_appView:
  "tagged ''input'' (appView g u a) =
     (if showsUpload (cities a) then [map_node UploadAction (fileInput (loading u))] else [])"
  by (simp add: appView_def pageHeader_def tileGrid_def tagged_Element tagged_map_node
      tagged_input_fileUploadView cls_def concat_whenText case_prod_unfold split: option.splits)

lemma disabled_fileInput [simp]: "disabled (fileInput busy :: uploadAction node) = busy"
  by (auto simp: fileInput_def disabled_def cls_def)

section \<open>Rounding to one fraction digit\<close>

lemma nearest_tenth:
  assumes "0 \<le> y" and "n = nat \<lfloor>10 * y + 1 / 2\<rfloor>"
  shows "\<bar>real n / 10 - y\<bar> \<le> 1 / 20" and "\<bar>real n / 10 - y\<bar> \<le> \<bar>real m / 10 - y\<bar>"
proof -
  from assms(1) have "0 \<le> \<lfloor>10 * y + 1 / 2\<rfloor>" by simp
  with assms(2) have n: "real n = of_int \<lfloor>10 * y + 1 / 2\<rfloor>" by simp
  then have b: "real n \<le> 10 * y + 1 / 2" "10 * y + 1 / 2 < real n + 1" by linarith+
  then show "\<bar>real n / 10 - y\<bar> \<le> 1 / 20" by linarith
  consider "m < n" | "m = n" | "n < m" by linarith
  then show "\<bar>real n / 10 - y\<bar> \<le> \<bar>real m / 10 - y\<bar>"
  proof cases
    case 1
    then have "real m + 1 \<le> real n" by linarith
    with b show ?thesis by linarith
  next
    case 3
    then have "real n + 1 \<le> real m" by linarith
    with b show ?thesis by linarith
  qed simp
qed

lemma toFixed1_Some:
  "\<bar>x\<bar> < 10 ^ 21 \<Longrightarrow> toFixed1 x = Some ((if x < 0 then ''-'' else [])
     @ showNat (nat \<lfloor>10 * \<bar>x\<bar> + 1 / 2\<rfloor> div 10) @ ''.'' @ showNat (nat \<lfloor>10 * \<bar>x\<bar> + 1 / 2\<rfloor> mod 10))"
  by (simp add: toFixed1_def Let_def)

lemma showNat_digit: "n < 10 \<Longrightarrow> showNat n = [digitChar n]"
  by (simp add: showNat.simps)

section \<open>What is rendered\<close>

lemma render_idem [simp]: "render (render a) = render a"
  by (simp add: render_def zip_map2 comp_def case_prod_unfold map_idI
      zip_same_conv_map map_zip_map2 list_eq_iff_nth_eq)

lemma appReachable_rendered: "appReachable a \<Longrightarrow> render a = a"
proof (induction rule: appReachable.induct)
  case start
  show ?case by (simp add: render_def mountApp_def)
next
  case (step a loc ev a')
  show ?case
  proof (cases ev)
    case (FileRead content)
    with step show ?thesis
      by (auto simp: onFileParsed_def render_def list_eq_iff_nth_eq split: if_splits sum.splits)
  next
    case (TileEvent i e)
    with step(2) show ?thesis
      by (auto simp: tileEvent_def split: if_splits option.splits)
  qed
qed

lemma small_rating_shows_zero:
  assumes "0 < googleRating center" and "googleRating center < 1 / 20"
  shows "showRating center \<and> textOf (ratingBadge center :: 'a node) = ''0.0''"
proof -
  from assms have "\<lfloor>10 * \<bar>googleRating center\<bar> + 1 / 2\<rfloor> = 0" by (simp add: floor_eq_iff)
  with assms show ?thesis
    by (simp add: showRating_def ratingBadge_def star_def fixedText_def toFixed1_def showNat_digit
        digitChar_def)
qed

lemma set_handlers_appView:
  "set (handlers (appView g u a)) =
     (if showsUpload (cities a) then {UploadAction HandleFileChange}
      else {TileAction i y | i y. i < length (tiles (render a))
              \<and> y \<in> set (handlers (controls (tiles (render a) ! i)))})"
proof (cases "showsUpload (cities a)")
  case True
  then show ?thesis by (simp add: handlers_appView)
next
  case False
  then show ?thesis by (simp only: handlers_appView if_False set_concat_enumerate)
qed

section \<open>What the display guarantees\<close>

text \<open>
  The click events of the step function are the clicks on the buttons of the
  tree: \<open>fire\<close> takes its conditions from the same lines of the source as
  \<open>controls\<close>, so the two agree by their definitions. What the conditions
  are is the subject of the theorem on the controls in the root theory.
\<close>

lemma fire_clicked: "fire loc (clicked a) t = click loc a t"
  by (cases a) (simp_all add: click_def handlers_controls guard_defs)

text \<open>
  The application offers exactly the steps that are enabled: the handler of
  a button of tile \<open>i\<close> is part of the tree exactly if the corresponding event
  of that tile is enabled, and the file input is part of it exactly if a file
  can be loaded.
\<close>

lemma app_offers_enabled_steps:
  assumes "appReachable a"
  shows "(TileAction i x \<in> set (handlers (appView g u a))
            \<longleftrightarrow> appStep loc (TileEvent i (clicked x)) a \<noteq> None)
       \<and> (UploadAction HandleFileChange \<in> set (handlers (appView g u a))
            \<longleftrightarrow> appStep loc (FileRead content) a \<noteq> None)"
proof -
  from appReachable_inv [OF assms] have len: "length (tiles a) = length (cities a)"
    by (simp add: app_inv_def)
  have "x \<in> set (handlers (controls (tiles a ! i))) \<longleftrightarrow> fire loc (clicked x) (tiles a ! i) \<noteq> None"
    by (cases x) (simp_all add: handlers_controls guard_defs)
  with len show ?thesis
    by (auto simp: set_handlers_appView appReachable_rendered [OF assms] tileEvent_def
        showsUpload_def split: option.splits sum.splits)
qed

lemma app_offers_enabled_steps_demo:
  "set (handlers (appView mountGeo mountUpload demoStarted))
     = {TileAction 0 StartProcess, TileAction 1 StopProcess}
   \<and> appStep None (TileEvent 1 ClickStop) demoStarted \<noteq> None
   \<and> appStep None (TileEvent 1 ClickStart) demoStarted = None
   \<and> appStep None (FileRead specCsv) demoStarted = None"
  using app_offers_enabled_steps [OF demoStarted_reachable, of 1 StopProcess mountGeo mountUpload None specCsv]
    app_offers_enabled_steps [OF demoStarted_reachable, of 1 StartProcess mountGeo mountUpload None specCsv]
  by (simp add: handlers_appView handlers_controls demoStarted_def render_def showsUpload_def
      guard_defs handler_defs mountTile_def insert_commute)

text \<open>
  The center tiles of a city tile have pairwise different keys,
  whatever the names of the centers are, and there is one center tile per
  center found when the list is expanded and none otherwise.
\<close>

theorem center_keys_distinct:
  "distinct (map keyOf (tagged ''CenterTile'' (cityTileView t)))
   \<and> map keyOf (tagged ''CenterTile'' (cityTileView t))
       = (if showList t then map (\<lambda>(i, center). Some (centerKey center i)) (enumerate 0 (centers (city t)))
          else [])"
proof -
  have k: "map keyOf (tagged ''CenterTile'' (centerList found :: tileAction node))
      = map Some (map (\<lambda>(i, center). centerKey center i) (enumerate 0 found))" for found
    by (simp add: tagged_centerList keyOf_def map_filter_eval case_prod_unfold comp_def)
  have "distinct (map Some ks)" if "distinct ks" for ks :: "string list"
    using that by (simp add: distinct_map)
  from this [OF centerKeys_distinct]
  have "distinct (map keyOf (tagged ''CenterTile'' (centerList found :: tileAction node)))" for found
    unfolding k .
  then show ?thesis by (simp add: tagged_cityTileView k case_prod_unfold comp_def)
qed

theorem center_keys_distinct_witness:
  "map keyOf (tagged ''CenterTile'' (cityTileView demo_tile))
     = [Some ''Apex Imaging-0'', Some ''City Diagnostics-1'']"
  using center_keys_distinct [of demo_tile]
  by (simp add: showList_def demo_city demo_rest awaiting_delhi_def centerKey_def centerA_def
      centerB_def showNat_digit digitChar_def enumerate_simps)

text \<open>
  Claim C30. The rating on a center tile is the rating rounded to the
  nearest tenth, ties upwards: for a rating below \<open>10\<^sup>2\<^sup>1\<close> in absolute value,
  \<^verbatim>\<open>toFixed(1)\<close> prints the digits of a number of tenths that is at most one
  twentieth away from the rating, and no number of tenths is closer.
\<close>

theorem rating_rounds_to_tenth:
  assumes "\<bar>x\<bar> < 10 ^ 21"
  shows "\<exists>n. toFixed1 x = Some ((if x < 0 then ''-'' else []) @ showNat (n div 10) @ ''.''
             @ showNat (n mod 10))
       \<and> \<bar>real n / 10 - \<bar>x\<bar>\<bar> \<le> 1 / 20 \<and> (\<forall>m. \<bar>real n / 10 - \<bar>x\<bar>\<bar> \<le> \<bar>real m / 10 - \<bar>x\<bar>\<bar>)"
  using toFixed1_Some [OF assms] nearest_tenth [of "\<bar>x\<bar>" "nat \<lfloor>10 * \<bar>x\<bar> + 1 / 2\<rfloor>"]
  by (intro exI [of _ "nat \<lfloor>10 * \<bar>x\<bar> + 1 / 2\<rfloor>"]) simp

theorem rating_rounds_to_tenth_witness:
  "toFixed1 (googleRating centerA) = Some ''4.5'' \<and> toFixed1 (17 / 4) = Some ''4.3''
   \<and> (\<exists>n. toFixed1 (17 / 4) = Some (showNat (n div 10) @ ''.'' @ showNat (n mod 10))
        \<and> \<bar>real n / 10 - 17 / 4\<bar> \<le> 1 / 20)"
proof -
  have "\<lfloor>10 * \<bar>9 / 2 :: real\<bar> + 1 / 2\<rfloor> = 45" "\<lfloor>10 * \<bar>17 / 4 :: real\<bar> + 1 / 2\<rfloor> = 43"
    by (simp_all add: floor_eq_iff)
  then have "toFixed1 (googleRating centerA) = Some ''4.5''" "toFixed1 (17 / 4) = Some ''4.3''"
    by (simp_all add: toFixed1_def centerA_def showNat_digit digitChar_def)
  with rating_rounds_to_tenth [of "17 / 4"] show ?thesis by auto
qed

end
