(* ===== verification/Page.thy ===== *)
theory Page
  imports Render GeminiService
begin

text \<open>
  The whole page: the component \<^verbatim>\<open>App\<close> of \<^verbatim>\<open>src/App.tsx\<close> together with the
  hook \<^verbatim>\<open>useGeolocation\<close> it calls and the upload form and the tiles it renders.
  \<open>Page\<close> collects their states; \<open>locating\<close> tells whether the one request for
  the position is still unanswered, and \<open>loading\<close> of the form tells whether a
  file is being read. \<open>pageStep\<close> is one callback of the browser: the
  position or its failure, the choice of a file, the end of reading it, or an
  event of a tile, which receives the location the hook holds at that moment
  as its prop. The lemmas show that the application part of every reachable
  page is a reachable state of \<open>App\<close>, so that its theorems apply, and relate
  the events that are enabled to the page as rendered.
\<close>

section \<open>State and steps\<close>

record Page =
  geo :: GeoState
  locating :: bool
  form :: UploadState
  app :: AppState

definition mountPage :: "bool \<Rightarrow> Page" where
  "mountPage supported =
     \<lparr>geo = fst (effect supported mountGeo), locating = (snd (effect supported mountGeo) \<noteq> None),
      form = mountUpload, app = mountApp\<rparr>"

datatype pageEvent =
    Located real real
  | LocationFailed string
  | Chosen bool
  | Finished reading
  | OnTile nat event

definition onFileRead :: "reading \<Rightarrow> Page \<Rightarrow> Page" where
  "onFileRead r p = (case readAsText r (form p) of
       (u, None) \<Rightarrow> p\<lparr>form := u\<rparr>
     | (u, Some parsed) \<Rightarrow> p\<lparr>form := u, app := onFileParsed parsed\<rparr>)"

fun pageStep :: "pageEvent \<Rightarrow> Page \<Rightarrow> Page option" where
  "pageStep (Located lat lng) p =
     (if locating p then Some (p\<lparr>geo := handleSuccess lat lng (geo p), locating := False\<rparr>) else None)"
| "pageStep (LocationFailed message) p =
     (if locating p then Some (p\<lparr>geo := handleError message (geo p), locating := False\<rparr>) else None)"
| "pageStep (Chosen hasFile) p =
     (if showsUpload (cities (app p)) \<and> \<not> loading (form p)
      then Some (p\<lparr>form := handleFileChange hasFile (form p)\<rparr>) else None)"
| "pageStep (Finished r) p =
     (if showsUpload (cities (app p)) \<and> loading (form p) then Some (onFileRead r p) else None)"
| "pageStep (OnTile i e) p =
     map_option (\<lambda>a. p\<lparr>app := a\<rparr>) (tileEvent (GeoState.location (geo p)) i e (app p))"

definition pageView :: "Page \<Rightarrow> appAction node" where
  "pageView p = appView (geo p) (form p) (app p)"

fun pageRun :: "pageEvent list \<Rightarrow> Page \<Rightarrow> Page option" where
  "pageRun [] p = Some p"
| "pageRun (ev # evs) p = (case pageStep ev p of None \<Rightarrow> None | Some p' \<Rightarrow> pageRun evs p')"

inductive pageReachable :: "bool \<Rightarrow> Page \<Rightarrow> bool" for supported where
  mounted: "pageReachable supported (mountPage supported)"
| stepped: "pageReachable supported p \<Longrightarrow> pageStep ev p = Some p' \<Longrightarrow> pageReachable supported p'"

lemmas page_defs = mountPage_def onFileRead_def pageView_def

lemma pageReachable_run:
  "pageReachable supported p \<Longrightarrow> pageRun evs p = Some p' \<Longrightarrow> pageReachable supported p'"
  by (induction evs arbitrary: p) (auto split: option.splits intro: pageReachable.stepped)

section \<open>The application inside the page\<close>

lemma onFileRead_app:
  assumes "showsUpload (cities (app p))"
  shows "app (onFileRead r p) = app p
     \<or> (\<exists>content. appStep loc (FileRead content) (app p) = Some (app (onFileRead r p)))"
proof (cases r)
  case (Loaded content)
  with assms have "appStep loc (FileRead content) (app p) = Some (app (onFileRead r p))"
    by (auto simp: onFileRead_def readAsText_def onload_def split: sum.splits)
  then show ?thesis by blast
next
  case Unreadable
  then show ?thesis by (simp add: onFileRead_def readAsText_def)
qed

lemma pageStep_app:
  assumes "pageStep ev p = Some p'"
  shows "app p' = app p \<or> (\<exists>loc aev. appStep loc aev (app p) = Some (app p'))"
proof (cases ev)
  case (Finished r)
  with assms have "showsUpload (cities (app p))" "p' = onFileRead r p"
    by (auto split: if_splits)
  with onFileRead_app [of p r None] show ?thesis by blast
next
  case (OnTile i e)
  with assms have "appStep (GeoState.location (geo p)) (TileEvent i e) (app p) = Some (app p')"
    by auto
  then show ?thesis by blast
qed (use assms in \<open>auto split: if_splits\<close>)

lemma pageReachable_app: "pageReachable supported p \<Longrightarrow> appReachable (app p)"
proof (induction rule: pageReachable.induct)
  case mounted
  show ?case by (simp add: mountPage_def appReachable.start)
next
  case (stepped p ev p')
  from pageStep_app [OF stepped(2)] stepped(3) show ?case
    by (auto intro: appReachable.step)
qed

section \<open>The hook and the form inside the page\<close>

definition page_inv :: "bool \<Rightarrow> Page \<Rightarrow> bool" where
  "page_inv supported p \<longleftrightarrow>
     (locating p \<longrightarrow> supported \<and> geo p = mountGeo)
     \<and> (GeoState.location (geo p) = None \<or> GeoState.error (geo p) = None)
     \<and> (\<not> supported \<longrightarrow> geo p = fst (effect False mountGeo))
     \<and> (loading (form p) \<longrightarrow> UploadState.error (form p) = None)
     \<and> (cities (app p) \<noteq> [] \<longrightarrow> \<not> loading (form p) \<and> UploadState.error (form p) = None)
     \<and> length (tiles (app p)) = length (cities (app p))"

lemma page_inv_mount: "page_inv supported (mountPage supported)"
  by (simp add: page_inv_def mountPage_def geo_defs mountUpload_def mountApp_def)

lemma tileEvent_nonempty:
  assumes "tileEvent loc i e a = Some a'" and "length (tiles a) = length (cities a)"
  shows "cities a \<noteq> []" and "cities a' \<noteq> []" and "length (tiles a') = length (cities a')"
proof -
  from assms obtain t' where "i < length (cities a)"
    and a': "a' = render \<lparr>cities = applyUpdates (updatesOf (tiles a ! i) t') (cities a),
      tiles = (tiles a)[i := t']\<rparr>"
    by (auto simp: tileEvent_def split: if_splits option.splits)
  then show "cities a \<noteq> []" by auto
  then have "length (cities a') \<noteq> 0" unfolding a' render_def by simp
  then show "cities a' \<noteq> []" by simp
  from assms(2) show "length (tiles a') = length (cities a')" unfolding a' render_def by simp
qed

lemma page_inv_step:
  assumes "page_inv supported p" and "pageStep ev p = Some p'"
  shows "page_inv supported p'"
proof (cases ev)
  case (Finished r)
  with assms show ?thesis
    by (cases r)
      (auto simp: page_inv_def onFileRead_def readAsText_def onload_def onerror_def showsUpload_def
        onFileParsed_def split: if_splits sum.splits)
next
  case (OnTile i e)
  with assms obtain a' where "tileEvent (GeoState.location (geo p)) i e (app p) = Some a'"
    "p' = p\<lparr>app := a'\<rparr>" by auto
  with assms(1) tileEvent_nonempty [of "GeoState.location (geo p)" i e "app p" a'] show ?thesis
    by (simp add: page_inv_def)
qed (use assms in \<open>auto simp: page_inv_def geo_defs handleFileChange_def showsUpload_def split: if_splits\<close>)

lemma pageReachable_inv: "pageReachable supported p \<Longrightarrow> page_inv supported p"
  by (induction rule: pageReachable.induct) (auto intro: page_inv_mount page_inv_step)

section \<open>The location a scan uses\<close>

lemma takeTask_last: "takeTask (length (tasks t)) (await k rq t) = Some (k, t\<lparr>calls := calls t @ [rq]\<rparr>)"
  by (simp add: takeTask_def await_def remove_nth_def)

lemma proceed_then_answer:
  assumes "1 < length (pincodes (city t))"
  shows "\<exists>t'. fire loc' (CentersResolved (length (tasks t)) (Centers found))
             (continueProcess (city t) loc t) = Some t'
       \<and> calls t' = calls t
           @ [FindScanCentersInPincode (pincodes (city t) ! 0) (name (city t)) loc,
              FindScanCentersInPincode (pincodes (city t) ! 1) (name (city t)) loc]"
proof -
  let ?u = "onUpdate ((city t)\<lparr>status := SCANNING_CENTERS\<rparr>) (t\<lparr>isRunning := True\<rparr>)"
  from assms have ne: "pincodes (city t) \<noteq> []" by auto
  then have c: "continueProcess (city t) loc t =
      await (ContinueTask (city t) loc [] 0)
        (FindScanCentersInPincode (pincodes (city t) ! 0) (name (city t)) loc) ?u"
    by (simp add: continueProcess_def scanLoop_def)
  have "tasks ?u = tasks t" by simp
  with takeTask_last [of ?u] have "takeTask (length (tasks t)) (continueProcess (city t) loc t) =
      Some (ContinueTask (city t) loc [] 0,
        ?u\<lparr>calls := calls ?u @ [FindScanCentersInPincode (pincodes (city t) ! 0) (name (city t)) loc]\<rparr>)"
    unfolding c by simp
  with assms ne show ?thesis
    by (simp add: continueProcess_resolved_def scanLoop_def await_def onUpdate_def)
qed

lemma proceed_located_answer:
  assumes r: "pageReachable supported p" and d: "distinct (map id' (cities (app p)))"
    and i: "i < length (cities (app p))" and l: "locating p"
    and w: "status (cities (app p) ! i) = AWAITING_CONFIRMATION"
    and n: "1 < length (pincodes (cities (app p) ! i))"
  obtains t' where
    "pageRun [OnTile i ClickProceed, Located lat lng,
        OnTile i (CentersResolved (length (tasks (tiles (app p) ! i))) (Centers found))] p
       = Some (p\<lparr>geo := handleSuccess lat lng (geo p), locating := False,
           app := \<lparr>cities = (cities (app p))[i := city t'], tiles = (tiles (app p))[i := t']\<rparr>\<rparr>)"
    "calls t' = calls (tiles (app p) ! i)
       @ [FindScanCentersInPincode (pincodes (cities (app p) ! i) ! 0) (name (cities (app p) ! i)) None,
          FindScanCentersInPincode (pincodes (cities (app p) ! i) ! 1) (name (cities (app p) ! i)) None]"
proof -
  let ?a = "app p" and ?t = "tiles (app p) ! i"
  let ?a1 = "\<lparr>cities = (cities ?a)[i := city (continueProcess (city ?t) None ?t)],
      tiles = (tiles ?a)[i := continueProcess (city ?t) None ?t]\<rparr>"
  from pageReachable_inv [OF r] l have g: "GeoState.location (geo p) = None"
    by (simp add: page_inv_def mountGeo_def)
  have inv: "app_inv ?a" by (rule appReachable_inv [OF pageReachable_app [OF r]])
  with d i have len: "length (tiles ?a) = length (cities ?a)" and c: "city ?t = cities ?a ! i"
    by (simp_all add: app_inv_def slot_ok_def)
  from w c have s1: "tileEvent None i ClickProceed ?a = Some ?a1"
    by (simp add: tileEvent_distinct [OF inv d] i guard_defs)
  from n c obtain t' where f: "fire (GeoState.location (handleSuccess lat lng (geo p)))
        (CentersResolved (length (tasks ?t)) (Centers found)) (continueProcess (city ?t) None ?t) = Some t'"
    and k: "calls t' = calls ?t
       @ [FindScanCentersInPincode (pincodes (city ?t) ! 0) (name (city ?t)) None,
          FindScanCentersInPincode (pincodes (city ?t) ! 1) (name (city ?t)) None]"
    using proceed_then_answer [of ?t _ found None] by auto
  have "app_inv ?a1" by (rule app_inv_tileEvent [OF inv s1])
  moreover have "distinct (map id' (cities ?a1))" using tileEvent_ids [OF s1] d by simp
  ultimately have "tileEvent (GeoState.location (handleSuccess lat lng (geo p))) i
      (CentersResolved (length (tasks ?t)) (Centers found)) ?a1
    = Some \<lparr>cities = (cities ?a)[i := city t'], tiles = (tiles ?a)[i := t']\<rparr>"
    using f i len by (simp add: tileEvent_distinct)
  with s1 g l have "pageRun [OnTile i ClickProceed, Located lat lng,
        OnTile i (CentersResolved (length (tasks ?t)) (Centers found))] p
       = Some (p\<lparr>geo := handleSuccess lat lng (geo p), locating := False,
           app := \<lparr>cities = (cities ?a)[i := city t'], tiles = (tiles ?a)[i := t']\<rparr>\<rparr>)"
    by simp
  with k c that show thesis by simp
qed

section \<open>A worked session\<close>

definition demoPage :: Page where
  "demoPage = \<lparr>geo = mountGeo, locating = True, form = mountUpload, app = demoApp\<rparr>"

definition demoAwaitingPage :: Page where
  "demoAwaitingPage =
     the (pageRun [OnTile 1 ClickStart, OnTile 1 (PincodesResolved 0 delhi_pins)] demoPage)"

lemma demoPage_run: "pageRun [Chosen True, Finished (Loaded specCsv)] (mountPage True) = Some demoPage"
  by (simp add: mountPage_def effect_def mountApp_def mountUpload_def handleFileChange_def
      showsUpload_def onFileRead_def readAsText_def onload_def specCsv_parsed demoPage_def
      demoApp_def delhi_def)

lemmas demoPage_reachable = pageReachable_run [OF pageReachable.mounted demoPage_run]

lemma demoAwaitingPage_run:
  "pageRun [OnTile 1 ClickStart, OnTile 1 (PincodesResolved 0 delhi_pins)] demoPage
     = Some demoAwaitingPage"
  by (simp add: demoAwaitingPage_def demoPage_def demoApp_def mountGeo_def app_defs
      handleFileParsed_def handleCityUpdate_def applyUpdates_def eval_defs mumbai_def delhi_def)

lemmas demoAwaitingPage_reachable = pageReachable_run [OF demoPage_reachable demoAwaitingPage_run]

lemma demoAwaitingPage_fields:
  "cities (app demoAwaitingPage) = [newProcess mumbai, awaiting_delhi]"
  "locating demoAwaitingPage" "length (tiles (app demoAwaitingPage)) = 2"
  "calls (tiles (app demoAwaitingPage) ! 1) = [FindPincodesForCity ''Delhi'']"
  "tasks (tiles (app demoAwaitingPage) ! 1) = []"
  by (simp_all add: demoAwaitingPage_def demoPage_def demoApp_def mountGeo_def app_defs
      handleFileParsed_def handleCityUpdate_def applyUpdates_def eval_defs mumbai_def delhi_def)

section \<open>What the page guarantees\<close>

text \<open>
  Claim C15. The page offers exactly the steps that are enabled. In every
  reachable state of the page, the handler of a button of tile \<open>i\<close> is part of
  the rendered tree exactly if the corresponding event of that tile is
  enabled, and the tree contains a file input that is not disabled exactly
  if a file can be chosen.
\<close>

theorem page_offers_enabled_steps:
  assumes "pageReachable supported p"
  shows "(TileAction i x \<in> set (handlers (pageView p)) \<longleftrightarrow> pageStep (OnTile i (clicked x)) p \<noteq> None)
       \<and> ((\<exists>n \<in> set (tagged ''input'' (pageView p)). \<not> disabled n)
            \<longleftrightarrow> pageStep (Chosen hasFile) p \<noteq> None)"
  using app_offers_enabled_steps [OF pageReachable_app [OF assms], of i x "geo p" "form p"
      "GeoState.location (geo p)"]
  by (simp add: pageView_def tagged_input_appView)

theorem page_offers_enabled_steps_witness:
  "TileAction 0 StartProcess \<in> set (handlers (pageView demoPage))
   \<and> pageStep (OnTile 0 ClickStart) demoPage \<noteq> None
   \<and> tagged ''input'' (pageView demoPage) = [] \<and> pageStep (Chosen True) demoPage = None
   \<and> tagged ''input'' (pageView (mountPage True)) = [map_node UploadAction (fileInput False)]
   \<and> pageStep (Chosen True) (mountPage True) \<noteq> None"
  using page_offers_enabled_steps [OF demoPage_reachable, where i = 0 and x = StartProcess
      and hasFile = True]
    page_offers_enabled_steps [OF pageReachable.mounted [of True], where i = 0 and x = StartProcess
      and hasFile = True]
  by (simp add: pageView_def tagged_input_appView set_handlers_appView handlers_controls
      demoPage_def demoApp_def onFileParsed_def handleFileParsed_def render_def showsUpload_def
      mountPage_def mountApp_def mountUpload_def guard_defs mountTile_def)

text \<open>
  Claim C24. The parts of the page stay consistent. In every reachable state
  the application part is a reachable state of \<^verbatim>\<open>App\<close>; the hook never holds a
  location together with a warning, holds the warning of an unsupported
  browser from the start, and is untouched while the position is awaited; and
  once cities are loaded, or while a file is being read, no file can be
  chosen.
\<close>

theorem page_wellformed:
  assumes "pageReachable supported p"
  shows "appReachable (app p)
       \<and> (GeoState.location (geo p) = None \<or> GeoState.error (geo p) = None)
       \<and> (\<not> supported \<longrightarrow>
            geo p = \<lparr>location = None, error = Some ''Geolocation is not supported by your browser.''\<rparr>)
       \<and> (locating p \<longrightarrow> supported \<and> geo p = mountGeo)
       \<and> (cities (app p) \<noteq> [] \<or> loading (form p) \<longrightarrow> pageStep (Chosen hasFile) p = None)
       \<and> (cities (app p) \<noteq> [] \<longrightarrow> pageStep (Finished r) p = None)"
  using pageReachable_app [OF assms] pageReachable_inv [OF assms]
  by (auto simp: page_inv_def geo_defs showsUpload_def)

theorem page_wellformed_witness:
  "appReachable (app demoAwaitingPage) \<and> geo demoAwaitingPage = mountGeo
   \<and> pageStep (Chosen True) demoAwaitingPage = None
   \<and> pageStep (Finished (Loaded specCsv)) demoAwaitingPage = None"
  using page_wellformed [OF demoAwaitingPage_reachable, where hasFile = True
      and r = "Loaded specCsv"]
  by (simp add: demoAwaitingPage_fields)

text \<open>
  Claim C35. A scan keeps the location of the click that confirmed it. If
  the position arrives after the click on Proceed, the scan goes on without
  it: the requests for the first two postal codes both carry no location,
  although the hook holds one when the second request is sent.
\<close>

theorem location_fixed_at_proceed:
  assumes "pageReachable supported p" and "distinct (map id' (cities (app p)))"
    and "i < length (cities (app p))" and "locating p"
    and "status (cities (app p) ! i) = AWAITING_CONFIRMATION"
    and "1 < length (pincodes (cities (app p) ! i))"
  shows "\<exists>p'. pageRun [OnTile i ClickProceed, Located lat lng,
             OnTile i (CentersResolved (length (tasks (tiles (app p) ! i))) (Centers found))] p = Some p'
       \<and> GeoState.location (geo p') = Some \<lparr>latitude = lat, longitude = lng\<rparr>
       \<and> map (latLng \<circ> requestOf) (drop (length (calls (tiles (app p) ! i))) (calls (tiles (app p') ! i)))
           = [None, None]"
proof -
  from assms obtain t' where
    "pageRun [OnTile i ClickProceed, Located lat lng,
        OnTile i (CentersResolved (length (tasks (tiles (app p) ! i))) (Centers found))] p
       = Some (p\<lparr>geo := handleSuccess lat lng (geo p), locating := False,
           app := \<lparr>cities = (cities (app p))[i := city t'], tiles = (tiles (app p))[i := t']\<rparr>\<rparr>)"
    "calls t' = calls (tiles (app p) ! i)
       @ [FindScanCentersInPincode (pincodes (cities (app p) ! i) ! 0) (name (cities (app p) ! i)) None,
          FindScanCentersInPincode (pincodes (cities (app p) ! i) ! 1) (name (cities (app p) ! i)) None]"
    by (rule proceed_located_answer)
  moreover from appReachable_inv [OF pageReachable_app [OF assms(1)]] assms(3)
  have "i < length (tiles (app p))" by (simp add: app_inv_def)
  ultimately show ?thesis
    by (simp del: pageRun.simps add: handleSuccess_def centersRequest_def)
qed

theorem location_fixed_at_proceed_witness:
  "\<exists>p'. pageRun [OnTile 1 ClickProceed, Located 28 77, OnTile 1 (CentersResolved 0 (Centers [centerA]))]
        demoAwaitingPage = Some p'
     \<and> GeoState.location (geo p') = Some \<lparr>latitude = 28, longitude = 77\<rparr>
     \<and> map (latLng \<circ> requestOf) (drop 1 (calls (tiles (app p') ! 1))) = [None, None]"
  using location_fixed_at_proceed [OF demoAwaitingPage_reachable, where i = 1 and lat = 28
      and lng = 77 and found = "[centerA]"]
  by (simp del: pageRun.simps add: demoAwaitingPage_fields demoAwaitingPage_fields [simplified]
      awaiting_delhi_def delhi_pins_def newProcess_def mumbai_def delhi_def)

end
