(* ===== verification/Regex.thy ===== *)
theory Regex
  imports GeminiService
begin

text \<open>
  The regular expressions of the sources and the four operations the sources
  apply to them, as a reference for the string functions of \<open>JS_String\<close>
  and \<open>GeminiService\<close>, which are written without them.

  \<open>rx\<close> are the patterns that occur; \<open>ends\<close> is the backtracking matcher
  of JavaScript: all the ways a pattern matches at a position, in the order
  in which they are tried (the left alternative first, a star greedily), so
  that the first is the match. A cursor is the rest of the subject together
  with the fact that nothing of it has been passed, which is what \<^verbatim>\<open>^\<close> asks
  for. \<open>test\<close>, \<open>matchAll\<close>, \<open>replaceAll\<close> and \<open>splitBy\<close> are
  \<^verbatim>\<open>RegExp.prototype.test\<close> and, for a pattern with the flag \<^verbatim>\<open>g\<close>,
  \<^verbatim>\<open>String.prototype.match\<close>, \<^verbatim>\<open>replace\<close> with the empty string, and
  \<^verbatim>\<open>split\<close>, with their treatment of empty matches.
\<close>

section \<open>Patterns and their matches\<close>

datatype rx =
    Eps
  | Chr "char \<Rightarrow> bool"
  | Seq rx rx
  | Alt rx rx
  | Star rx
  | Bol
  | Eol

type_synonym cursor = "bool \<times> string"

function ends :: "rx \<Rightarrow> cursor \<Rightarrow> cursor list" where
  "ends Eps x = [x]"
| "ends (Chr P) x = (case snd x of [] \<Rightarrow> [] | c # cs \<Rightarrow> if P c then [(False, cs)] else [])"
| "ends (Seq r1 r2) x = concat (map (ends r2) (ends r1 x))"
| "ends (Alt r1 r2) x = ends r1 x @ ends r2 x"
| "ends (Star r) x =
     concat (map (\<lambda>y. if length (snd y) < length (snd x) then ends (Star r) y else []) (ends r x))
       @ [x]"
| "ends Bol x = (if fst x then [x] else [])"
| "ends Eol x = (if snd x = [] then [x] else [])"
  by pat_completeness auto
termination
  by (relation "measures [\<lambda>(r, x). size r, \<lambda>(r, x). length (snd x)]") auto

definition exec :: "rx \<Rightarrow> cursor \<Rightarrow> cursor option" where
  "exec r x = (case ends r x of [] \<Rightarrow> None | y # ys \<Rightarrow> Some y)"

fun lit :: "string \<Rightarrow> rx" where
  "lit [] = Eps"
| "lit (c # cs) = Seq (Chr (\<lambda>x. x = c)) (lit cs)"

fun times :: "nat \<Rightarrow> rx \<Rightarrow> rx" where
  "times 0 r = Eps"
| "times (Suc n) r = Seq r (times n r)"

definition opt :: "rx \<Rightarrow> rx" where
  "opt r = Alt r Eps"

section \<open>The operations of the sources\<close>

fun test :: "rx \<Rightarrow> cursor \<Rightarrow> bool" where
  "test r (b, []) = (exec r (b, []) \<noteq> None)"
| "test r (b, c # cs) = (exec r (b, c # cs) \<noteq> None \<or> test r (False, cs))"

function matchAll :: "rx \<Rightarrow> cursor \<Rightarrow> string list" where
  "matchAll r (b, s) = (case exec r (b, s) of
       None \<Rightarrow> (case s of [] \<Rightarrow> [] | c # cs \<Rightarrow> matchAll r (False, cs))
     | Some y \<Rightarrow>
         if length (snd y) < length s then take (length s - length (snd y)) s # matchAll r y
         else (case s of [] \<Rightarrow> [[]] | c # cs \<Rightarrow> [] # matchAll r (False, cs)))"
  by pat_completeness auto
termination
  by (relation "measure (\<lambda>(r, x). length (snd x))") auto

function replaceAll :: "rx \<Rightarrow> cursor \<Rightarrow> string" where
  "replaceAll r (b, s) = (case exec r (b, s) of
       None \<Rightarrow> (case s of [] \<Rightarrow> [] | c # cs \<Rightarrow> c # replaceAll r (False, cs))
     | Some y \<Rightarrow>
         if length (snd y) < length s then replaceAll r y
         else (case s of [] \<Rightarrow> [] | c # cs \<Rightarrow> c # replaceAll r (False, cs)))"
  by pat_completeness auto
termination
  by (relation "measure (\<lambda>(r, x). length (snd x))") auto

function splitFrom :: "rx \<Rightarrow> cursor \<Rightarrow> string \<Rightarrow> string list" where
  "splitFrom r (b, s) piece = (case s of
       [] \<Rightarrow> [piece]
     | c # cs \<Rightarrow> (case exec r (b, s) of
           None \<Rightarrow> splitFrom r (False, cs) (piece @ [c])
         | Some y \<Rightarrow>
             if length (snd y) < length s then piece # splitFrom r y []
             else if piece = [] then splitFrom r (False, cs) [c]
             else piece # splitFrom r (False, cs) [c]))"
  by pat_completeness auto
termination
  by (relation "measure (\<lambda>(r, x, p). length (snd x))") auto

definition splitBy :: "rx \<Rightarrow> string \<Rightarrow> string list" where
  "splitBy r s = (if s = [] then (if exec r (True, []) \<noteq> None then [] else [[]])
     else splitFrom r (True, s) [])"

declare matchAll.simps [simp del] replaceAll.simps [simp del] splitFrom.simps [simp del]

section \<open>The patterns of the sources\<close>

definition pincodeRx :: rx where
  "pincodeRx = Seq Bol (Seq (times 6 (Chr isDigit)) Eol)"

definition digitsRx :: rx where
  "digitsRx = times 6 (Chr isDigit)"

definition lineRx :: rx where
  "lineRx = Seq (opt (Chr (\<lambda>c. c = CHR 0x0D))) (Chr (\<lambda>c. c = CHR 0x0A))"

definition fenceRx :: "string \<Rightarrow> rx" where
  "fenceRx mark = Alt (Seq Bol (Seq (lit mark) (Star (Chr isSpace))))
     (Seq (lit fence) Eol)"

section \<open>Matches of the building blocks\<close>

lemma ends_lit:
  "ends (lit m) (b, s) = (if prefix m s then [(b \<and> m = [], drop (length m) s)] else [])"
  by (induction m arbitrary: b s) (auto split: list.splits)

lemma ends_times_Chr:
  "ends (times n (Chr P)) (b, s) =
     (if n \<le> length s \<and> list_all P (take n s) then [(b \<and> n = 0, drop n s)] else [])"
proof (induction n arbitrary: b s)
  case (Suc n)
  then show ?case by (cases s) auto
qed simp

lemma ends_Star_Chr:
  "ends (Star (Chr P)) (b, s) \<noteq> [] \<and>
   hd (ends (Star (Chr P)) (b, s)) = (b \<and> takeWhile P s = [], dropWhile P s)"
proof (induction s arbitrary: b)
  case (Cons c cs)
  then show ?case by (cases "P c") (auto simp: hd_append)
qed simp

lemma exec_Seq_single:
  "ends r1 x = [y] \<Longrightarrow> exec (Seq r1 r2) x = exec r2 y"
  "ends r1 x = [] \<Longrightarrow> exec (Seq r1 r2) x = None"
  by (simp_all add: exec_def)

lemma exec_Alt:
  "exec (Alt r1 r2) x = (case exec r1 x of None \<Rightarrow> exec r2 x | Some y \<Rightarrow> Some y)"
  by (simp add: exec_def split: list.splits)

lemma exec_Star_Chr: "exec (Star (Chr P)) (b, s) = Some (b \<and> takeWhile P s = [], dropWhile P s)"
  using ends_Star_Chr [of P b s] by (cases "ends (Star (Chr P)) (b, s)") (auto simp: exec_def)

lemma exec_Bol: "exec (Seq Bol r) (b, s) = (if b then exec r (b, s) else None)"
  by (simp add: exec_def)

section \<open>The pattern of a postal code\<close>

lemma exec_pincodeRx: "exec pincodeRx (b, s) \<noteq> None \<longleftrightarrow> b \<and> isPincode s"
  by (auto simp: pincodeRx_def exec_Bol exec_Seq_single ends_times_Chr exec_def isPincode_def)

lemma test_later: "(\<And>s. exec r (False, s) = None) \<Longrightarrow> test r (False, s) = False"
  by (induction s) simp_all

lemma test_pincodeRx: "test pincodeRx (True, s) = isPincode s"
proof -
  have "exec pincodeRx (False, u) = None" for u
    using exec_pincodeRx [of False u] by blast
  then have "test pincodeRx (False, u) = False" for u
    by (rule test_later)
  then show ?thesis
    using exec_pincodeRx [of True s] by (cases s) simp_all
qed

section \<open>All runs of six digits\<close>

lemma exec_digitsRx:
  "exec digitsRx (b, s) = (if isPincode (take 6 s) then Some (False, drop 6 s) else None)"
  by (auto simp: digitsRx_def ends_times_Chr exec_def isPincode_def)

lemma matchAll_digitsRx: "matchAll digitsRx (b, s) = matchPincodes s"
proof (induction s arbitrary: b rule: matchPincodes.induct)
  case 1
  show ?case by (subst matchAll.simps) (simp add: exec_digitsRx isPincode_def)
next
  case (2 c cs)
  show ?case
  proof (cases "isPincode (take 6 (c # cs))")
    case True
    then have "5 \<le> length cs" by (auto simp: isPincode_def min_def split: if_splits)
    with True 2(1) [of False] show ?thesis
      by (subst matchAll.simps) (simp add: exec_digitsRx)
  next
    case False
    with 2(2) [of False] show ?thesis
      by (subst matchAll.simps) (simp add: exec_digitsRx)
  qed
qed

section \<open>Lines\<close>

lemma exec_lineRx:
  "exec lineRx (b, s) = (case s of
       [] \<Rightarrow> None
     | c # cs \<Rightarrow> if c = CHR 0x0A then Some (False, cs)
         else if c = CHR 0x0D \<and> cs \<noteq> [] \<and> hd cs = CHR 0x0A then Some (False, tl cs)
         else None)"
  by (auto simp: lineRx_def opt_def exec_def split: list.splits)

lemma splitFrom_lineRx:
  "splitFrom lineRx (b, s) piece = (piece @ hd (splitLines s)) # tl (splitLines s)"
proof (induction s arbitrary: b piece rule: splitLines.induct)
  case 1
  show ?case by (subst splitFrom.simps) simp
next
  case (2 c cs)
  consider (lf) "c = CHR 0x0A" | (crlf) "c \<noteq> CHR 0x0A" "c = CHR 0x0D \<and> cs \<noteq> [] \<and> hd cs = CHR 0x0A"
    | (other) "c \<noteq> CHR 0x0A" "\<not> (c = CHR 0x0D \<and> cs \<noteq> [] \<and> hd cs = CHR 0x0A)"
    by blast
  then show ?case
  proof cases
    case lf
    with 2(1) [of False "[]"] show ?thesis
      by (subst splitFrom.simps) (simp add: exec_lineRx)
  next
    case crlf
    then have "length (tl cs) < Suc (length cs)" by simp
    with crlf 2(2) [of False "[]"] show ?thesis
      by (subst splitFrom.simps) (simp add: exec_lineRx)
  next
    case other
    with 2(3) [of False "piece @ [c]"] show ?thesis
      by (subst splitFrom.simps) (auto simp: exec_lineRx split: list.splits)
  qed
qed

lemma splitBy_lineRx: "splitBy lineRx s = splitLines s"
proof (cases s)
  case Nil
  then show ?thesis by (simp add: splitBy_def exec_lineRx)
next
  case (Cons c cs)
  have "splitFrom lineRx (True, s) [] = splitLines s"
    using splitFrom_lineRx [of True s "[]"] by simp
  with Cons show ?thesis by (simp add: splitBy_def)
qed

section \<open>The fence\<close>

lemma exec_fence_end:
  "exec (Seq (lit fence) Eol) (b, s) = (if s = fence then Some (False, []) else None)"
  by (auto simp: exec_def fence_eq split: list.splits)

lemma exec_fenceRx_later:
  assumes "\<not> (b \<and> prefix mark s)"
  shows "exec (fenceRx mark) (b, s) = (if s = fence then Some (False, []) else None)"
  using assms
  by (auto simp: fenceRx_def exec_Alt exec_Bol exec_Seq_single ends_lit exec_fence_end)

lemma replaceAll_later:
  assumes "\<not> (b \<and> prefix mark s)"
  shows "replaceAll (fenceRx mark) (b, s) = (if suffix fence s then take (length s - 3) s else s)"
  using assms
proof (induction s arbitrary: b)
  case Nil
  then show ?case
    by (subst replaceAll.simps) (simp add: exec_fenceRx_later fence_eq)
next
  case (Cons c cs)
  show ?case
  proof (cases "c # cs = fence")
    case True
    have e: "exec (fenceRx mark) (b, c # cs) = Some (False, [])"
      using exec_fenceRx_later [OF Cons.prems] True by simp
    have n: "replaceAll (fenceRx mark) (False, []) = []"
      by (subst replaceAll.simps) (simp add: exec_fenceRx_later fence_eq)
    from True have "suffix fence (c # cs)" and "length cs = 2"
      by (simp_all add: fence_eq)
    then show ?thesis
      by (subst replaceAll.simps) (simp add: e n)
  next
    case False
    then have "suffix fence (c # cs) \<longleftrightarrow> suffix fence cs" by (auto simp: suffix_Cons)
    moreover have "take (length (c # cs) - 3) (c # cs) = c # take (length cs - 3) cs"
      if "suffix fence cs"
    proof -
      from that have "3 \<le> length cs" by (auto simp: suffix_def fence_eq)
      then have "length (c # cs) - 3 = Suc (length cs - 3)" by simp
      then show ?thesis by (simp only: take_Suc_Cons)
    qed
    ultimately show ?thesis using False Cons.prems Cons.IH [of False]
      by (subst replaceAll.simps) (auto simp: exec_fenceRx_later)
  qed
qed

lemma exec_fenceRx_start:
  assumes "prefix mark s" and "mark \<noteq> []"
  shows "exec (fenceRx mark) (True, s) = Some (False, dropWhile isSpace (drop (length mark) s))"
  using assms
  by (simp add: fenceRx_def exec_Alt exec_Bol exec_Seq_single ends_lit exec_Star_Chr)

lemma replaceAll_fenceRx:
  assumes "mark \<noteq> []"
  shows "replaceAll (fenceRx mark) (True, s) = replaceFence mark s"
proof (cases "prefix mark s")
  case True
  from True obtain zs where s: "s = mark @ zs" by (auto simp: prefix_def)
  from assms obtain m ms where "mark = m # ms" by (cases mark) auto
  with length_dropWhile_le [of isSpace zs]
  have "length (dropWhile isSpace (drop (length mark) s)) < length s"
    unfolding s by simp
  with True assms replaceAll_later [of False mark "dropWhile isSpace (drop (length mark) s)"]
  show ?thesis
    by (subst replaceAll.simps)
      (simp add: exec_fenceRx_start replaceFence_def startsWith_def endsWith_def trimStart_def Let_def
        fence_eq)
next
  case False
  with replaceAll_later [of True mark s] show ?thesis
    by (simp add: replaceFence_def startsWith_def endsWith_def Let_def fence_eq)
qed

section \<open>The string functions are the patterns\<close>

definition fencedText :: string where
  "fencedText = fence @ ''json'' @ [CHR 0x0A] @ ''[110001]'' @ [CHR 0x0D, CHR 0x0A] @ fence"

text \<open>
  Claim C29. The string functions the parsers are modelled with are the
  regular expressions of the sources: \<open>isPincode\<close> is the test of
  \<^verbatim>\<open>^\d{6}$\<close>, \<open>matchPincodes\<close> the global match of \<^verbatim>\<open>\d{6}\<close>,
  \<open>splitLines\<close> the split at \<^verbatim>\<open>\r?\n\<close>, and \<open>replaceFence\<close> the global
  replacement of an opening fence followed by blanks at the start and of a
  fence at the end, for both opening marks the services use.
\<close>

theorem string_functions_are_patterns:
  "test pincodeRx (True, p) = isPincode p \<and>
   matchAll digitsRx (True, s) = matchPincodes s \<and>
   splitBy lineRx s = splitLines s \<and>
   replaceAll (fenceRx (fence @ ''json'')) (True, s) = replaceFence (fence @ ''json'') s \<and>
   replaceAll (fenceRx fence) (True, s) = replaceFence fence s"
  by (simp add: test_pincodeRx matchAll_digitsRx splitBy_lineRx replaceAll_fenceRx fence_eq)

theorem string_functions_are_patterns_witness:
  "test pincodeRx (True, ''110001'') \<and>
   matchAll digitsRx (True, fencedText) = [''110001''] \<and>
   splitBy lineRx fencedText = [fence @ ''json'', ''[110001]'', fence] \<and>
   replaceAll (fenceRx (fence @ ''json'')) (True, fencedText) = ''[110001]'' @ [CHR 0x0D, CHR 0x0A] \<and>
   replaceAll (fenceRx fence) (True, fencedText) = ''json'' @ [CHR 0x0A] @ ''[110001]'' @ [CHR 0x0D, CHR 0x0A]"
  using string_functions_are_patterns [of "''110001''" fencedText]
  by (simp add: fencedText_def service_defs js_defs Let_def suffix_to_prefix)

end
