(* ===== verification/Spec2Isabelle.thy ===== *)
theory Spec2Isabelle
  imports CityTile_Run Discovery_Spec GeminiService App View Geolocation Pipeline Page Regex
begin

text \<open>
  \<^bold>\<open>A verification development for the CT-scan discovery front end.\<close>

  \<^bold>\<open>The program.\<close> A browser application in TypeScript and React. The user
  uploads a CSV file of cities (\<^verbatim>\<open>FileUpload\<close>); the application (\<^verbatim>\<open>App\<close>)
  keeps one \<^verbatim>\<open>CityProcess\<close> per city in a list and renders a tile
  (\<^verbatim>\<open>CityTile\<close>) for each. A tile drives the discovery process of its city: on
  Start it asks the service (\<^verbatim>\<open>geminiService\<close>) for the postal codes of the
  city, waits for the user to confirm them, then asks the service for the scan
  centers of one postal code after the other, reporting progress after every
  answer; Stop, Cancel and Reset intervene. A tile never changes the list: it
  hands a new snapshot of its entry to the callback \<^verbatim>\<open>onUpdate\<close>, and the
  application replaces the entry of that id. The hook \<^verbatim>\<open>useGeolocation\<close>
  supplies an optional position that biases the center lookups.

  \<^bold>\<open>Theories\<close>, in import order, with the sources they model:
  \<^item> \<open>Prelude\<close>: the collections of facts (\<open>handler_defs\<close>, \<open>guard_defs\<close>,
    \<open>inv_defs\<close>, \<open>frame_simps\<close>) and the list lemmas the components share
    (\<open>remove_nth\<close>, logs that are only appended to, \<open>extends\<close>).
  \<^item> \<open>Types\<close>: \<^verbatim>\<open>src/types.ts\<close>. Every interface is a record (\<open>CityProcess\<close>
    extends \<open>City\<close>, so the spread \<^verbatim>\<open>{...city, f: v}\<close> is a record update), the
    enum \<open>ProcessStatus\<close> a datatype with its string values (\<open>status_value\<close>).
  \<^item> \<open>Registry\<close>: the two writers of the list in \<^verbatim>\<open>src/App.tsx\<close>,
    \<open>handleFileParsed\<close> and \<open>handleCityUpdate\<close>, as functions on lists, and
    \<open>applyUpdates\<close>, a sequence of updates.
  \<^item> \<open>CityTile\<close>: \<^verbatim>\<open>src/components/CityTile.tsx\<close>. The state \<open>Tile\<close> is the
    prop \<open>city\<close>, the state variable \<open>isExpanded\<close>, the ref \<open>isRunning\<close>, and
    the list \<open>tasks\<close> of calls in flight; \<open>emitted\<close> and \<open>calls\<close> record the
    arguments of \<^verbatim>\<open>onUpdate\<close> and the requests to the service. Each handler is
    a definition whose first argument is the city the closure captured; an
    asynchronous handler is one definition per stretch between two awaits
    (\<open>startProcess\<close>, \<open>startProcess_resolved\<close>, \<open>startProcess_rejected\<close>;
    \<open>continueProcess\<close>, \<open>scanLoop\<close>, \<open>continueProcess_resolved\<close>), and what is
    suspended at an await is a \<open>task\<close> holding the captured variables. \<open>fire\<close>
    is the step function over clicks and answers of the service, enabled as
    the rendered controls and the pending calls allow; \<open>run\<close> iterates it;
    \<open>reachable\<close> are the tiles of all schedules.
  \<^item> \<open>CityTile_Demo\<close>: one concrete run of a tile, from Start to
    completion, on which the closed examples are stated.
  \<^item> \<open>CityTile_Inv\<close>: the invariant \<open>tile_inv\<close> of every reachable tile and
    its consequences: counters bounded in every emitted update, a message
    exactly in status \<open>ERROR\<close>, identity never changed, progress within
    bounds, Reset restores the fresh process.
  \<^item> \<open>CityTile_Run\<close>: what each phase computes, as runs over explicit
    schedules: the uninterrupted scan (\<open>scan_from\<close> is its loop invariant),
    Stop at every point, the outcomes of the postal-code lookup, the measure
    \<open>work\<close> that bounds the answers a tile can consume.
  \<^item> \<open>Discovery_Spec\<close>: the transition table of the specification (\<open>table\<close>,
    and \<open>specTrigger\<close>, its rows that a control triggers), written from the
    specification and not from the sources, and the refinement theorem for
    tiles that are reset only when no call is in flight (\<open>calm\<close>).
  \<^item> \<open>JS_String\<close>: the built-in operations the parsers call (\<open>trim\<close>,
    \<open>splitOn\<close>, \<open>splitLines\<close>, \<open>toLowerCase\<close>, \<open>indexOf\<close>, \<open>parseInt\<close>, the
    insertion order of a set \<open>dedupe\<close>, the pattern of six digits). They
    are not code of the repository: each is written from the standard of the
    language and is mapped to the line that calls it.
  \<^item> \<open>GeminiService\<close>: \<^verbatim>\<open>src/services/geminiService.ts\<close>. The requests
    (\<open>pincodesRequest\<close>, \<open>centersRequest\<close>), the stripping of a markdown fence
    (\<open>stripFence\<close>), \<open>findPincodesForCity\<close> with its structured path, its
    fallback and its two error messages, \<open>findScanCentersInPincode\<close>, and the
    view \<open>asCenters\<close> the tile takes of the returned value. The theorems
    include the round trip: postal codes that are already well-formed come
    back unchanged on both paths.
  \<^item> \<open>Regex\<close>: the regular expressions of the two parsers as patterns
    (\<open>pincodeRx\<close>, \<open>digitsRx\<close>, \<open>lineRx\<close>, \<open>fenceRx\<close>) with the
    backtracking matcher of the language (\<open>ends\<close>, the first end being the
    match \<open>exec\<close>) and the operations applied to them (\<open>test\<close>,
    \<open>matchAll\<close>, \<open>replaceAll\<close>, \<open>splitBy\<close>), and the theorem that the
    string functions of \<open>JS_String\<close> and \<open>GeminiService\<close> compute the same.
    Only the patterns are from the sources; the matcher and the operations
    are those of the language.
  \<^item> \<open>Pipeline\<close>: the tile composed with the service and the remote
    model. \<open>serve\<close> delivers to the tile, for one of its pending calls, what
    the service function makes of the response; \<open>drain\<close> repeats this with
    fuel, in the order a schedule gives; \<open>served\<close> are the tiles of this
    closed system under arbitrary clicks. The theorems are the progress
    properties: no tile waits for ever, a confirmed scan completes.
  \<^item> \<open>FileUpload\<close>: \<^verbatim>\<open>src/components/FileUpload.tsx\<close>. The parser \<open>parseCsv\<close>,
    the callbacks \<open>handleFileChange\<close>, \<open>onload\<close>, \<open>onerror\<close>, and the reading
    of the chosen file that ends in one of the two (\<open>readAsText\<close>,
    \<open>fileChosen\<close>).
  \<^item> \<open>App\<close>: \<^verbatim>\<open>src/App.tsx\<close> as a whole: the list with the tile mounted at
    each position (\<open>AppState\<close>), an event of one tile followed by the updates
    it emitted and the re-render (\<open>tileEvent\<close>), the upload (\<open>appStep\<close>).
  \<^item> \<open>View\<close>: \<open>getStatusInfo\<close> and the conditions under which the tiles
    render their elements (\<^verbatim>\<open>CityTile.tsx\<close>, \<^verbatim>\<open>CenterTile.tsx\<close>).
  \<^item> \<open>Geolocation\<close>: \<^verbatim>\<open>src/hooks/useGeolocation.ts\<close>.
  \<^item> \<open>Markup\<close>: element trees (\<open>node\<close>) with the handlers of their
    attributes as a type parameter, and the functions that read a tree.
  \<^item> \<open>Render\<close>: the tree each component returns (\<open>centerTile\<close> for
    \<^verbatim>\<open>CenterTile.tsx\<close>, \<open>cityTileView\<close>, \<open>fileUploadView\<close>, \<open>appView\<close>), with the
    class names and texts of the sources; \<open>toFixed1\<close> for the rating
    (the built-in, from the standard of the language); \<open>click\<close>, which runs
    a handler only if the rendered tile offers it. The theorems give the
    rounding of the rating and the keys of the listed centers.
  \<^item> \<open>Page\<close>: the whole page, \<^verbatim>\<open>App\<close> with the hook, the form and the tiles
    (\<open>Page\<close>, \<open>pageStep\<close>, \<open>pageReachable\<close>): a tile event receives the
    location the hook holds at that moment.
  \<^item> this theory: the properties that span components: the rendered
    controls against the triggers of the specification, the tile fed by the
    service functions, the completed scan as it is displayed.

  \<^bold>\<open>Assumptions and bounds.\<close>
  \<^item> An event handler runs to completion, and the next event finds the
    component rendered with the registry as the previous event left it. The
    order of events is otherwise arbitrary: every theorem about \<open>reachable\<close>
    tiles holds for all interleavings of clicks and answers.
  \<^item> Handlers and parsers are total and a schedule is a finite list of
    events. The only function with fuel is \<open>drain\<close>: it delivers at most
    \<open>fuel\<close> answers. The measure \<open>work\<close>, the number of answers the pending
    calls can still consume, decreases with every answer, so the fuel
    \<open>work t\<close> is enough, and the progress theorems are stated for exactly
    that fuel.
  \<^item> The progress theorems assume that every response to a request for
    scan centers makes \<open>findScanCentersInPincode\<close> return a list
    (\<open>wellTyped\<close>); a failed request does, its result is the empty list. The
    last section of \<open>CityTile_Run\<close> shows that a tile stalls otherwise.
  \<^item> In a tree, a component element has the tree its component returns
    as its only child, the icons are leaves, and the props of a component
    that are not strings are left out. The width of the progress bar is kept
    as a number, and so is the text of a rating of \<open>10\<^sup>2\<^sup>1\<close> or more.
  \<^item> Strings are lists of 8-bit characters; blanks are the seven characters
    of that range that \<^verbatim>\<open>trim\<close> removes, which are also those of \<^verbatim>\<open>\s\<close>.
    The patterns are those without captures, flags other than \<^verbatim>\<open>g\<close>, or
    look-around, which is all the sources use; every recursion of the matcher
    is on a smaller pattern or a shorter rest, so it needs no fuel.
  \<^item> Populations are integers; the program computes them as doubles, which
    is the same number below \<open>2^53\<close>, so a theorem that names the value
    \<^verbatim>\<open>parseInt\<close> reads speaks of the program for cells of at most fifteen
    digits. Ratings and the progress percentage are reals where the program
    has doubles.
  \<^item> \<^verbatim>\<open>JSON.parse\<close> is an argument \<open>parse\<close> of the service functions, \<open>None\<close>
    when it throws; the remote model is an argument of type \<open>response\<close>. The
    theorems hold for every parser and every response. An object is the list
    of its members, of which \<open>property\<close> reads the last of a name, as the
    platform's parser keeps the last of repeated names.
  \<^item> The value \<open>findScanCentersInPincode\<close> returns is not checked by the
    program. \<open>asCenters\<close> and \<open>asScanCenter\<close> translate no check of the
    sources: they are the view under which the returned value has the type
    the cast claims. \<open>asCenters\<close> is defined (\<open>Some\<close>) on arrays of objects
    with the eight members of \<open>ScanCenter\<close> and on the values on which the
    spread throws (\<open>NotIterable\<close>); on other values (an array with a member
    of another shape, a non-empty string) the program goes on with data
    outside its types, and the theorems say nothing.
  \<^item> Tiles are kept by position. React keeps them by key, which is the same
    when the ids are distinct; the theorems about independent tiles assume
    distinct ids, and the last theorem of \<open>App\<close> shows what the registry does
    otherwise (what it says of the registry does not depend on how the tiles
    are kept; what React does with two equal keys is not specified).

  \<^bold>\<open>Not modelled:\<close> the icons (\<^verbatim>\<open>icons.tsx\<close> is not part of the sources),
  the decimal form JavaScript gives to a number that is not an integer
  (the width of the progress bar), logging to the console, the construction
  of the client of the remote service, the network, the import and export
  declarations of the modules, and the declarations of the props of the
  components: their members are the field \<open>city\<close> of \<open>Tile\<close>, the location
  argument of the handlers, \<open>onUpdate\<close> (the callback as one tile sees it,
  bound in \<^verbatim>\<open>App.tsx\<close>), and the arguments of the functions of \<open>Render\<close>.
\<close>

section \<open>Properties that span components\<close>

definition serviceAnswers :: "parser \<Rightarrow> response list \<Rightarrow> event list option" where
  "serviceAnswers parse resps = those (map (\<lambda>r. centersEvent 0 (findScanCentersInPincode parse r)) resps)"

definition failing :: "parser \<Rightarrow> response \<Rightarrow> bool" where
  "failing parse resp = (case resp of
       Rejected e \<Rightarrow> True
     | Response None \<Rightarrow> True
     | Response (Some body) \<Rightarrow> trim body = [] \<or> parse (stripFence (trim body)) = None)"

definition delivering :: "parser \<Rightarrow> response \<Rightarrow> ScanCenter list \<Rightarrow> bool" where
  "delivering parse resp cs = (case resp of
       Response (Some body) \<Rightarrow>
         trim body \<noteq> [] \<and> parse (stripFence (trim body)) = Some (JArr (map centerJson cs))
     | _ \<Rightarrow> False)"

lemma failing_event:
  "failing parse r \<Longrightarrow> centersEvent k (findScanCentersInPincode parse r) = Some (CentersResolved k (Centers []))"
  by (auto simp: failing_def findScanCentersInPincode_Some split: response.splits option.splits)

lemma delivering_event:
  "delivering parse r cs \<Longrightarrow>
     centersEvent k (findScanCentersInPincode parse r) = Some (CentersResolved k (Centers cs))"
  by (auto simp: delivering_def findScanCentersInPincode_Some centersEvent_def comp_def
      split: response.splits option.splits)

lemma serviceAnswers_typed:
  assumes "\<forall>r \<in> set resps. (failing parse r \<and> found r = []) \<or> delivering parse r (found r)"
  shows "serviceAnswers parse resps = Some (answers (map found resps))"
  using assms unfolding serviceAnswers_def
  by (induction resps) (auto simp: failing_event delivering_event)

lemma requests_are_requests:
  "map requestOf (requests c loc ps) = map (\<lambda>p. centersRequest p (name c) loc) ps"
  by (simp add: requests_def)

text \<open>
  Claim C8. The controls a tile renders are the triggers of the
  specification's table. In every reachable state, a button other than the
  toggle is part of the tree exactly if the table has a row for its trigger
  in the city's status, and a click on it leaves the city in the status of
  that row: Start only when idle, Stop in both scanning statuses, Cancel and
  Proceed only while the confirmation is awaited, Reset in the three final
  statuses. The toggle is rendered exactly if centers were found, and a click
  on it changes nothing but the expansion.
\<close>

theorem controls_follow_specification:
  assumes "reachable c0 t"
  shows "(a \<noteq> ToggleExpanded \<longrightarrow>
            map_option (\<lambda>t'. status (city t')) (click loc a t)
              = specTrigger (clicked a) (status (city t)))
       \<and> click loc ToggleExpanded t
           = (if centers (city t) = [] then None else Some (t\<lparr>isExpanded := \<not> isExpanded t\<rparr>))"
proof -
  from reachable_tile_inv [OF assms] have "snapshot_ok (city t)"
    by (simp add: tile_inv_def)
  then have "pincodes (city t) \<noteq> []" if "status (city t) = AWAITING_CONFIRMATION"
    using that by (simp add: snapshot_ok_def)
  then show ?thesis
    by (cases a; cases "status (city t)")
      (simp_all add: click_def handlers_controls guard_defs handler_defs)
qed

theorem controls_follow_specification_witness:
  "reachable delhi demo_started
   \<and> map_option (\<lambda>t'. status (city t')) (click None StopProcess demo_started) = Some STOPPED
   \<and> map_option (\<lambda>t'. status (city t')) (click None ResetProcess demo_started) = None
   \<and> click None ToggleExpanded demo_started = None"
  using controls_follow_specification [OF calm_reachable [OF demo_started_calm], of StopProcess None]
    controls_follow_specification [OF calm_reachable [OF demo_started_calm], of ResetProcess None]
    calm_reachable [OF demo_started_calm]
  by (simp add: demo_started_def handler_defs mountTile_def newProcess_def)

text \<open>
  Claim C11. A confirmed scan fed by the service completes whatever the
  service does, as long as its answers are arrays of centers: for one
  response per postal code, each of which fails (\<open>failing\<close>: rejected, without
  text, blank or unparseable) or parses to such an array (\<open>delivering\<close>), the
  tile ends \<^verbatim>\<open>COMPLETED\<close> with the centers of the responses in the order of
  the postal codes, a failed lookup contributing none, and the requests it
  sent are the center requests for its postal codes, its name and the
  location.
\<close>
theorem scan_through_service:
  assumes "tasks t = []" and "status (city t) = AWAITING_CONFIRMATION"
    and "length resps = length (pincodes (city t))"
    and "\<forall>r \<in> set resps. (failing parse r \<and> found r = []) \<or> delivering parse r (found r)"
  shows "\<exists>es t'. serviceAnswers parse resps = Some es \<and> run loc (ClickProceed # es) t = Some t'
       \<and> status (city t') = COMPLETED \<and> centers (city t') = concat (map found resps)
       \<and> map requestOf (drop (length (calls t)) (calls t'))
           = map (\<lambda>p. centersRequest p (name (city t)) loc) (pincodes (city t))
       \<and> tasks t' = []"
proof -
  have l: "length (map found resps) = length (pincodes (city t))" using assms(3) by simp
  show ?thesis
  proof (intro exI conjI)
    show "serviceAnswers parse resps = Some (answers (map found resps))"
      by (rule serviceAnswers_typed [OF assms(4)])
    show "run loc (ClickProceed # answers (map found resps)) t = Some
        (t\<lparr>city := (city t)\<lparr>status := COMPLETED, centers := concat (map found resps)\<rparr>,
          isExpanded := True, isRunning := False, tasks := [],
          emitted := emitted t @ (city t)\<lparr>status := SCANNING_CENTERS\<rparr>
            # scan_updates (city t) [] 0 (map found resps)
            @ [(city t)\<lparr>status := COMPLETED, centers := concat (map found resps)\<rparr>],
          calls := calls t @ requests (city t) loc (pincodes (city t))\<rparr>)"
      by (rule full_scan_run [OF assms(1,2) l])
  qed (simp_all add: requests_are_requests)
qed

theorem scan_through_service_witness:
  "\<exists>es t'. serviceAnswers demoParse [Response (Some ''[centers]''), Rejected (ErrorObj ''quota''),
        Response (Some (fenced ''[centers]''))] = Some es
     \<and> run None (ClickProceed # es) demo_awaiting = Some t'
     \<and> status (city t') = COMPLETED
     \<and> centers (city t') = [centerA, centerB, centerA, centerB]"
proof -
  let ?found = "\<lambda>r. if r = Rejected (ErrorObj ''quota'') then [] else [centerA, centerB]"
  let ?resps = "[Response (Some ''[centers]''), Rejected (ErrorObj ''quota''),
        Response (Some (fenced ''[centers]''))]"
  have h: "tasks demo_awaiting = []" "status (city demo_awaiting) = AWAITING_CONFIRMATION"
    "length ?resps = length (pincodes (city demo_awaiting))"
    by (simp_all add: demo_awaiting_fields eval_defs)
  have "\<forall>r \<in> set ?resps. (failing demoParse r \<and> ?found r = []) \<or> delivering demoParse r (?found r)"
    by (simp add: failing_def delivering_def stripFence_def replaceFence_def fence_eq fenced_def
        demoParse_def js_defs Let_def suffix_to_prefix)
  from scan_through_service [OF h this, of None] obtain es t' where
    "serviceAnswers demoParse ?resps = Some es" "run None (ClickProceed # es) demo_awaiting = Some t'"
    "status (city t') = COMPLETED" "centers (city t') = concat (map ?found ?resps)"
    by blast
  then show ?thesis by (intro exI [of _ es] exI [of _ t']) simp
qed

text \<open>
  Claim C13. Start followed by the answer of the service, whatever it is,
  settles the tile: if \<^verbatim>\<open>findPincodesForCity\<close> throws, the city is in status
  \<^verbatim>\<open>ERROR\<close> with the message thrown; if it returns no postal code, in status
  \<^verbatim>\<open>ERROR\<close> with the message for that case; otherwise it awaits
  confirmation of the returned list, which consists of distinct six-digit
  strings and whose length is \<^verbatim>\<open>foundPincodesCount\<close>.
\<close>
theorem start_through_service:
  assumes "tasks t = []" and "status (city t) = IDLE"
  shows "\<exists>t'. run loc [ClickStart, pincodesEvent 0 (findPincodesForCity parse resp)] t = Some t'
     \<and> calls t' = calls t @ [FindPincodesForCity (name (city t))] \<and> tasks t' = []
     \<and> (case findPincodesForCity parse resp of
          Inl m \<Rightarrow> status (city t') = ERROR \<and> errorMessage (city t') = Some m
        | Inr ps \<Rightarrow> list_all isPincode ps \<and> distinct ps \<and>
            (if ps = [] then status (city t') = ERROR
                \<and> errorMessage (city t') = Some ''No pincodes found for this city.''
             else status (city t') = AWAITING_CONFIRMATION \<and> pincodes (city t') = ps
                \<and> foundPincodesCount (city t') = length ps))"
proof (cases "findPincodesForCity parse resp")
  case (Inl m)
  then show ?thesis
    unfolding pincodesEvent_def using start_run(2) [OF assms, of loc "ErrorObj m"]
    by (simp add: handler_defs)
next
  case (Inr ps)
  then have "list_all isPincode ps \<and> distinct ps"
    by (cases resp rule: response.exhaust; cases "case resp of Response b \<Rightarrow> b | _ \<Rightarrow> None")
      (auto simp: findPincodesForCity_Some dest: parsePincodes_valid split: if_splits)
  with Inr show ?thesis
    unfolding pincodesEvent_def using start_run(1) [OF assms, of loc ps]
    by (simp add: handler_defs)
qed

theorem start_through_service_witness:
  "\<exists>t'. run None [ClickStart, pincodesEvent 0 (findPincodesForCity demoParse (Response (Some ''  {pins} '')))]
        (mountTile (newProcess delhi)) = Some t'
     \<and> status (city t') = AWAITING_CONFIRMATION \<and> pincodes (city t') = [''110001'', ''110002'']
     \<and> foundPincodesCount (city t') = 2"
proof -
  let ?es = "[ClickStart, pincodesEvent 0 (findPincodesForCity demoParse (Response (Some ''  {pins} '')))]"
  have "tasks (mountTile (newProcess delhi)) = []" "status (city (mountTile (newProcess delhi))) = IDLE"
    by simp_all
  from start_through_service [OF this, of None demoParse "Response (Some ''  {pins} '')"]
  obtain t' where "run None ?es (mountTile (newProcess delhi)) = Some t'"
    and "case findPincodesForCity demoParse (Response (Some ''  {pins} '')) of
          Inl m \<Rightarrow> status (city t') = ERROR \<and> errorMessage (city t') = Some m
        | Inr ps \<Rightarrow> list_all isPincode ps \<and> distinct ps \<and>
            (if ps = [] then status (city t') = ERROR
                \<and> errorMessage (city t') = Some ''No pincodes found for this city.''
             else status (city t') = AWAITING_CONFIRMATION \<and> pincodes (city t') = ps
                \<and> foundPincodesCount (city t') = length ps)"
    by blast
  then show ?thesis by (intro exI [of _ t']) (simp add: demo_pincodes)
qed

text \<open>
  An accepted upload creates the tiles: from the empty application
  a file that parses yields one fresh process in status \<^verbatim>\<open>IDLE\<close> per accepted
  row, in the order of the parser, each with a newly mounted tile, at most a
  hundred of them, and the upload is not offered again.
\<close>
theorem upload_creates_idle_tiles:
  assumes "parseCsv content = Inr cs"
  shows "appStep loc (FileRead content) mountApp = Some (onFileParsed cs)
       \<and> cities (onFileParsed cs) = map newProcess cs
       \<and> tiles (onFileParsed cs) = map (\<lambda>c. mountTile (newProcess c)) cs
       \<and> list_all (\<lambda>c. fresh c \<and> status c = IDLE) (cities (onFileParsed cs))
       \<and> length (cities (onFileParsed cs)) = min 100 (length (csvCities content))
       \<and> \<not> showsUpload (cities (onFileParsed cs))"
proof -
  from assms have "cs \<noteq> []" and "csvCities content \<noteq> []"
    and "length cs = min 100 (length (csvCities content))"
    by (simp_all add: parseCsv_Inr)
  with assms show ?thesis
    by (simp add: mountApp_def showsUpload_def onFileParsed_def handleFileParsed_def list_all_iff
        comp_def)
qed

theorem upload_creates_idle_tiles_witness:
  "appStep None (FileRead specCsv) mountApp = Some (onFileParsed [mumbai, delhi])
   \<and> map name (cities (onFileParsed [mumbai, delhi])) = [''Mumbai'', ''Delhi'']
   \<and> map status (cities (onFileParsed [mumbai, delhi])) = [IDLE, IDLE]"
  using upload_creates_idle_tiles [of specCsv "[mumbai, delhi]" None]
  by (simp add: specCsv_parsed delhi_def mumbai_def onFileParsed_def handleFileParsed_def)

text \<open>
  Claim C18. A completed scan as the user sees it: after the click on Proceed and
  the answers of the service, the tile offers Reset, and the toggle if
  centers were found; it lists one center tile per center; and its status
  line reads the name of the uploaded city and the number of centers.
\<close>
theorem completed_scan_is_shown:
  assumes "reachable c0 t"
    and "\<forall>n pin cityName location. wellTyped parse (remote n (centersRequest pin cityName location))"
    and "status (city t) = AWAITING_CONFIRMATION" and "tasks t = []"
    and "t' = snd (drain parse remote sched (length (pincodes (city t))) n (continueProcess (city t) loc t))"
  shows "handlers (cityTileView t') = ResetProcess # (if centers (city t') = [] then [] else [ToggleExpanded])
       \<and> length (tagged ''CenterTile'' (cityTileView t')) = length (centers (city t'))
       \<and> textOf (statusLine (city t') :: tileAction node)
           = name c0 @ ''Completed. Found '' @ showNat (length (centers (city t'))) @ '' centers.''"
proof -
  let ?t1 = "continueProcess (city t) loc t"
  from tile_inv_snapshot [OF reachable_tile_inv [OF assms(1)]] assms(3)
  have p: "0 < length (pincodes (city t))" by (simp add: snapshot_ok_def)
  with assms(4) have "tasks ?t1 = [ContinueTask (city t) loc [] 0]" "isRunning ?t1"
    by (simp_all add: handler_defs)
  from drain_scan [OF assms(2) this p refl, of sched n] assms(5)
  have s: "status (city t') = COMPLETED" "isExpanded t'" by auto
  have "reachable c0 ?t1"
    using assms(1,3) by (auto intro!: reachable.fired [of c0 t loc ClickProceed] simp: guard_defs)
  then have inv: "tile_inv c0 t'" unfolding assms(5) by (intro reachable_tile_inv drain_reachable)
  from tile_inv_snapshot [OF inv] s(1) have e: "errorMessage (city t') = None"
    by (auto simp: snapshot_ok_def)
  from tile_inv_same_city [OF inv] have n: "name (city t') = name c0"
    by (simp add: same_city_def)
  from s e n show ?thesis
    by (simp add: handlers_controls guard_defs tagged_cityTileView tagged_centerList textOf_statusLine
        getStatusInfo_def)
qed

theorem completed_scan_is_shown_witness:
  "textOf (statusLine (city (snd (drain demoParse demoRemote (\<lambda>n. 0) 2 1
        (continueProcess (city demo_found) None demo_found)))) :: tileAction node)
     = ''Delhi'' @ ''Completed. Found ''
       @ showNat (length (centers (city (snd (drain demoParse demoRemote (\<lambda>n. 0) 2 1
           (continueProcess (city demo_found) None demo_found)))))) @ '' centers.''
   \<and> textOf (statusLine (city demo_tile) :: tileAction node) = ''DelhiCompleted. Found 2 centers.''"
proof -
  have l: "length (pincodes (city demo_found)) = 2" "status (city demo_found) = AWAITING_CONFIRMATION"
    "tasks demo_found = []"
    by (simp_all add: demo_found_fields)
  have "textOf (statusLine (city demo_tile) :: tileAction node) = ''DelhiCompleted. Found 2 centers.''"
    by (simp add: textOf_statusLine demo_city awaiting_delhi_def getStatusInfo_def delhi_def
        showNat_digit digitChar_def)
  with completed_scan_is_shown [OF served_reachable [OF demo_found_served] demoRemote_typed l(2,3) refl,
      where sched = "\<lambda>n. 0" and n = 1 and loc = None]
  show ?thesis by (simp del: drain.simps add: l(1) delhi_def)
qed

end
